(* ===== verification/Prelude.thy ===== *)
theory Prelude
  imports Main
begin

text \<open>
  What every component of the development shares: results that may be an
  exception (a sum, the exception on the left), stateful actions that return
  such a result and the new state, the frame rules that lift a property of one
  step to a whole action, and a few facts about \<open>find\<close> and \<open>map\<close> on rows.
\<close>

named_theorems act_simps \<open>unfolding of actions and of fallible results\<close>

section \<open>Fallible results\<close>

text \<open>
  A Python expression that may raise is a sum: \<open>Inl e\<close> is the exception, \<open>Inr x\<close>
  the value. \<open>try_bind\<close> is evaluation in sequence, \<open>map_error\<close> an \<open>except\<close>
  clause that raises another exception.
\<close>

definition try_bind :: "'e + 'a \<Rightarrow> ('a \<Rightarrow> 'e + 'b) \<Rightarrow> 'e + 'b" where
  "try_bind r f = (case r of Inl e \<Rightarrow> Inl e | Inr x \<Rightarrow> f x)"

definition map_error :: "('e \<Rightarrow> 'f) \<Rightarrow> 'e + 'a \<Rightarrow> 'f + 'a" where
  "map_error h r = (case r of Inl e \<Rightarrow> Inl (h e) | Inr x \<Rightarrow> Inr x)"

lemma try_bind_simps [simp]:
  "try_bind (Inl e) f = Inl e"
  "try_bind (Inr x) f = f x"
  by (simp_all add: try_bind_def)

lemma map_error_simps [simp]:
  "map_error h (Inl e) = Inl (h e)"
  "map_error h (Inr x) = Inr x"
  by (simp_all add: map_error_def)

lemma try_bind_eq_Inr: "try_bind r f = Inr y \<longleftrightarrow> (\<exists>x. r = Inr x \<and> f x = Inr y)"
  by (cases r) auto

lemma try_bind_eq_Inl:
  "try_bind r f = Inl e \<longleftrightarrow> r = Inl e \<or> (\<exists>x. r = Inr x \<and> f x = Inl e)"
  by (cases r) auto

lemma map_error_eq_Inr: "map_error h r = Inr y \<longleftrightarrow> r = Inr y"
  by (cases r) auto

lemma map_error_eq_Inl: "map_error h r = Inl e \<longleftrightarrow> (\<exists>d. r = Inl d \<and> e = h d)"
  by (cases r) auto

lemmas result_iffs = try_bind_eq_Inr try_bind_eq_Inl map_error_eq_Inr map_error_eq_Inl

section \<open>Stateful actions\<close>

text \<open>
  A Python function with effects takes the state and returns its result, or the
  exception it raised, with the state it leaves. The state is returned on both
  sides: an exception does not undo the effects that came before it.
\<close>

type_synonym ('e, 's, 'a) act = "'s \<Rightarrow> ('e + 'a) \<times> 's"

definition ret :: "'a \<Rightarrow> ('e, 's, 'a) act" where
  "ret x s = (Inr x, s)"

definition raising :: "'e \<Rightarrow> ('e, 's, 'a) act" where
  "raising e s = (Inl e, s)"

definition lift :: "'e + 'a \<Rightarrow> ('e, 's, 'a) act" where
  "lift r s = (r, s)"

definition reads :: "('s \<Rightarrow> 'a) \<Rightarrow> ('e, 's, 'a) act" where
  "reads f s = (Inr (f s), s)"

definition modifies :: "('s \<Rightarrow> 's) \<Rightarrow> ('e, 's, unit) act" where
  "modifies f s = (Inr (), f s)"

definition bnd :: "('e, 's, 'a) act \<Rightarrow> ('a \<Rightarrow> ('e, 's, 'b) act) \<Rightarrow> ('e, 's, 'b) act" where
  "bnd m f s = (case m s of (Inl e, t) \<Rightarrow> (Inl e, t) | (Inr x, t) \<Rightarrow> f x t)"

definition except_as :: "('e \<Rightarrow> 'e) \<Rightarrow> ('e, 's, 'a) act \<Rightarrow> ('e, 's, 'a) act" where
  "except_as h m s = (case m s of (r, t) \<Rightarrow> (map_error h r, t))"

text \<open>\<open>try: m / except: h e / else: k x\<close>; what \<open>h\<close> and \<open>k\<close> raise is not caught.\<close>

definition try_except_else ::
  "('e, 's, 'a) act \<Rightarrow> ('e \<Rightarrow> ('e, 's, 'b) act) \<Rightarrow> ('a \<Rightarrow> ('e, 's, 'b) act) \<Rightarrow> ('e, 's, 'b) act" where
  "try_except_else m h k s = (case m s of (Inl e, t) \<Rightarrow> h e t | (Inr x, t) \<Rightarrow> k x t)"

text \<open>\<open>try: m finally: f\<close>.\<close>

definition finally_do :: "('e, 's, 'a) act \<Rightarrow> ('e, 's, unit) act \<Rightarrow> ('e, 's, 'a) act" where
  "finally_do m f s =
     (case m s of (r, t) \<Rightarrow>
        case f t of
          (Inl exc, u) \<Rightarrow> (Inl exc, u)
        | (Inr _, u) \<Rightarrow> (r, u))"

lemmas act_defs = ret_def raising_def lift_def reads_def modifies_def

declare ret_def [act_simps] raising_def [act_simps] lift_def [act_simps]
  reads_def [act_simps] modifies_def [act_simps]

lemma bnd_simps [act_simps]:
  "m s = (Inl e, t) \<Longrightarrow> bnd m f s = (Inl e, t)"
  "m s = (Inr x, t) \<Longrightarrow> bnd m f s = f x t"
  by (simp_all add: bnd_def)

lemma bnd_act [act_simps]:
  "bnd (ret x) f s = f x s"
  "bnd (raising e) f s = (Inl e, s)"
  "bnd (reads g) f s = f (g s) s"
  "bnd (modifies h) k s = k () (h s)"
  "bnd (lift (Inl e)) f s = (Inl e, s)"
  "bnd (lift (Inr x)) f s = f x s"
  by (simp_all add: bnd_def act_defs)

lemma bnd_assoc: "bnd (bnd m f) g s = bnd m (\<lambda>x. bnd (f x) g) s"
  by (auto simp: bnd_def split: prod.splits sum.splits)

lemma bnd_eq_Inr:
  "bnd m f s = (Inr y, u) \<longleftrightarrow> (\<exists>x t. m s = (Inr x, t) \<and> f x t = (Inr y, u))"
  by (auto simp: bnd_def split: prod.splits sum.splits)

lemma bnd_eq_Inl:
  "bnd m f s = (Inl e, u) \<longleftrightarrow>
     m s = (Inl e, u) \<or> (\<exists>x t. m s = (Inr x, t) \<and> f x t = (Inl e, u))"
  by (auto simp: bnd_def split: prod.splits sum.splits)

lemma except_as_eq_Inr: "except_as h m s = (Inr y, u) \<longleftrightarrow> m s = (Inr y, u)"
  by (auto simp: except_as_def map_error_eq_Inr split: prod.splits)

lemma except_as_eq_Inl:
  "except_as h m s = (Inl e, u) \<longleftrightarrow> (\<exists>d. m s = (Inl d, u) \<and> e = h d)"
  by (auto simp: except_as_def map_error_eq_Inl split: prod.splits)

lemma lift_eq: "lift r s = (q, t) \<longleftrightarrow> r = q \<and> s = t"
  by (simp add: lift_def)

lemmas act_iffs = bnd_eq_Inr bnd_eq_Inl except_as_eq_Inr except_as_eq_Inl lift_eq

section \<open>Frames\<close>

text \<open>
  \<open>framed R m\<close>: whatever the outcome, the action \<open>m\<close> takes a state to a state
  related to it by \<open>R\<close>. For a reflexive and transitive \<open>R\<close> this holds of a composed
  action as soon as it holds of its parts.
\<close>

definition framed :: "('s \<Rightarrow> 's \<Rightarrow> bool) \<Rightarrow> ('e, 's, 'a) act \<Rightarrow> bool" where
  "framed R m \<longleftrightarrow> (\<forall>s. R s (snd (m s)))"

lemma framedI: "(\<And>s. R s (snd (m s))) \<Longrightarrow> framed R m"
  by (simp add: framed_def)

lemma framedD: "framed R m \<Longrightarrow> m s = (r, t) \<Longrightarrow> R s t"
  by (metis framed_def snd_conv)

locale state_frame =
  fixes R :: "'s \<Rightarrow> 's \<Rightarrow> bool"
  assumes R_refl: "R s s"
    and R_trans: "R s t \<Longrightarrow> R t u \<Longrightarrow> R s u"
begin

lemma framed_pure:
  "framed R (ret x)" "framed R (raising e)" "framed R (lift r)" "framed R (reads f)"
  by (simp_all add: framed_def act_defs R_refl)

lemma framed_bnd:
  assumes m: "framed R m" and f: "\<And>x. framed R (f x)"
  shows "framed R (bnd m f)"
proof (rule framedI)
  fix s
  obtain r t where mt: "m s = (r, t)" by (cases "m s")
  have st: "R s t" using m mt by (rule framedD)
  show "R s (snd (bnd m f s))"
  proof (cases r)
    case (Inl e)
    with mt st show ?thesis by (simp add: bnd_def)
  next
    case (Inr x)
    have "R t (snd (f x t))" using f by (simp add: framed_def)
    with st have "R s (snd (f x t))" by (rule R_trans)
    with mt Inr show ?thesis by (simp add: bnd_def)
  qed
qed

lemma framed_except_as: "framed R m \<Longrightarrow> framed R (except_as h m)"
  by (auto simp: framed_def except_as_def split: prod.splits) (metis snd_conv)

lemma framed_try_except_else:
  assumes m: "framed R m" and h: "\<And>e. framed R (h e)" and k: "\<And>x. framed R (k x)"
  shows "framed R (try_except_else m h k)"
proof (rule framedI)
  fix s
  obtain r t where mt: "m s = (r, t)" by (cases "m s")
  have "R s t" using m mt by (rule framedD)
  moreover have "R t (snd (h e t))" "R t (snd (k x t))" for e x using h k by (simp_all add: framed_def)
  ultimately show "R s (snd (try_except_else m h k s))"
    using mt R_trans by (cases r) (auto simp: try_except_else_def)
qed

lemma framed_if: "framed R m \<Longrightarrow> framed R n \<Longrightarrow> framed R (if c then m else n)"
  by simp

lemma framed_case_option:
  "framed R m \<Longrightarrow> (\<And>x. framed R (f x)) \<Longrightarrow> framed R (case v of None \<Rightarrow> m | Some x \<Rightarrow> f x)"
  by (simp split: option.split)

lemmas frame_rules =
  framed_pure framed_bnd framed_except_as framed_try_except_else framed_if framed_case_option

end

section \<open>Rows\<close>

lemma find_SomeD: "find P xs = Some x \<Longrightarrow> x \<in> set xs \<and> P x"
  by (metis find_Some_iff nth_mem)

lemma find_eq_None: "find P xs = None \<longleftrightarrow> (\<forall>x \<in> set xs. \<not> P x)"
  by (auto simp: find_None_iff)

lemma find_append: "find P (xs @ ys) = (case find P xs of None \<Rightarrow> find P ys | Some x \<Rightarrow> Some x)"
  by (induction xs) auto

lemma find_key_unique:
  assumes "distinct (map k xs)" and "x \<in> set xs"
  shows "find (\<lambda>r. k r = k x) xs = Some x"
proof -
  have "find (\<lambda>r. k r = k x) xs \<noteq> None" using assms(2) by (auto simp: find_eq_None)
  then obtain y where y: "find (\<lambda>r. k r = k x) xs = Some y" by blast
  then have "y \<in> set xs" "k y = k x" by (auto dest: find_SomeD)
  with assms have "y = x" by (simp add: distinct_map inj_on_def)
  with y show ?thesis by simp
qed

end
