(* ===== verification/PyData.thy ===== *)
theory PyData
  imports Prelude Complex_Main "HOL-Library.Char_ord"
begin

text \<open>
  The Python values the program handles and the built-in operations it uses on
  them: JSON values and SDK response objects, truth, \<open>isinstance\<close>, \<open>dict.get\<close>,
  \<open>getattr\<close>, and the string methods (\<open>strip\<close>, \<open>lower\<close>, \<open>replace\<close>, \<open>repr\<close>, the
  decimal printing of integers). A Python \<open>str\<close> is the list of the bytes of its UTF-8
  encoding, so equality, concatenation and emptiness are those of the program for
  every code point; \<open>repr\<close> takes the code points above U+007F as printable.
\<close>

section \<open>Values\<close>

text \<open>
  \<open>PFloat x\<close> is the finite float whose value is the rational \<open>x\<close>, \<open>PNonFinite\<close> one of
  \<open>nan\<close>, \<open>inf\<close> and \<open>-inf\<close>. \<open>PObj\<close> is an object with attributes, such as
  the models the Metronome SDK returns. A \<open>dict\<close> is an association list in
  insertion order; the first entry of a key is its value.
\<close>

datatype pyval =
    PNone
  | PBool bool
  | PInt int
  | PFloat rat
  | PNonFinite string
  | PStr string
  | PList "pyval list"
  | PDict "(string \<times> pyval) list"
  | PObj "(string \<times> pyval) list"

type_synonym pydict = "(string \<times> pyval) list"

fun truthy :: "pyval \<Rightarrow> bool" where
  "truthy PNone = False"
| "truthy (PBool b) = b"
| "truthy (PInt n) = (n \<noteq> 0)"
| "truthy (PFloat x) = (x \<noteq> 0)"
| "truthy (PNonFinite _) = True"
| "truthy (PStr s) = (s \<noteq> [])"
| "truthy (PList xs) = (xs \<noteq> [])"
| "truthy (PDict d) = (d \<noteq> [])"
| "truthy (PObj a) = True"

text \<open>\<open>d.get(k)\<close>: the value of the key, or \<open>None\<close>.\<close>

definition dict_get :: "pydict \<Rightarrow> string \<Rightarrow> pyval" where
  "dict_get d k = (case map_of d k of None \<Rightarrow> PNone | Some v \<Rightarrow> v)"

text \<open>
  \<open>getattr(o, k, None)\<close>. The built-in values have none of the attributes the
  program asks for (\<open>data\<close>, \<open>id\<close>, \<open>uniqueness_key\<close>).
\<close>

fun get_attribute :: "pyval \<Rightarrow> string \<Rightarrow> pyval" where
  "get_attribute (PObj a) k = dict_get a k"
| "get_attribute _ k = PNone"

text \<open>\<open>bool\<close> is a subclass of \<open>int\<close>: \<open>isinstance(True, int)\<close> holds, and \<open>True\<close> counts as 1.\<close>

fun as_int :: "pyval \<Rightarrow> int option" where
  "as_int (PInt n) = Some n"
| "as_int (PBool b) = Some (if b then 1 else 0)"
| "as_int _ = None"

text \<open>\<open>isinstance(v, str) and v\<close>: a string that is not empty.\<close>

fun nonempty_str :: "pyval \<Rightarrow> string option" where
  "nonempty_str (PStr s) = (if s = [] then None else Some s)"
| "nonempty_str _ = None"

lemma nonempty_str_Some [simp]: "nonempty_str v = Some s \<longleftrightarrow> v = PStr s \<and> s \<noteq> []"
  by (cases v) auto

lemma nonempty_str_None: "nonempty_str v = None \<longleftrightarrow> (\<forall>s. v = PStr s \<longrightarrow> s = [])"
  by (cases v) auto

lemma as_int_Some: "as_int v = Some n \<longleftrightarrow> v = PInt n \<or> (\<exists>b. v = PBool b \<and> n = (if b then 1 else 0))"
  by (cases v) auto

lemma dict_get_Cons [simp]:
  "dict_get ((k, v) # d) k' = (if k' = k then v else dict_get d k')"
  by (simp add: dict_get_def)

lemma dict_get_Nil [simp]: "dict_get [] k = PNone"
  by (simp add: dict_get_def)

section \<open>Strings\<close>

text \<open>
  The white space of \<open>str.isspace\<close>, one UTF-8 encoding each: the ASCII ones, U+0085,
  U+00A0, U+1680, U+2000 to U+200A, U+2028, U+2029, U+202F, U+205F and U+3000.
\<close>

definition py_whitespace :: "string list" where
  "py_whitespace =
     map (\<lambda>c. [c]) [CHR 0x20, CHR 0x09, CHR 0x0A, CHR 0x0B, CHR 0x0C, CHR 0x0D,
       CHR 0x1C, CHR 0x1D, CHR 0x1E, CHR 0x1F] @
     map (\<lambda>c. [CHR 0xC2, c]) [CHR 0x85, CHR 0xA0] @
     map (\<lambda>c. [CHR 0xE2, CHR 0x80, c]) [CHR 0x80, CHR 0x81, CHR 0x82, CHR 0x83, CHR 0x84,
       CHR 0x85, CHR 0x86, CHR 0x87, CHR 0x88, CHR 0x89, CHR 0x8A, CHR 0xA8, CHR 0xA9, CHR 0xAF] @
     [[CHR 0xE1, CHR 0x9A, CHR 0x80], [CHR 0xE2, CHR 0x81, CHR 0x9F], [CHR 0xE3, CHR 0x80, CHR 0x80]]"

definition leading :: "string list \<Rightarrow> string \<Rightarrow> string option" where
  "leading ws s = find (\<lambda>w. w \<noteq> [] \<and> take (length w) s = w) ws"

lemma leading_SomeD: "leading ws s = Some w \<Longrightarrow> w \<noteq> [] \<and> take (length w) s = w"
  unfolding leading_def by (drule find_SomeD) simp

lemma leading_append: "leading ws (s @ t) = None \<Longrightarrow> leading ws s = None"
  unfolding leading_def find_eq_None
  by (metis append_Nil2 append_take_drop_id length_0_conv take_all_iff take_append linorder_le_cases
      diff_is_0_eq' take_0)

function strip_left :: "string list \<Rightarrow> string \<Rightarrow> string" where
  "strip_left ws s =
     (case leading ws s of None \<Rightarrow> s | Some w \<Rightarrow> strip_left ws (drop (length w) s))"
  by pat_completeness auto
termination
proof (relation "measure (\<lambda>(ws, s). length s)")
  fix ws :: "string list" and s w
  assume "leading ws s = Some w"
  then have w: "w \<noteq> []" "take (length w) s = w" by (auto dest: leading_SomeD)
  then have "s \<noteq> []" by auto
  with w show "((ws, drop (length w) s), ws, s) \<in> measure (\<lambda>(ws, s). length s)" by simp
qed simp

declare strip_left.simps [simp del]

definition py_strip :: "string \<Rightarrow> string" where
  "py_strip s = rev (strip_left (map rev py_whitespace) (rev (strip_left py_whitespace s)))"

lemma strip_left_done: "leading ws (strip_left ws s) = None"
proof (induction ws s rule: strip_left.induct)
  case (1 ws s)
  then show ?case by (subst strip_left.simps) (auto split: option.split)
qed

lemma strip_left_id: "leading ws s = None \<Longrightarrow> strip_left ws s = s"
  by (subst strip_left.simps) simp

lemma strip_left_suffix: "\<exists>p. s = p @ strip_left ws s"
proof (induction ws s rule: strip_left.induct)
  case (1 ws s)
  show ?case
  proof (cases "leading ws s")
    case None
    then show ?thesis by (simp add: strip_left_id)
  next
    case (Some w)
    then obtain p where "drop (length w) s = p @ strip_left ws (drop (length w) s)" using "1" by blast
    then have "s = (take (length w) s @ p) @ strip_left ws (drop (length w) s)"
      by (metis append.assoc append_take_drop_id)
    moreover have "strip_left ws s = strip_left ws (drop (length w) s)"
      using Some by (subst strip_left.simps) simp
    ultimately show ?thesis by metis
  qed
qed

text \<open>What \<open>strip\<close> returns starts and ends with no white space: stripping again changes nothing.\<close>

lemma py_strip_idem: "py_strip (py_strip s) = py_strip s"
proof -
  define t where "t = strip_left py_whitespace s"
  define u where "u = strip_left (map rev py_whitespace) (rev t)"
  have s: "py_strip s = rev u" by (simp add: py_strip_def t_def u_def)
  obtain p where "rev t = p @ u" unfolding u_def using strip_left_suffix by blast
  then have "t = rev u @ rev p" by (metis rev_append rev_rev_ident)
  moreover have "leading py_whitespace t = None" unfolding t_def by (rule strip_left_done)
  ultimately have "leading py_whitespace (rev u) = None" using leading_append by metis
  moreover have "leading (map rev py_whitespace) u = None" unfolding u_def by (rule strip_left_done)
  ultimately have "py_strip (rev u) = rev u" by (simp add: py_strip_def strip_left_id)
  with s show ?thesis by simp
qed

text \<open>\<open>str.lower\<close> on the ASCII letters: the program lowers recurrence frequencies only.\<close>

definition char_lower :: "char \<Rightarrow> char" where
  "char_lower c =
     (case map_of (zip ''ABCDEFGHIJKLMNOPQRSTUVWXYZ'' ''abcdefghijklmnopqrstuvwxyz'') c of
        None \<Rightarrow> c | Some l \<Rightarrow> l)"

definition py_lower :: "string \<Rightarrow> string" where
  "py_lower s = map char_lower s"

text \<open>\<open>s.replace(old, new)\<close> for a non-empty \<open>old\<close>: left to right, not overlapping.\<close>

function py_replace :: "string \<Rightarrow> string \<Rightarrow> string \<Rightarrow> string" where
  "py_replace old new s =
     (if old = [] then s
      else case s of
        [] \<Rightarrow> []
      | c # cs \<Rightarrow>
          if take (length old) s = old then new @ py_replace old new (drop (length old) s)
          else c # py_replace old new cs)"
  by pat_completeness auto
termination
  by (relation "measure (\<lambda>(old, new, s). length s)") auto

declare py_replace.simps [simp del]

section \<open>Printing\<close>

text \<open>The two characters of the messages that are not ASCII.\<close>

definition em_dash :: string where
  "em_dash = [CHR 0xE2, CHR 0x80, CHR 0x94]"

definition right_arrow :: string where
  "right_arrow = [CHR 0xE2, CHR 0x86, CHR 0x92]"

text \<open>\<open>str\<close> of an integer: its decimal digits, after a minus sign if it is negative.\<close>

definition digit :: "int \<Rightarrow> char" where
  "digit n = ''0123456789abcdef'' ! nat n"

function show_pos :: "int \<Rightarrow> string" where
  "show_pos n = (if n < 10 then [digit n] else show_pos (n div 10) @ [digit (n mod 10)])"
  by pat_completeness auto
termination
  by (relation "measure nat") auto

declare show_pos.simps [simp del]

definition show_int :: "int \<Rightarrow> string" where
  "show_int i = (if i < 0 then ''-'' @ show_pos (- i) else show_pos i)"

subsection \<open>Reading digits back\<close>

definition is_digit :: "char \<Rightarrow> bool" where
  "is_digit c \<longleftrightarrow> c \<in> set ''0123456789''"

lemma is_digit_separators [simp]:
  "\<not> is_digit CHR ''-''" "\<not> is_digit CHR ''_''" "\<not> is_digit CHR '':''" "\<not> is_digit CHR ''T''"
  by (simp_all add: is_digit_def)

definition digit_value :: "char \<Rightarrow> int" where
  "digit_value c = (case map_of (zip ''0123456789'' [0..9]) c of None \<Rightarrow> 0 | Some v \<Rightarrow> v)"

definition read_dec :: "string \<Rightarrow> int" where
  "read_dec s = foldl (\<lambda>a c. a * 10 + digit_value c) 0 s"

lemma digit_cases: "0 \<le> n \<Longrightarrow> n < 10 \<Longrightarrow> n \<in> {0, 1, 2, 3, 4, 5, 6, 7, 8, 9::int}"
  unfolding insert_iff empty_iff by presburger

lemma digit_table:
  "\<forall>n \<in> {0, 1, 2, 3, 4, 5, 6, 7, 8, 9::int}. digit_value (digit n) = n \<and> is_digit (digit n)"
  by code_simp

lemma digit_value_digit: "0 \<le> n \<Longrightarrow> n < 10 \<Longrightarrow> digit_value (digit n) = n"
  and is_digit_digit: "0 \<le> n \<Longrightarrow> n < 10 \<Longrightarrow> is_digit (digit n)"
  using digit_table digit_cases by blast+

lemma read_dec_snoc: "read_dec (s @ [c]) = read_dec s * 10 + digit_value c"
  by (simp add: read_dec_def)

lemma read_dec_show_pos: "0 \<le> n \<Longrightarrow> read_dec (show_pos n) = n"
proof (induction n rule: show_pos.induct)
  case (1 n)
  show ?case
  proof (cases "n < 10")
    case True
    with "1.prems" show ?thesis
      by (subst show_pos.simps) (simp add: read_dec_def digit_value_digit)
  next
    case False
    then have "read_dec (show_pos (n div 10)) = n div 10" by (intro "1.IH") auto
    moreover have "show_pos n = show_pos (n div 10) @ [digit (n mod 10)]"
      using False by (subst show_pos.simps) simp
    ultimately show ?thesis by (simp add: read_dec_snoc digit_value_digit)
  qed
qed

lemma show_pos_digits: "0 \<le> n \<Longrightarrow> \<forall>c \<in> set (show_pos n). is_digit c"
proof (induction n rule: show_pos.induct)
  case (1 n)
  show ?case
  proof (cases "n < 10")
    case True
    with "1.prems" show ?thesis by (subst show_pos.simps) (simp add: is_digit_digit)
  next
    case False
    then have "\<forall>c \<in> set (show_pos (n div 10)). is_digit c" by (intro "1.IH") auto
    with False show ?thesis by (subst show_pos.simps) (simp add: is_digit_digit)
  qed
qed

lemma length_show_pos: "0 \<le> n \<Longrightarrow> n < 10 ^ Suc k \<Longrightarrow> length (show_pos n) \<le> Suc k"
proof (induction k arbitrary: n)
  case 0
  then show ?case by (subst show_pos.simps) simp
next
  case (Suc k)
  show ?case
  proof (cases "n < 10")
    case True
    then show ?thesis by (subst show_pos.simps) simp
  next
    case False
    have "n div 10 < 10 ^ Suc k" using Suc.prems(2) by (simp add: div_less_iff_less_mult)
    moreover have "0 \<le> n div 10" using False by simp
    ultimately have "length (show_pos (n div 10)) \<le> Suc k" by (intro Suc.IH)
    then show ?thesis using False by (subst show_pos.simps) simp
  qed
qed

lemma show_pos_not_Nil: "show_pos n \<noteq> []"
  by (subst show_pos.simps) simp

lemma show_int_chars: "c \<in> set (show_int i) \<Longrightarrow> c = CHR ''-'' \<or> is_digit c"
  using show_pos_digits [of i] show_pos_digits [of "- i"]
  by (auto simp: show_int_def split: if_splits)

lemma show_int_inj: "show_int i = show_int j \<longleftrightarrow> i = j"
proof
  have minus: "hd (show_pos n) \<noteq> CHR ''-''" if "0 \<le> n" for n
    using show_pos_digits [OF that] show_pos_not_Nil hd_in_set is_digit_separators(1) by metis
  assume eq: "show_int i = show_int j"
  show "i = j"
  proof (cases "i < 0"; cases "j < 0")
    assume "i < 0" "j < 0"
    with eq have "read_dec (show_pos (- i)) = read_dec (show_pos (- j))" by (simp add: show_int_def)
    with \<open>i < 0\<close> \<open>j < 0\<close> show ?thesis by (simp add: read_dec_show_pos)
  next
    assume "i < 0" "\<not> j < 0"
    with eq have "hd (show_pos j) = CHR ''-''" by (metis append_Cons list.sel(1) show_int_def)
    with minus \<open>\<not> j < 0\<close> show ?thesis by simp
  next
    assume "\<not> i < 0" "j < 0"
    with eq have "hd (show_pos i) = CHR ''-''" by (metis append_Cons list.sel(1) show_int_def)
    with minus \<open>\<not> i < 0\<close> show ?thesis by simp
  next
    assume "\<not> i < 0" "\<not> j < 0"
    with eq have "read_dec (show_pos i) = read_dec (show_pos j)" by (simp add: show_int_def)
    with \<open>\<not> i < 0\<close> \<open>\<not> j < 0\<close> show ?thesis by (simp add: read_dec_show_pos)
  qed
qed simp

subsection \<open>repr\<close>

text \<open>\<open>repr\<close> of a string: the quote it picks, and the escapes.\<close>

definition py_printable :: "int \<Rightarrow> bool" where
  "py_printable n \<longleftrightarrow> (32 \<le> n \<and> n \<le> 126) \<or> 128 \<le> n"

definition repr_char :: "char \<Rightarrow> char \<Rightarrow> string" where
  "repr_char q c =
     (if c = q \<or> c = CHR 0x5C then [CHR 0x5C, c]
      else if c = CHR 0x09 then [CHR 0x5C, CHR ''t'']
      else if c = CHR 0x0A then [CHR 0x5C, CHR ''n'']
      else if c = CHR 0x0D then [CHR 0x5C, CHR ''r'']
      else if py_printable (of_char c) then [c]
      else [CHR 0x5C, CHR ''x'', digit (of_char c div 16), digit (of_char c mod 16)])"

definition py_repr :: "string \<Rightarrow> string" where
  "py_repr s =
     (let q = (if CHR 0x27 \<in> set s \<and> CHR 0x22 \<notin> set s then CHR 0x22 else CHR 0x27)
      in [q] @ concat (map (repr_char q) s) @ [q])"

end
