(* ===== verification/Errors.thy ===== *)
theory Errors
  imports PyData
begin

text \<open>
  The exceptions that travel through the program, nested the way the classes are:
  \<open>HandlerError\<close> and \<open>MetronomeError\<close> are the two base classes of the sidecar,
  \<open>ValueError\<close> the built-in one that \<open>MapperError\<close> extends. \<open>exn_str\<close> is
  \<open>str(exc)\<close>, \<open>exn_type_name\<close> is \<open>type(exc).__name__\<close>.
\<close>

datatype handler_error =
    RetryableHandlerError string
  | PermanentHandlerError string

datatype metronome_error =
    TransientMetronomeError string
  | PermanentMetronomeError string "int option"
  | ContractNotFoundError string

datatype value_error =
    PlainValueError string
  | MapperError string
  | JSONDecodeError string
  | UnicodeDecodeError string

datatype exn =
    HandlerError handler_error
  | MetronomeError metronome_error
  | ValueError value_error
  | UnknownTierError string
  | InvalidWebhookSignature string
  | SignatureVerificationError string
  | HTTPException int string
  | OverflowError string
  | OSError string
  | IntegrityError string
  | PendingRollbackError
  | OtherException string string

abbreviation permanent :: "string \<Rightarrow> exn" where
  "permanent m \<equiv> HandlerError (PermanentHandlerError m)"

abbreviation retryable :: "string \<Rightarrow> exn" where
  "retryable m \<equiv> HandlerError (RetryableHandlerError m)"

definition unknown_tier_message :: "string \<Rightarrow> string" where
  "unknown_tier_message stripe_price_id =
     ''Stripe price ID '' @ py_repr stripe_price_id @ '' is not configured in '' @
     ''sidecar.config.tiers.TIERS. Add an entry there and redeploy.''"

definition pending_rollback_message :: string where
  "pending_rollback_message =
     ''This Session's transaction has been rolled back due to a previous exception during flush.''"

fun exn_str :: "exn \<Rightarrow> string" where
  "exn_str (HandlerError (RetryableHandlerError m)) = m"
| "exn_str (HandlerError (PermanentHandlerError m)) = m"
| "exn_str (MetronomeError (TransientMetronomeError m)) = m"
| "exn_str (MetronomeError (PermanentMetronomeError m _)) = m"
| "exn_str (MetronomeError (ContractNotFoundError m)) = m"
| "exn_str (ValueError (PlainValueError m)) = m"
| "exn_str (ValueError (MapperError m)) = m"
| "exn_str (ValueError (JSONDecodeError m)) = m"
| "exn_str (ValueError (UnicodeDecodeError m)) = m"
| "exn_str (UnknownTierError p) = unknown_tier_message p"
| "exn_str (InvalidWebhookSignature m) = m"
| "exn_str (SignatureVerificationError m) = m"
| "exn_str (HTTPException c m) = show_int c @ '': '' @ m"
| "exn_str (OverflowError m) = m"
| "exn_str (OSError m) = m"
| "exn_str (IntegrityError m) = m"
| "exn_str PendingRollbackError = pending_rollback_message"
| "exn_str (OtherException t m) = m"

fun exn_type_name :: "exn \<Rightarrow> string" where
  "exn_type_name (HandlerError (RetryableHandlerError _)) = ''RetryableHandlerError''"
| "exn_type_name (HandlerError (PermanentHandlerError _)) = ''PermanentHandlerError''"
| "exn_type_name (MetronomeError (TransientMetronomeError _)) = ''TransientMetronomeError''"
| "exn_type_name (MetronomeError (PermanentMetronomeError _ _)) = ''PermanentMetronomeError''"
| "exn_type_name (MetronomeError (ContractNotFoundError _)) = ''ContractNotFoundError''"
| "exn_type_name (ValueError (PlainValueError _)) = ''ValueError''"
| "exn_type_name (ValueError (MapperError _)) = ''MapperError''"
| "exn_type_name (ValueError (JSONDecodeError _)) = ''JSONDecodeError''"
| "exn_type_name (ValueError (UnicodeDecodeError _)) = ''UnicodeDecodeError''"
| "exn_type_name (UnknownTierError _) = ''UnknownTierError''"
| "exn_type_name (InvalidWebhookSignature _) = ''InvalidWebhookSignature''"
| "exn_type_name (SignatureVerificationError _) = ''SignatureVerificationError''"
| "exn_type_name (HTTPException _ _) = ''HTTPException''"
| "exn_type_name (OverflowError _) = ''OverflowError''"
| "exn_type_name (OSError _) = ''OSError''"
| "exn_type_name (IntegrityError _) = ''IntegrityError''"
| "exn_type_name PendingRollbackError = ''PendingRollbackError''"
| "exn_type_name (OtherException t _) = t"

end
