(* ===== verification/PyTime.thy ===== *)
theory PyTime
  imports Errors Complex_Main
begin

text \<open>
  The part of Python's \<open>datetime\<close> the program uses, on UTC times counted in
  microseconds since 1970-01-01: the proleptic Gregorian calendar as the
  standard library computes it, \<open>datetime.fromtimestamp(ts, tz=UTC)\<close> with the
  three ways it can fail, \<open>isoformat\<close>, and adding a \<open>timedelta\<close> of seconds. The
  calendar lemmas show that the date is exact and that \<open>isoformat\<close> loses nothing.
\<close>

section \<open>The calendar\<close>

definition is_leap :: "int \<Rightarrow> bool" where
  "is_leap y \<longleftrightarrow> y mod 4 = 0 \<and> (y mod 100 \<noteq> 0 \<or> y mod 400 = 0)"

definition days_before_year :: "int \<Rightarrow> int" where
  "days_before_year year = (let y = year - 1 in y * 365 + y div 4 - y div 100 + y div 400)"

definition days_in_month :: "bool \<Rightarrow> int \<Rightarrow> int" where
  "days_in_month leap m =
     (if m = 2 \<and> leap then 29 else [31, 28, 31, 30, 31, 30, 31, 31, 30, 31, 30, 31] ! nat (m - 1))"

definition days_before_month :: "bool \<Rightarrow> int \<Rightarrow> int" where
  "days_before_month leap m =
     [0, 31, 59, 90, 120, 151, 181, 212, 243, 273, 304, 334] ! nat (m - 1) +
     (if 2 < m \<and> leap then 1 else 0)"

definition ymd2ord :: "int \<times> int \<times> int \<Rightarrow> int" where
  "ymd2ord = (\<lambda>(y, m, d). days_before_year y + days_before_month (is_leap y) m + d)"

text \<open>The month and day of the day number \<open>n\<close> (from 0) of a year.\<close>

definition month_day :: "bool \<Rightarrow> int \<Rightarrow> int \<times> int" where
  "month_day leap n =
     (let month = (n + 50) div 32; preceding = days_before_month leap month
      in if n < preceding
         then (month - 1, n - (preceding - days_in_month leap (month - 1)) + 1)
         else (month, n - preceding + 1))"

definition ord2ymd :: "int \<Rightarrow> int \<times> int \<times> int" where
  "ord2ymd ord =
     (let n = ord - 1; n400 = n div 146097; n = n mod 146097;
          n100 = n div 36524; n = n mod 36524;
          n4 = n div 1461; n = n mod 1461;
          n1 = n div 365; n = n mod 365;
          year = n400 * 400 + 1 + n100 * 100 + n4 * 4 + n1;
          leap = (n1 = 3 \<and> (n4 \<noteq> 24 \<or> n100 = 3))
      in if n1 = 4 \<or> n100 = 4 then (year - 1, 12, 31)
         else (year, month_day leap n))"

definition year_of :: "int \<Rightarrow> int" where
  "year_of ord = fst (ord2ymd ord)"

section \<open>Times\<close>

type_synonym datetime = int

definition epoch_ordinal :: int where
  "epoch_ordinal = 719163"

definition seconds_per_day :: int where
  "seconds_per_day = 86400"

definition ordinal_of_second :: "int \<Rightarrow> int" where
  "ordinal_of_second ts = epoch_ordinal + ts div seconds_per_day"

text \<open>
  \<open>datetime.fromtimestamp(ts, tz=UTC)\<close>: a second count outside 64 bits does not fit
  \<open>time_t\<close>, a year outside 32 bits makes \<open>gmtime\<close> fail, and a year outside 1 to 9999
  is no \<open>datetime\<close>. Only the last of the three is a \<open>ValueError\<close>.
\<close>

definition fromtimestamp_utc :: "int \<Rightarrow> exn + datetime" where
  "fromtimestamp_utc ts =
     (if ts < - (2 ^ 63) \<or> 2 ^ 63 \<le> ts
      then Inl (OverflowError ''timestamp out of range for platform time_t'')
      else let y = year_of (ordinal_of_second ts) in
        if y - 1900 < - (2 ^ 31) \<or> 2 ^ 31 \<le> y - 1900
        then Inl (OSError ''[Errno 75] Value too large for defined data type'')
        else if y < 1 \<or> 9999 < y
        then Inl (ValueError (PlainValueError (''year '' @ show_int y @ '' is out of range'')))
        else Inr (ts * 1000000))"

definition pad :: "nat \<Rightarrow> string \<Rightarrow> string" where
  "pad w s = replicate (w - length s) CHR ''0'' @ s"

definition isoformat :: "datetime \<Rightarrow> string" where
  "isoformat t =
     (let us = t mod 1000000; ts = t div 1000000; sod = ts mod seconds_per_day;
          (y, m, d) = ord2ymd (ordinal_of_second ts)
      in pad 4 (show_int y) @ ''-'' @ pad 2 (show_int m) @ ''-'' @ pad 2 (show_int d) @ ''T'' @
         pad 2 (show_int (sod div 3600)) @ '':'' @ pad 2 (show_int (sod mod 3600 div 60)) @ '':'' @
         pad 2 (show_int (sod mod 60)) @
         (if us = 0 then '''' else ''.'' @ pad 6 (show_int us)) @ ''+00:00'')"

text \<open>
  \<open>t + timedelta(seconds=s)\<close>: the seconds are rounded to microseconds, ties to even;
  a difference of more than 999999999 days and a date past the year 9999 overflow.
\<close>

definition round_half_even :: "rat \<Rightarrow> int" where
  "round_half_even x =
     (let f = \<lfloor>x\<rfloor>; r = x - of_int f in
      if r < 1 / 2 then f else if 1 / 2 < r then f + 1 else if even f then f else f + 1)"

definition max_datetime :: datetime where
  "max_datetime = 253402300799999999"

definition min_datetime :: datetime where
  "min_datetime = - 62135596800000000"

definition add_seconds :: "datetime \<Rightarrow> rat \<Rightarrow> exn + datetime" where
  "add_seconds t s =
     (let us = round_half_even (s * 1000000) in
      if us div 86400000000 < - 999999999 \<or> 999999999 < us div 86400000000
      then Inl (OverflowError ''days out of range for timedelta'')
      else if t + us < min_datetime \<or> max_datetime < t + us
      then Inl (OverflowError ''date value out of range'')
      else Inr (t + us))"

section \<open>The calendar is exact\<close>

lemma month_day_table:
  "\<forall>n \<in> set [0..365]. \<forall>leap \<in> set [False, True].
     n < 365 \<or> leap \<longrightarrow>
     (case month_day leap n of (m, d) \<Rightarrow>
        1 \<le> m \<and> m \<le> 12 \<and> 1 \<le> d \<and> d \<le> days_in_month leap m \<and> days_before_month leap m + d = n + 1)"
  by code_simp

text \<open>A year in mixed radix 400, 100, 4, 1: the leap days before it are counted by the digits.\<close>

definition year_digits :: "int \<Rightarrow> int \<Rightarrow> int \<Rightarrow> bool" where
  "year_digits b c d \<longleftrightarrow> 0 \<le> b \<and> b \<le> 3 \<and> 0 \<le> c \<and> c \<le> 24 \<and> 0 \<le> d \<and> d \<le> 3"

lemma days_before_year_digits:
  assumes "year_digits b c d"
  shows "days_before_year (a * 400 + 1 + b * 100 + c * 4 + d) = 146097 * a + 36524 * b + 1461 * c + 365 * d"
proof -
  let ?p = "a * 400 + b * 100 + c * 4 + d"
  have "?p div 4 = a * 100 + b * 25 + c"
    using assms by (intro int_div_pos_eq [where r = d]) (auto simp: year_digits_def)
  moreover have "?p div 100 = a * 4 + b"
    using assms by (intro int_div_pos_eq [where r = "c * 4 + d"]) (auto simp: year_digits_def)
  moreover have "?p div 400 = a"
    using assms by (intro int_div_pos_eq [where r = "b * 100 + c * 4 + d"]) (auto simp: year_digits_def)
  ultimately show ?thesis by (simp add: days_before_year_def Let_def algebra_simps)
qed

lemma mod_last: "0 \<le> k \<Longrightarrow> k < m \<Longrightarrow> (k + 1) mod m = 0 \<longleftrightarrow> k + 1 = (m::int)"
  by (cases "k + 1 = m") (auto simp: mod_pos_pos_trivial)

lemma is_leap_digits:
  assumes "year_digits b c d"
  shows "is_leap (a * 400 + 1 + b * 100 + c * 4 + d) \<longleftrightarrow> d = 3 \<and> (c \<noteq> 24 \<or> b = 3)"
proof -
  let ?y = "a * 400 + 1 + b * 100 + c * 4 + d" and ?k = "c * 4 + d" and ?l = "b * 100 + c * 4 + d"
  have k: "0 \<le> ?k" "?k \<le> 99" and l: "0 \<le> ?l" "?l \<le> 399" and d: "0 \<le> d" "d \<le> 3"
    using assms by (auto simp: year_digits_def)
  have "?y = 4 * (a * 100 + b * 25 + c) + (d + 1)" by simp
  then have "?y mod 4 = (d + 1) mod 4" by (simp only: mod_mult_self4)
  moreover have "(d + 1) mod 4 = 0 \<longleftrightarrow> d + 1 = 4" using d by (intro mod_last) auto
  ultimately have four: "?y mod 4 = 0 \<longleftrightarrow> d = 3" by auto
  have "?y = 100 * (a * 4 + b) + (?k + 1)" by simp
  then have "?y mod 100 = (?k + 1) mod 100" by (simp only: mod_mult_self4)
  moreover have "(?k + 1) mod 100 = 0 \<longleftrightarrow> ?k + 1 = 100" using k by (intro mod_last) auto
  ultimately have hundred: "?y mod 100 = 0 \<longleftrightarrow> ?k = 99" by (simp only:) auto
  have "?y = 400 * a + (?l + 1)" by simp
  then have "?y mod 400 = (?l + 1) mod 400" by (simp only: mod_mult_self4)
  moreover have "(?l + 1) mod 400 = 0 \<longleftrightarrow> ?l + 1 = 400" using l by (intro mod_last) auto
  ultimately have all: "?y mod 400 = 0 \<longleftrightarrow> ?l = 399" by (simp only:) auto
  have "?k = 99 \<longleftrightarrow> c = 24 \<and> d = 3" "?l = 399 \<longleftrightarrow> b = 3 \<and> c = 24 \<and> d = 3"
    using assms unfolding year_digits_def by arith+
  with four hundred all show ?thesis unfolding is_leap_def by auto
qed

lemma month_day_range:
  assumes "0 \<le> n" "n < 365"
  shows "case month_day leap n of (m, d) \<Rightarrow>
    1 \<le> m \<and> m \<le> 12 \<and> 1 \<le> d \<and> d \<le> days_in_month leap m \<and> days_before_month leap m + d = n + 1"
proof -
  have "n \<in> set [0..365]" "leap \<in> set [False, True]" using assms by auto
  then have "n < 365 \<or> leap \<longrightarrow> (case month_day leap n of (m, d) \<Rightarrow>
    1 \<le> m \<and> m \<le> 12 \<and> 1 \<le> d \<and> d \<le> days_in_month leap m \<and> days_before_month leap m + d = n + 1)"
    by (rule bspec [OF bspec [OF month_day_table]])
  with assms(2) show ?thesis by (simp only: simp_thms)
qed

text \<open>A triple that names a day of the calendar.\<close>

definition valid_date :: "int \<times> int \<times> int \<Rightarrow> bool" where
  "valid_date = (\<lambda>(y, m, d). 1 \<le> m \<and> m \<le> 12 \<and> 1 \<le> d \<and> d \<le> days_in_month (is_leap y) m)"

lemma ord2ymd_cases:
  obtains (regular) a b c d n where
      "ord = 146097 * a + 36524 * b + 1461 * c + 365 * d + n + 1" "year_digits b c d" "0 \<le> n" "n < 365"
      "ord2ymd ord = (a * 400 + 1 + b * 100 + c * 4 + d, month_day (d = 3 \<and> (c \<noteq> 24 \<or> b = 3)) n)"
  | (leap_end) a b c where
      "ord = 146097 * a + 36524 * b + 1461 * c + 1461" "year_digits b c 3" "c \<noteq> 24 \<or> b = 3"
      "ord2ymd ord = (a * 400 + 1 + b * 100 + c * 4 + 3, 12, 31)"
proof -
  define n where "n = ord - 1"
  define a r1 where "a = n div 146097" and "r1 = n mod 146097"
  define b r2 where "b = r1 div 36524" and "r2 = r1 mod 36524"
  define c r3 where "c = r2 div 1461" and "r3 = r2 mod 1461"
  define d r4 where "d = r3 div 365" and "r4 = r3 mod 365"
  have n: "n = 146097 * a + r1" "0 \<le> r1" "r1 < 146097" by (auto simp: a_def r1_def)
  have r1: "r1 = 36524 * b + r2" "0 \<le> r2" "r2 < 36524" by (auto simp: b_def r2_def)
  have r2: "r2 = 1461 * c + r3" "0 \<le> r3" "r3 < 1461" by (auto simp: c_def r3_def)
  have r3: "r3 = 365 * d + r4" "0 \<le> r4" "r4 < 365" by (auto simp: d_def r4_def)
  have b: "0 \<le> b" "b \<le> 4" using n r1 by linarith+
  have c: "0 \<le> c" "c \<le> 24" using r1 r2 by linarith+
  have d: "0 \<le> d" "d \<le> 4" using r2 r3 by linarith+
  have eq: "ord2ymd ord =
     (let year = a * 400 + 1 + b * 100 + c * 4 + d; leap = (d = 3 \<and> (c \<noteq> 24 \<or> b = 3))
      in if d = 4 \<or> b = 4 then (year - 1, 12, 31) else (year, month_day leap r4))"
    unfolding ord2ymd_def Let_def a_def b_def c_def d_def r1_def r2_def r3_def r4_def n_def by simp
  consider "b = 4" | "b \<noteq> 4" "d = 4" | "b \<noteq> 4" "d \<noteq> 4" by blast
  then show thesis
  proof cases
    case 1
    with n r1 have z: "r2 = 0" by linarith
    with r2 c have "c = 0" "r3 = 0" by linarith+
    with r3 d have "d = 0" "r4 = 0" by linarith+
    with 1 z n r1 have o: "ord = 146097 * a + 36524 * 3 + 1461 * 24 + 1461"
      unfolding n_def by linarith
    have "ord2ymd ord = (a * 400 + 1 + 3 * 100 + 24 * 4 + 3, 12, 31)"
      using eq 1 \<open>c = 0\<close> \<open>d = 0\<close> by simp
    with o show thesis by (intro leap_end [of a 3 24]) (auto simp: year_digits_def)
  next
    case 2
    have "r3 = 1460" "r4 = 0" using 2 r2 r3 by linarith+
    have "c \<noteq> 24" using 2 r1 r2 r3 by auto
    have "ord = 146097 * a + 36524 * b + 1461 * c + 1461"
      using n(1) r1(1) r2(1) \<open>r3 = 1460\<close> unfolding n_def by linarith
    moreover have "ord2ymd ord = (a * 400 + 1 + b * 100 + c * 4 + 3, 12, 31)"
      using eq 2 by simp
    ultimately show thesis
      using b c \<open>b \<noteq> 4\<close> \<open>c \<noteq> 24\<close> by (intro leap_end [of a b c]) (auto simp: year_digits_def)
  next
    case 3
    have "ord = 146097 * a + 36524 * b + 1461 * c + 365 * d + r4 + 1"
      using n(1) r1(1) r2(1) r3(1) unfolding n_def by linarith
    with 3 b c d r3 eq show thesis
      by (intro regular [of a b c d r4]) (auto simp: year_digits_def Let_def)
  qed
qed

lemma ord2ymd_exact: "ymd2ord (ord2ymd ord) = ord \<and> valid_date (ord2ymd ord)"
proof (cases rule: ord2ymd_cases [of ord])
  case (regular a b c d n)
  then show ?thesis
    using month_day_range [of n "d = 3 \<and> (c \<noteq> 24 \<or> b = 3)"]
    by (auto simp: ymd2ord_def valid_date_def days_before_year_digits is_leap_digits split: prod.splits)
next
  case (leap_end a b c)
  then show ?thesis
    using days_before_year_digits [OF leap_end(2), of a] is_leap_digits [OF leap_end(2), of a]
    by (auto simp: ymd2ord_def valid_date_def days_before_month_def days_in_month_def)
qed

section \<open>Reading an ISO time back\<close>

definition parse_iso :: "string \<Rightarrow> datetime" where
  "parse_iso s =
     (let y = read_dec (take 4 s); m = read_dec (take 2 (drop 5 s)); d = read_dec (take 2 (drop 8 s));
          h = read_dec (take 2 (drop 11 s)); mi = read_dec (take 2 (drop 14 s));
          sec = read_dec (take 2 (drop 17 s));
          us = (if s ! 19 = CHR ''.'' then read_dec (take 6 (drop 20 s)) else 0)
      in ((ymd2ord (y, m, d) - epoch_ordinal) * seconds_per_day + h * 3600 + mi * 60 + sec) * 1000000 + us)"

lemma read_dec_zeros: "read_dec (replicate k CHR ''0'' @ s) = read_dec s"
proof -
  have "digit_value CHR ''0'' = 0" by code_simp
  then show ?thesis by (induction k) (simp_all add: read_dec_def)
qed

lemma read_dec_pad: "0 \<le> n \<Longrightarrow> read_dec (pad w (show_int n)) = n"
  by (simp add: pad_def read_dec_zeros show_int_def read_dec_show_pos)

lemma length_pad:
  assumes "0 \<le> n" and "n < 10 ^ w" and "0 < w"
  shows "length (pad w (show_int n)) = w"
proof -
  obtain k where "w = Suc k" using assms(3) gr0_conv_Suc by auto
  then have "length (show_int n) \<le> w"
    using length_show_pos [of n k] assms by (simp add: show_int_def)
  then show ?thesis by (simp add: pad_def)
qed

lemma length_pad2: "0 \<le> n \<Longrightarrow> n < 100 \<Longrightarrow> length (pad 2 (show_int n)) = 2"
  and length_pad4: "0 \<le> n \<Longrightarrow> n < 10000 \<Longrightarrow> length (pad 4 (show_int n)) = 4"
  and length_pad6: "0 \<le> n \<Longrightarrow> n < 1000000 \<Longrightarrow> length (pad 6 (show_int n)) = 6"
  by (simp_all add: length_pad)

lemma parse_iso_fields:
  assumes "length Y = 4" "length M = 2" "length D = 2" "length H = 2" "length I = 2" "length S = 2" "length U = 6"
  shows
    "parse_iso (Y @ ''-'' @ M @ ''-'' @ D @ ''T'' @ H @ '':'' @ I @ '':'' @ S @ '''' @ ''+00:00'') =
       ((ymd2ord (read_dec Y, read_dec M, read_dec D) - epoch_ordinal) * seconds_per_day +
         read_dec H * 3600 + read_dec I * 60 + read_dec S) * 1000000"
    "parse_iso (Y @ ''-'' @ M @ ''-'' @ D @ ''T'' @ H @ '':'' @ I @ '':'' @ S @ (''.'' @ U) @ ''+00:00'') =
       ((ymd2ord (read_dec Y, read_dec M, read_dec D) - epoch_ordinal) * seconds_per_day +
         read_dec H * 3600 + read_dec I * 60 + read_dec S) * 1000000 + read_dec U"
  using assms by (simp_all add: parse_iso_def Let_def nth_append)

lemma valid_date_bounds: "valid_date (y, m, d) \<Longrightarrow> 1 \<le> m \<and> m < 100 \<and> 1 \<le> d \<and> d < 100"
proof -
  assume v: "valid_date (y, m, d)"
  then have "m \<in> {1, 2, 3, 4, 5, 6, 7, 8, 9, 10, 11, 12}"
    unfolding valid_date_def insert_iff empty_iff by auto presburger
  then have "days_in_month (is_leap y) m \<le> 31" by (auto simp: days_in_month_def)
  with v show ?thesis by (auto simp: valid_date_def)
qed

lemma clock_fields: "0 \<le> s \<Longrightarrow> s div 3600 * 3600 + s mod 3600 div 60 * 60 + s mod 60 = (s::int)"
proof -
  have "s mod 60 = s mod 3600 mod 60" by (simp add: mod_mod_cancel)
  then have "s mod 3600 div 60 * 60 + s mod 60 = s mod 3600" by simp
  then show ?thesis by (simp add: add.assoc)
qed

text \<open>For the years a \<open>datetime\<close> has, \<open>isoformat\<close> is read back exactly.\<close>

lemma parse_isoformat:
  assumes "year_of (ordinal_of_second (t div 1000000)) \<in> {1..9999}"
  shows "parse_iso (isoformat t) = t"
proof -
  define us ts where "us = t mod 1000000" and "ts = t div 1000000"
  define sod where "sod = ts mod seconds_per_day"
  obtain y m d where ymd: "ord2ymd (ordinal_of_second ts) = (y, m, d)" by (cases "ord2ymd (ordinal_of_second ts)")
  have y: "0 \<le> y" "1 \<le> y" "y < 10000" using assms ymd by (auto simp: year_of_def ts_def)
  have ord: "ymd2ord (y, m, d) = ordinal_of_second ts" and v: "valid_date (y, m, d)"
    using ord2ymd_exact [of "ordinal_of_second ts"] ymd by auto
  have md: "0 \<le> m" "m < 100" "0 \<le> d" "d < 100" using valid_date_bounds [OF v] by auto
  have us: "0 \<le> us" "us < 1000000" by (auto simp: us_def)
  have sod: "0 \<le> sod" "sod < 86400" by (auto simp: sod_def seconds_per_day_def)
  let ?h = "sod div 3600" and ?i = "sod mod 3600 div 60" and ?s = "sod mod 60"
  have h: "0 \<le> ?h" "?h < 100" "0 \<le> ?i" "?i < 100" "0 \<le> ?s" "?s < 100"
    using sod pos_mod_bound [of 3600 sod] pos_mod_bound [of 60 sod]
    by (simp_all add: div_less_iff_less_mult)
  have ts: "ts = (ordinal_of_second ts - epoch_ordinal) * seconds_per_day + sod"
    by (simp add: ordinal_of_second_def sod_def)
  note fields = parse_iso_fields [of "pad 4 (show_int y)" "pad 2 (show_int m)" "pad 2 (show_int d)"
      "pad 2 (show_int ?h)" "pad 2 (show_int ?i)" "pad 2 (show_int ?s)" "pad 6 (show_int us)"]
  note len = length_pad4 [OF y(1,3)] length_pad2 [OF md(1,2)] length_pad2 [OF md(3,4)]
    length_pad2 [OF h(1,2)] length_pad2 [OF h(3,4)] length_pad2 [OF h(5,6)] length_pad6 [OF us]
  note rd = read_dec_pad [OF y(1), of 4] read_dec_pad [OF md(1), of 2] read_dec_pad [OF md(3), of 2]
    read_dec_pad [OF h(1), of 2] read_dec_pad [OF h(3), of 2] read_dec_pad [OF h(5), of 2]
    read_dec_pad [OF us(1), of 6]
  have iso: "isoformat t = pad 4 (show_int y) @ ''-'' @ pad 2 (show_int m) @ ''-'' @ pad 2 (show_int d) @ ''T'' @
      pad 2 (show_int ?h) @ '':'' @ pad 2 (show_int ?i) @ '':'' @ pad 2 (show_int ?s) @
      (if us = 0 then '''' else ''.'' @ pad 6 (show_int us)) @ ''+00:00''"
    using ymd by (simp add: isoformat_def Let_def us_def ts_def sod_def)
  have "parse_iso (isoformat t) =
      ((ordinal_of_second ts - epoch_ordinal) * seconds_per_day + ?h * 3600 + ?i * 60 + ?s) * 1000000 + us"
    using fields [OF len] unfolding iso rd ord
    by (cases "us = 0") (simp_all only: if_True if_False simp_thms add_0_right)
  also have "\<dots> = ts * 1000000 + us" using ts clock_fields [OF sod(1)] by simp
  finally show ?thesis by (simp add: ts_def us_def)
qed

end
