(* ===== verification/Database.thy ===== *)
theory Database
  imports PyTime
begin

text \<open>
  The three tables of \<open>models.py\<close> and the statements the program runs on them: the
  lookups by primary key, \<open>INSERT\<close> with the primary-key, unique and foreign-key
  constraints, \<open>INSERT ... ON CONFLICT DO NOTHING\<close>, and the updates of a row. A
  table is the list of its rows. The locales \<open>keyed_table\<close> and \<open>referencing_table\<close>
  state what the handlers and the receiver rely on; each is interpreted on the
  tables of the model.
\<close>

section \<open>Rows and tables\<close>

definition STATUS_PENDING :: string where "STATUS_PENDING = ''pending''"

definition STATUS_PROCESSING :: string where "STATUS_PROCESSING = ''processing''"

definition STATUS_PROCESSED :: string where "STATUS_PROCESSED = ''processed''"

definition STATUS_FAILED :: string where "STATUS_FAILED = ''failed''"

definition ALL_STATUSES :: "string set" where
  "ALL_STATUSES = {STATUS_PENDING, STATUS_PROCESSING, STATUS_PROCESSED, STATUS_FAILED}"

lemma status_distinct [simp]:
  "STATUS_PENDING \<noteq> STATUS_PROCESSED" "STATUS_PROCESSED \<noteq> STATUS_PENDING"
  "STATUS_PENDING \<noteq> STATUS_FAILED" "STATUS_FAILED \<noteq> STATUS_PENDING"
  "STATUS_PROCESSED \<noteq> STATUS_FAILED" "STATUS_FAILED \<noteq> STATUS_PROCESSED"
  by (simp_all add: STATUS_PENDING_def STATUS_PROCESSED_def STATUS_FAILED_def)

record webhook_event =
  stripe_event_id :: string
  event_type :: string
  payload :: pydict
  status :: string
  attempts :: int
  last_error :: "string option"
  received_at :: datetime
  next_attempt_at :: datetime
  processed_at :: "datetime option"

record customer_mapping =
  cm_stripe_customer_id :: string
  cm_metronome_customer_id :: string
  cm_created_at :: datetime
  cm_updated_at :: datetime

record subscription_mapping =
  sm_stripe_subscription_id :: string
  sm_stripe_customer_id :: string
  sm_metronome_contract_id :: string
  sm_current_tier_name :: string
  sm_current_stripe_price_id :: string
  sm_created_at :: datetime
  sm_updated_at :: datetime

record db =
  webhook_events :: "webhook_event list"
  customer_mappings :: "customer_mapping list"
  subscription_mappings :: "subscription_mapping list"

section \<open>Statements\<close>

definition event_row :: "string \<Rightarrow> db \<Rightarrow> webhook_event option" where
  "event_row k d = find (\<lambda>r. stripe_event_id r = k) (webhook_events d)"

definition customer_row :: "string \<Rightarrow> db \<Rightarrow> customer_mapping option" where
  "customer_row k d = find (\<lambda>r. cm_stripe_customer_id r = k) (customer_mappings d)"

definition subscription_row :: "string \<Rightarrow> db \<Rightarrow> subscription_mapping option" where
  "subscription_row k d = find (\<lambda>r. sm_stripe_subscription_id r = k) (subscription_mappings d)"

definition insert_customer_mapping :: "customer_mapping \<Rightarrow> db \<Rightarrow> exn + db" where
  "insert_customer_mapping r d =
     (if cm_stripe_customer_id r \<in> cm_stripe_customer_id ` set (customer_mappings d)
      then Inl (IntegrityError ''customer_mappings_pkey'')
      else if cm_metronome_customer_id r \<in> cm_metronome_customer_id ` set (customer_mappings d)
      then Inl (IntegrityError ''uq_customer_mappings_metronome_customer_id'')
      else Inr (d\<lparr>customer_mappings := customer_mappings d @ [r]\<rparr>))"

definition insert_subscription_mapping :: "subscription_mapping \<Rightarrow> db \<Rightarrow> exn + db" where
  "insert_subscription_mapping r d =
     (if sm_stripe_subscription_id r \<in> sm_stripe_subscription_id ` set (subscription_mappings d)
      then Inl (IntegrityError ''subscription_mappings_pkey'')
      else if sm_metronome_contract_id r \<in> sm_metronome_contract_id ` set (subscription_mappings d)
      then Inl (IntegrityError ''uq_subscription_mappings_metronome_contract_id'')
      else if sm_stripe_customer_id r \<notin> cm_stripe_customer_id ` set (customer_mappings d)
      then Inl (IntegrityError ''fk_subscription_mappings_stripe_customer'')
      else Inr (d\<lparr>subscription_mappings := subscription_mappings d @ [r]\<rparr>))"

text \<open>\<open>INSERT ... ON CONFLICT (stripe_event_id) DO NOTHING RETURNING\<close>: whether a row went in.\<close>

definition insert_event_or_nothing :: "webhook_event \<Rightarrow> db \<Rightarrow> bool \<times> db" where
  "insert_event_or_nothing r d =
     (if stripe_event_id r \<in> stripe_event_id ` set (webhook_events d) then (False, d)
      else (True, d\<lparr>webhook_events := webhook_events d @ [r]\<rparr>))"

definition set_customer_updated_at :: "string \<Rightarrow> datetime \<Rightarrow> db \<Rightarrow> db" where
  "set_customer_updated_at k t d =
     d\<lparr>customer_mappings :=
        map (\<lambda>r. if cm_stripe_customer_id r = k then r\<lparr>cm_updated_at := t\<rparr> else r) (customer_mappings d)\<rparr>"

text \<open>The \<open>UPDATE\<close> that writes the attributes of a loaded event back to its row.\<close>

definition save_event :: "webhook_event \<Rightarrow> db \<Rightarrow> db" where
  "save_event e d =
     d\<lparr>webhook_events :=
        map (\<lambda>r. if stripe_event_id r = stripe_event_id e then e else r) (webhook_events d)\<rparr>"

section \<open>The interface of a table with a primary key\<close>

locale keyed_table =
  fixes rows :: "'d \<Rightarrow> 'r list"
    and key :: "'r \<Rightarrow> string"
    and lookup :: "string \<Rightarrow> 'd \<Rightarrow> 'r option"
    and insert :: "'r \<Rightarrow> 'd \<Rightarrow> exn + 'd"
  assumes lookup_hit: "lookup k d = Some r \<Longrightarrow> r \<in> set (rows d) \<and> key r = k"
    and lookup_miss: "lookup k d = None \<Longrightarrow> k \<notin> key ` set (rows d)"
    and insert_rows: "insert r d = Inr d' \<Longrightarrow> key r \<notin> key ` set (rows d) \<and> rows d' = rows d @ [r]"
begin

lemma lookup_None_iff: "lookup k d = None \<longleftrightarrow> k \<notin> key ` set (rows d)"
  using lookup_hit lookup_miss by (metis image_eqI option.exhaust)

lemma lookup_Some_iff:
  assumes "distinct (map key (rows d))"
  shows "lookup k d = Some r \<longleftrightarrow> r \<in> set (rows d) \<and> key r = k"
proof
  assume r: "r \<in> set (rows d) \<and> key r = k"
  then have "lookup k d \<noteq> None" using lookup_miss by blast
  then obtain x where x: "lookup k d = Some x" by blast
  then have "x \<in> set (rows d)" "key x = k" using lookup_hit by blast+
  with r assms have "x = r" by (simp add: distinct_map inj_on_def)
  with x show "lookup k d = Some r" by simp
qed (rule lookup_hit)

lemma insert_distinct: "insert r d = Inr d' \<Longrightarrow> distinct (map key (rows d)) \<Longrightarrow> distinct (map key (rows d'))"
  using insert_rows by fastforce

lemma insert_lookup:
  assumes "insert r d = Inr d'" and "distinct (map key (rows d))"
  shows "lookup k d' = (if k = key r then Some r else lookup k d)"
proof -
  have d': "key r \<notin> key ` set (rows d)" "rows d' = rows d @ [r]" using insert_rows assms(1) by blast+
  have "distinct (map key (rows d'))" using insert_distinct assms by blast
  note find' = lookup_Some_iff [OF this] and find = lookup_Some_iff [OF assms(2)]
  show ?thesis
  proof (cases "k = key r")
    case True
    then show ?thesis using find' d' by simp
  next
    case False
    show ?thesis
    proof (cases "lookup k d")
      case None
      then have "lookup k d' = None" using d' False by (auto simp: lookup_None_iff)
      with None False show ?thesis by simp
    next
      case (Some x)
      then have "lookup k d' = Some x" using find find' d' by simp
      with Some False show ?thesis by simp
    qed
  qed
qed

lemma insert_twice: "insert r d = Inr d' \<Longrightarrow> key r' = key r \<Longrightarrow> \<exists>e. insert r' d' = Inl e"
  using insert_rows [of r d d'] insert_rows [of r' d'] by (cases "insert r' d'") auto

end

text \<open>A table whose rows refer to a row of another one by its key.\<close>

locale referencing_table = keyed_table rows key lookup insert
  for rows :: "'d \<Rightarrow> 'r list" and key and lookup and insert +
  fixes foreign :: "'r \<Rightarrow> string"
    and parent_keys :: "'d \<Rightarrow> string set"
  assumes insert_parent: "insert r d = Inr d' \<Longrightarrow> foreign r \<in> parent_keys d \<and> parent_keys d' = parent_keys d"
begin

lemma insert_no_dangling:
  assumes "insert r d = Inr d'" and "\<forall>x \<in> set (rows d). foreign x \<in> parent_keys d"
  shows "\<forall>x \<in> set (rows d'). foreign x \<in> parent_keys d'"
  using insert_rows [OF assms(1)] insert_parent [OF assms(1)] assms(2) by auto

end

interpretation customers: keyed_table customer_mappings cm_stripe_customer_id customer_row insert_customer_mapping
  by unfold_locales
    (auto simp: customer_row_def insert_customer_mapping_def find_eq_None dest: find_SomeD split: if_splits)

interpretation subscriptions: referencing_table
    subscription_mappings sm_stripe_subscription_id subscription_row insert_subscription_mapping
    sm_stripe_customer_id "\<lambda>d. cm_stripe_customer_id ` set (customer_mappings d)"
  by unfold_locales
    (auto simp: subscription_row_def insert_subscription_mapping_def find_eq_None dest: find_SomeD split: if_splits)

text \<open>The events' insert, seen as one that fails on a conflict.\<close>

definition insert_event :: "webhook_event \<Rightarrow> db \<Rightarrow> exn + db" where
  "insert_event r d =
     (case insert_event_or_nothing r d of
        (True, d') \<Rightarrow> Inr d' | (False, _) \<Rightarrow> Inl (IntegrityError ''webhook_events_pkey''))"

interpretation events: keyed_table webhook_events stripe_event_id event_row insert_event
  by unfold_locales
    (auto simp: event_row_def insert_event_def insert_event_or_nothing_def find_eq_None
      dest: find_SomeD split: if_splits)

section \<open>Integrity\<close>

text \<open>What the constraints of the schema guarantee of the stored rows.\<close>

definition db_ok :: "db \<Rightarrow> bool" where
  "db_ok d \<longleftrightarrow>
     distinct (map stripe_event_id (webhook_events d)) \<and>
     distinct (map cm_stripe_customer_id (customer_mappings d)) \<and>
     distinct (map cm_metronome_customer_id (customer_mappings d)) \<and>
     distinct (map sm_stripe_subscription_id (subscription_mappings d)) \<and>
     distinct (map sm_metronome_contract_id (subscription_mappings d)) \<and>
     (\<forall>r \<in> set (subscription_mappings d).
        sm_stripe_customer_id r \<in> cm_stripe_customer_id ` set (customer_mappings d))"

lemma insert_customer_frame:
  assumes "insert_customer_mapping r d = Inr d'"
  shows "webhook_events d' = webhook_events d" "subscription_mappings d' = subscription_mappings d"
    "customer_mappings d' = customer_mappings d @ [r]"
  using assms by (auto simp: insert_customer_mapping_def split: if_splits)

lemma insert_subscription_frame:
  assumes "insert_subscription_mapping r d = Inr d'"
  shows "webhook_events d' = webhook_events d" "customer_mappings d' = customer_mappings d"
    "subscription_mappings d' = subscription_mappings d @ [r]"
  using assms by (auto simp: insert_subscription_mapping_def split: if_splits)

lemma insert_customer_ok: "insert_customer_mapping r d = Inr d' \<Longrightarrow> db_ok d \<Longrightarrow> db_ok d'"
  by (auto simp: insert_customer_mapping_def db_ok_def split: if_splits)

lemma insert_subscription_ok: "insert_subscription_mapping r d = Inr d' \<Longrightarrow> db_ok d \<Longrightarrow> db_ok d'"
  using subscriptions.insert_no_dangling [of r d d']
  by (auto simp: insert_subscription_mapping_def db_ok_def split: if_splits)

lemma map_key_update: "(\<And>r. k (f r) = k r) \<Longrightarrow> map k (map (\<lambda>r. if p r then f r else r) xs) = map k xs"
  by simp

lemma set_customer_updated_at_keys [simp]:
  "map cm_stripe_customer_id (customer_mappings (set_customer_updated_at k t d)) =
     map cm_stripe_customer_id (customer_mappings d)"
  "map cm_metronome_customer_id (customer_mappings (set_customer_updated_at k t d)) =
     map cm_metronome_customer_id (customer_mappings d)"
  "webhook_events (set_customer_updated_at k t d) = webhook_events d"
  "subscription_mappings (set_customer_updated_at k t d) = subscription_mappings d"
  by (auto simp: set_customer_updated_at_def)

lemma set_customer_updated_at_ok: "db_ok d \<Longrightarrow> db_ok (set_customer_updated_at k t d)"
  unfolding db_ok_def by (metis set_customer_updated_at_keys list.set_map)

lemma save_event_keys [simp]:
  "map stripe_event_id (webhook_events (save_event e d)) = map stripe_event_id (webhook_events d)"
  "customer_mappings (save_event e d) = customer_mappings d"
  "subscription_mappings (save_event e d) = subscription_mappings d"
  by (auto simp: save_event_def)

lemma save_event_ok: "db_ok d \<Longrightarrow> db_ok (save_event e d)"
  by (simp add: db_ok_def)

lemma insert_event_ok: "insert_event_or_nothing r d = (b, d') \<Longrightarrow> db_ok d \<Longrightarrow> db_ok d'"
  by (auto simp: insert_event_or_nothing_def db_ok_def split: if_splits)

section \<open>Rows in the log\<close>

text \<open>\<open>__repr__\<close> of the three models.\<close>

definition webhook_event_repr :: "webhook_event \<Rightarrow> string" where
  "webhook_event_repr r =
     ''WebhookEvent(stripe_event_id='' @ py_repr (stripe_event_id r) @ '', '' @
     ''event_type='' @ py_repr (event_type r) @ '', status='' @ py_repr (status r) @ '', '' @
     ''attempts='' @ show_int (attempts r) @ '')''"

definition customer_mapping_repr :: "customer_mapping \<Rightarrow> string" where
  "customer_mapping_repr r =
     ''CustomerMapping(stripe_customer_id='' @ py_repr (cm_stripe_customer_id r) @ '', '' @
     ''metronome_customer_id='' @ py_repr (cm_metronome_customer_id r) @ '')''"

definition subscription_mapping_repr :: "subscription_mapping \<Rightarrow> string" where
  "subscription_mapping_repr r =
     ''SubscriptionMapping(stripe_subscription_id='' @ py_repr (sm_stripe_subscription_id r) @ '', '' @
     ''metronome_contract_id='' @ py_repr (sm_metronome_contract_id r) @ '', '' @
     ''current_tier_name='' @ py_repr (sm_current_tier_name r) @ '')''"

text \<open>A logged event shows neither its payload nor its last error.\<close>

lemma repr_hides_payload:
  "webhook_event_repr (r\<lparr>payload := p, last_error := m\<rparr>) = webhook_event_repr r"
  by (simp add: webhook_event_repr_def)

end
