(* ===== verification/Config.thy ===== *)
theory Config
  imports Errors Complex_Main
begin

text \<open>
  \<open>config/__init__.py\<close>: the settings, the checks their fields are declared with, the
  UUID check of the rate card and the synchronous database URL. How pydantic reads
  the environment and parses numbers is not modelled: the model starts from the
  parsed field values.
\<close>

record settings =
  stripe_webhook_secret :: string
  metronome_api_key :: string
  database_url :: string
  metronome_default_rate_card_id :: string
  log_level :: string
  worker_poll_interval_seconds :: rat
  worker_max_attempts :: int
  worker_retry_base_seconds :: rat
  worker_retry_cap_seconds :: rat
  metronome_base_url :: string
  port :: int

section \<open>The UUID pattern\<close>

text \<open>
  The pattern is one character class per position. \<open>match\<close> anchors it at the start
  only; the final \<open>$\<close> holds at the end and also before a newline that ends the string.
\<close>

definition hex_class :: "char \<Rightarrow> bool" where
  "hex_class c \<longleftrightarrow> c \<in> set ''0123456789abcdefABCDEF''"

definition dash_class :: "char \<Rightarrow> bool" where
  "dash_class c \<longleftrightarrow> c = CHR ''-''"

definition uuid_re :: "(char \<Rightarrow> bool) list" where
  "uuid_re = replicate 8 hex_class @ [dash_class] @ replicate 4 hex_class @ [dash_class] @
     replicate 4 hex_class @ [dash_class] @ replicate 4 hex_class @ [dash_class] @ replicate 12 hex_class"

fun match_classes :: "(char \<Rightarrow> bool) list \<Rightarrow> string \<Rightarrow> string option" where
  "match_classes [] s = Some s"
| "match_classes (p # ps) [] = None"
| "match_classes (p # ps) (c # cs) = (if p c then match_classes ps cs else None)"

definition uuid_re_match :: "string \<Rightarrow> bool" where
  "uuid_re_match s =
     (case match_classes uuid_re s of None \<Rightarrow> False | Some rest \<Rightarrow> rest = [] \<or> rest = [CHR 0x0A])"

definition require_uuid :: "string \<Rightarrow> exn + string" where
  "require_uuid value =
     (if \<not> uuid_re_match value
      then Inl (ValueError (PlainValueError
        (''METRONOME_DEFAULT_RATE_CARD_ID='' @ py_repr value @ '' is not a UUID. '' @
         ''Set it to the rate card UUID from your Metronome dashboard '' @
         ''(Rate Cards '' @ right_arrow @ '' copy ID); the placeholder shipped in '' @
         ''`.env.example` will be rejected by the Metronome API.'')))
      else Inr value)"

section \<open>The settings object\<close>

text \<open>The names of the fields pydantic would report; an empty list means the process starts.\<close>

definition invalid_fields :: "settings \<Rightarrow> string list" where
  "invalid_fields s =
     (case require_uuid (metronome_default_rate_card_id s) of
        Inl _ \<Rightarrow> [''metronome_default_rate_card_id''] | Inr _ \<Rightarrow> []) @
     (if 1 / 10 \<le> worker_poll_interval_seconds s then [] else [''worker_poll_interval_seconds'']) @
     (if 1 \<le> worker_max_attempts s then [] else [''worker_max_attempts'']) @
     (if 1 \<le> worker_retry_base_seconds s then [] else [''worker_retry_base_seconds'']) @
     (if 1 \<le> worker_retry_cap_seconds s then [] else [''worker_retry_cap_seconds'']) @
     (if 1 \<le> port s \<and> port s \<le> 65535 then [] else [''port''])"

definition load_settings :: "settings \<Rightarrow> exn + settings" where
  "load_settings s =
     (if invalid_fields s = [] then Inr s
      else Inl (OtherException ''ValidationError'' (concat (invalid_fields s))))"

definition sync_database_url :: "settings \<Rightarrow> string" where
  "sync_database_url s =
     py_replace ''postgresql+psycopg2'' ''postgresql''
       (py_replace ''+asyncpg'' ''+psycopg2'' (database_url s))"

lemma load_settings_ok:
  "load_settings s = Inr s' \<longleftrightarrow>
     s' = s \<and> uuid_re_match (metronome_default_rate_card_id s) \<and>
     1 / 10 \<le> worker_poll_interval_seconds s \<and> 1 \<le> worker_max_attempts s \<and>
     1 \<le> worker_retry_base_seconds s \<and> 1 \<le> worker_retry_cap_seconds s \<and>
     1 \<le> port s \<and> port s \<le> 65535"
  by (auto simp: load_settings_def invalid_fields_def require_uuid_def)

lemma match_classes_Some:
  "match_classes ps s = Some rest \<longleftrightarrow>
     (\<exists>m. s = m @ rest \<and> list_all2 (\<lambda>p c. p c) ps m)"
proof (induction ps s rule: match_classes.induct)
  case (3 p ps c cs)
  then show ?case by (auto simp: list_all2_Cons1 Cons_eq_append_conv)
qed (auto simp: list_all2_Cons1)

section \<open>The database URL\<close>

lemma py_replace_Nil [simp]: "py_replace old new [] = []"
  by (subst py_replace.simps) simp

lemma py_replace_prefix:
  "old \<noteq> [] \<Longrightarrow> py_replace old new (old @ s) = new @ py_replace old new s"
proof -
  assume "old \<noteq> []"
  then obtain c cs where c: "old @ s = c # cs" by (cases old) auto
  have "take (length old) (c # cs) = old" "drop (length old) (c # cs) = s" by (simp_all flip: c)
  with \<open>old \<noteq> []\<close> show ?thesis unfolding c by (subst py_replace.simps) simp
qed

lemma py_replace_Cons:
  "old \<noteq> [] \<Longrightarrow> take (length old) (c # s) \<noteq> old \<Longrightarrow> py_replace old new (c # s) = c # py_replace old new s"
  by (subst py_replace.simps) simp

text \<open>\<open>old in s\<close>.\<close>

definition occurs_in :: "string \<Rightarrow> string \<Rightarrow> bool" where
  "occurs_in old s \<longleftrightarrow> (\<exists>a b. s = a @ old @ b)"

lemma occurs_in_Nil: "occurs_in old [] \<longleftrightarrow> old = []"
  by (simp add: occurs_in_def)

lemma occurs_in_Cons: "occurs_in old (c # s) \<longleftrightarrow> take (length old) (c # s) = old \<or> occurs_in old s"
proof
  assume "occurs_in old (c # s)"
  then obtain a b where ab: "c # s = a @ old @ b" by (auto simp: occurs_in_def)
  show "take (length old) (c # s) = old \<or> occurs_in old s"
  proof (cases a)
    case Nil
    then have "take (length old) (c # s) = old" using ab by (metis append_Nil append_eq_conv_conj)
    then show ?thesis ..
  next
    case (Cons d ds)
    then show ?thesis using ab by (auto simp: occurs_in_def)
  qed
next
  assume "take (length old) (c # s) = old \<or> occurs_in old s"
  then show "occurs_in old (c # s)"
    unfolding occurs_in_def by (metis append_Cons append_Nil append_take_drop_id)
qed

lemma py_replace_absent: "\<not> occurs_in old s \<Longrightarrow> py_replace old new s = s"
proof (induction s)
  case (Cons c s)
  have "take (length old) (c # s) \<noteq> old"
    using Cons.prems unfolding occurs_in_def by (metis append_Nil append_take_drop_id)
  moreover have "\<not> occurs_in old s"
    using Cons.prems unfolding occurs_in_def by (metis append_Cons)
  moreover have "old \<noteq> []" using Cons.prems unfolding occurs_in_def by (metis append_Nil)
  ultimately show ?case using Cons.IH by (simp add: py_replace_Cons)
qed simp

lemma sync_url:
  assumes "database_url s = ''postgresql+asyncpg'' @ rest"
    and "\<not> occurs_in ''+asyncpg'' rest" and "\<not> occurs_in ''postgresql+psycopg2'' rest"
  shows "sync_database_url s = ''postgresql'' @ rest"
proof -
  have "py_replace ''+asyncpg'' ''+psycopg2'' (''postgresql'' @ ''+asyncpg'' @ rest) = ''postgresql+psycopg2'' @ rest"
    using assms(2) py_replace_prefix [of "''+asyncpg''" "''+psycopg2''" rest]
    by (simp add: py_replace_Cons py_replace_absent)
  with assms(1) have "sync_database_url s = py_replace ''postgresql+psycopg2'' ''postgresql'' (''postgresql+psycopg2'' @ rest)"
    by (simp add: sync_database_url_def)
  also have "\<dots> = ''postgresql'' @ rest"
    using assms(3) py_replace_prefix [of "''postgresql+psycopg2''" "''postgresql''" rest] by (simp add: py_replace_absent)
  finally show ?thesis .
qed

section \<open>Properties\<close>

text \<open>A UUID as RFC 4122 prints it: 36 characters, dashes at four places, hexadecimal digits elsewhere.\<close>

definition canonical_uuid :: "string \<Rightarrow> bool" where
  "canonical_uuid s \<longleftrightarrow>
     length s = 36 \<and>
     (\<forall>i < 36. if i \<in> {8, 13, 18, 23} then s ! i = CHR ''-''
              else s ! i \<in> set ''0123456789abcdefABCDEF'')"

lemma canonical_uuid_length: "canonical_uuid s \<Longrightarrow> length s = 36"
  by (simp add: canonical_uuid_def)

lemma uuid_re_length: "length uuid_re = 36"
  by (simp add: uuid_re_def)

lemma uuid_re_table:
  "\<forall>i \<in> set [0..<36]. uuid_re ! i = (if i \<in> {8, 13, 18, 23} then dash_class else hex_class)"
  by (simp add: uuid_re_def upt_rec nth_append eval_nat_numeral)

lemma uuid_re_canonical: "list_all2 (\<lambda>p c. p c) uuid_re s \<longleftrightarrow> canonical_uuid s"
proof -
  have "uuid_re ! i = (if i \<in> {8, 13, 18, 23} then dash_class else hex_class)" if "i < 36" for i
    using uuid_re_table that by simp
  then show ?thesis
    by (auto simp: list_all2_conv_all_nth uuid_re_length canonical_uuid_def hex_class_def dash_class_def)
qed

text \<open>C37: what the rate card check lets through. \<open>_require_uuid\<close> accepts a value exactly if it is a
  UUID in canonical form, in either case, or such a UUID followed by one line feed, which the
  \<open>$\<close> of the pattern allows; it returns the value as it is.\<close>

theorem rate_card_check:
  "require_uuid raw = Inr v \<longleftrightarrow>
     v = raw \<and> (canonical_uuid raw \<or> (\<exists>u. raw = u @ [CHR 0x0A] \<and> canonical_uuid u))"
proof -
  have "uuid_re_match raw \<longleftrightarrow> canonical_uuid raw \<or> (\<exists>u. raw = u @ [CHR 0x0A] \<and> canonical_uuid u)"
  proof (cases "match_classes uuid_re raw")
    case None
    then have "\<not> (\<exists>m rest. raw = m @ rest \<and> canonical_uuid m)"
      using match_classes_Some [of uuid_re raw] uuid_re_canonical by fastforce
    then show ?thesis using None by (auto simp: uuid_re_match_def)
  next
    case (Some rest)
    then obtain m where m: "raw = m @ rest" "canonical_uuid m"
      using match_classes_Some [of uuid_re raw rest] uuid_re_canonical by blast
    have "rest = [] \<or> rest = [CHR 0x0A] \<longleftrightarrow>
        canonical_uuid raw \<or> (\<exists>u. raw = u @ [CHR 0x0A] \<and> canonical_uuid u)"
      using m canonical_uuid_length [of m] canonical_uuid_length [of raw]
      by (auto dest: canonical_uuid_length)
    then show ?thesis by (simp add: uuid_re_match_def Some)
  qed
  then show ?thesis by (auto simp: require_uuid_def)
qed

lemma placeholder_rejected: "isl (require_uuid ''REPLACE_ME_with_rate_card_uuid'')"
  by code_simp

text \<open>Settings that start the process. The settings object exists exactly if the rate card
  passes its check, the poll interval is at least 0.1 s, the maximum of attempts, the base and
  the cap of the delay are at least 1, and the port is a TCP port; it is then unchanged.\<close>

lemma settings_are_checked:
  "load_settings s = Inr s' \<longleftrightarrow>
     s' = s \<and> (\<exists>v. require_uuid (metronome_default_rate_card_id s) = Inr v) \<and>
     1 / 10 \<le> worker_poll_interval_seconds s \<and> 1 \<le> worker_max_attempts s \<and>
     1 \<le> worker_retry_base_seconds s \<and> 1 \<le> worker_retry_cap_seconds s \<and>
     1 \<le> port s \<and> port s \<le> 65535"
  by (auto simp: load_settings_ok require_uuid_def split: if_splits)

end
