(* ===== verification/Session.thy ===== *)
theory Session
  imports Database Config
begin

text \<open>
  What a handler can act on: the database session of the worker's transaction, the
  Metronome SDK and the log. The SDK is not part of the repository: it is the
  parameter \<open>sdk\<close>, which answers one request in a server state of any type, and
  every request is recorded in \<open>calls\<close>. A flush that violates a constraint leaves
  the session deactivated, as SQLAlchemy does: each later statement on it raises
  \<open>PendingRollbackError\<close> until the transaction is rolled back.
\<close>

section \<open>The SDK\<close>

datatype sdk_call =
    CustomersCreate pydict
  | CustomersSetName string pyval
  | ContractsCreate pydict
  | ContractsList string

text \<open>
  The exception classes of the SDK. \<open>APIStatusError\<close> says whether it is a
  \<open>RateLimitError\<close> and carries the HTTP status, if it has one; \<open>ForeignError\<close> is any
  exception outside the SDK's hierarchy, by type name and text.
\<close>

datatype sdk_error =
    APIStatusError bool "int option" string
  | APIConnectionError string
  | APITimeoutError string
  | APIError string
  | ForeignError string string

datatype sdk_reply = Response pyval | Raises sdk_error

type_synonym 'm sdk = "sdk_call \<Rightarrow> 'm \<Rightarrow> sdk_reply \<times> 'm"

section \<open>The log\<close>

datatype log_level = INFO | WARNING | ERROR

text \<open>The levels are ordered by the numbers of the standard \<open>logging\<close> module.\<close>

fun severity :: "log_level \<Rightarrow> int" where
  "severity INFO = 20"
| "severity WARNING = 30"
| "severity ERROR = 40"

lemma severity_inj: "severity a = severity b \<longleftrightarrow> a = b"
  by (cases a; cases b) auto

instantiation log_level :: linorder
begin

definition less_eq_log_level :: "log_level \<Rightarrow> log_level \<Rightarrow> bool" where
  "a \<le> b \<longleftrightarrow> severity a \<le> severity b"

definition less_log_level :: "log_level \<Rightarrow> log_level \<Rightarrow> bool" where
  "a < b \<longleftrightarrow> severity a < severity b"

instance
  by standard (auto simp: less_eq_log_level_def less_log_level_def severity_inj)

end

record log_record =
  log_record_level :: log_level
  log_record_message :: string
  log_record_extra :: pydict

section \<open>The context\<close>

text \<open>
  \<open>tx\<close> is the database as the transaction sees it. \<open>env\<close> holds the readings of the
  clocks and of the random generator during one iteration, and the text of a
  traceback: \<open>tx_start\<close> is SQL's \<open>NOW()\<close>, \<open>handler_now\<close> and \<open>finish_now\<close> are
  \<open>datetime.now(UTC)\<close> in the handler and in the worker, \<open>perf_start\<close> and \<open>perf_end\<close>
  the two readings of \<open>time.perf_counter\<close>, \<open>draw\<close> is \<open>random.random()\<close>.
\<close>

record 'm ctx =
  tx :: db
  deactivated :: bool
  api :: 'm
  calls :: "sdk_call list"
  log :: "log_record list"

record env =
  claim_now :: datetime
  tx_start :: datetime
  handler_now :: datetime
  finish_now :: datetime
  perf_start :: rat
  perf_end :: rat
  draw :: rat
  traceback_text :: string

type_synonym ('m, 'a) session_act = "(exn, 'm ctx, 'a) act"

definition call_sdk :: "'m sdk \<Rightarrow> sdk_call \<Rightarrow> ('m, sdk_reply) session_act" where
  "call_sdk sdk c s =
     (case sdk c (api s) of (r, m) \<Rightarrow> (Inr r, s\<lparr>api := m, calls := calls s @ [c]\<rparr>))"

definition log_at :: "log_level \<Rightarrow> string \<Rightarrow> pydict \<Rightarrow> ('m, unit) session_act" where
  "log_at level message extra =
     modifies (\<lambda>s. s\<lparr>log := log s @ [\<lparr>log_record_level = level, log_record_message = message,
        log_record_extra = extra\<rparr>]\<rparr>)"

definition db_read :: "(db \<Rightarrow> 'a) \<Rightarrow> ('m, 'a) session_act" where
  "db_read f s = (if deactivated s then (Inl PendingRollbackError, s) else (Inr (f (tx s)), s))"

text \<open>\<open>session.add(row); await session.flush()\<close>, and the flush of a changed attribute.\<close>

definition add_and_flush :: "(db \<Rightarrow> exn + db) \<Rightarrow> ('m, unit) session_act" where
  "add_and_flush ins s =
     (if deactivated s then (Inl PendingRollbackError, s)
      else case ins (tx s) of
        Inl e \<Rightarrow> (Inl e, s\<lparr>deactivated := True\<rparr>)
      | Inr d \<Rightarrow> (Inr (), s\<lparr>tx := d\<rparr>))"

definition flush_update :: "(db \<Rightarrow> db) \<Rightarrow> ('m, unit) session_act" where
  "flush_update f s = add_and_flush (\<lambda>d. Inr (f d)) s"

text \<open>\<open>int((time.perf_counter() - started_at) * 1000)\<close>; \<open>int\<close> truncates towards zero.\<close>

definition elapsed_ms :: "env \<Rightarrow> int" where
  "elapsed_ms e =
     (let x = (perf_end e - perf_start e) * 1000 in if 0 \<le> x then \<lfloor>x\<rfloor> else \<lceil>x\<rceil>)"

section \<open>Frames of session actions\<close>

text \<open>\<open>same_tx\<close>: the action touches neither the database nor the session's state.\<close>

definition same_tx :: "'m ctx \<Rightarrow> 'm ctx \<Rightarrow> bool" where
  "same_tx s t \<longleftrightarrow> tx t = tx s \<and> deactivated t = deactivated s"

text \<open>\<open>keeps_ok\<close>: the constraints of the schema still hold.\<close>

definition keeps_ok :: "'m ctx \<Rightarrow> 'm ctx \<Rightarrow> bool" where
  "keeps_ok s t \<longleftrightarrow> (db_ok (tx s) \<longrightarrow> db_ok (tx t))"

text \<open>
  \<open>grows\<close>: the events are untouched, no mapping row disappears and none is bound to
  another Metronome id; only \<open>updated_at\<close> of a customer row may change.
\<close>

definition cm_ids :: "customer_mapping \<Rightarrow> string \<times> string \<times> datetime" where
  "cm_ids r = (cm_stripe_customer_id r, cm_metronome_customer_id r, cm_created_at r)"

definition db_grows :: "db \<Rightarrow> db \<Rightarrow> bool" where
  "db_grows d d' \<longleftrightarrow>
     webhook_events d' = webhook_events d \<and>
     (\<exists>xs. map cm_ids (customer_mappings d') = map cm_ids (customer_mappings d) @ xs) \<and>
     (\<exists>ys. subscription_mappings d' = subscription_mappings d @ ys)"

definition grows :: "'m ctx \<Rightarrow> 'm ctx \<Rightarrow> bool" where
  "grows s t \<longleftrightarrow> db_grows (tx s) (tx t)"

text \<open>\<open>records\<close>: the calls and the log only gain entries at the end.\<close>

definition records :: "'m ctx \<Rightarrow> 'm ctx \<Rightarrow> bool" where
  "records s t \<longleftrightarrow> (\<exists>cs. calls t = calls s @ cs) \<and> (\<exists>ls. log t = log s @ ls)"

lemma db_grows_refl: "db_grows d d"
  by (simp add: db_grows_def)

lemma db_grows_trans: "db_grows a b \<Longrightarrow> db_grows b c \<Longrightarrow> db_grows a c"
  unfolding db_grows_def by (metis append.assoc)

interpretation same_tx: state_frame same_tx
  by unfold_locales (auto simp: same_tx_def)

interpretation keeps_ok: state_frame keeps_ok
  by unfold_locales (auto simp: keeps_ok_def)

interpretation grows: state_frame grows
  by unfold_locales (auto simp: grows_def db_grows_refl intro: db_grows_trans)

interpretation records: state_frame records
  by unfold_locales (auto simp: records_def)

lemma same_tx_keeps_ok: "framed same_tx m \<Longrightarrow> framed keeps_ok m"
  by (simp add: framed_def same_tx_def keeps_ok_def)

lemma same_tx_grows: "framed same_tx m \<Longrightarrow> framed grows m"
  by (simp add: framed_def same_tx_def grows_def db_grows_refl)

lemma basic_same_tx:
  "framed same_tx (call_sdk sdk c)" "framed same_tx (log_at l m x)" "framed same_tx (db_read f)"
  by (auto simp: framed_def same_tx_def call_sdk_def log_at_def modifies_def db_read_def split: prod.split)

lemma basic_records:
  "framed records (call_sdk sdk c)" "framed records (log_at l m x)" "framed records (db_read f)"
  "framed records (add_and_flush ins)" "framed records (flush_update g)"
  by (auto simp: framed_def records_def call_sdk_def log_at_def modifies_def db_read_def
      add_and_flush_def flush_update_def split: prod.split sum.split)

lemma add_and_flush_keeps_ok:
  "(\<And>d d'. ins d = Inr d' \<Longrightarrow> db_ok d \<Longrightarrow> db_ok d') \<Longrightarrow> framed keeps_ok (add_and_flush ins)"
  by (auto simp: framed_def keeps_ok_def add_and_flush_def split: sum.split)

lemma add_and_flush_grows:
  "(\<And>d d'. ins d = Inr d' \<Longrightarrow> db_grows d d') \<Longrightarrow> framed grows (add_and_flush ins)"
  by (auto simp: framed_def grows_def add_and_flush_def db_grows_refl split: sum.split)

lemma add_and_flush_Inr:
  "add_and_flush ins s = (Inr u, t) \<longleftrightarrow> \<not> deactivated s \<and> (\<exists>d. ins (tx s) = Inr d \<and> t = s\<lparr>tx := d\<rparr>)"
  by (auto simp: add_and_flush_def split: sum.splits)

lemma add_and_flush_Inl:
  "add_and_flush ins s = (Inl e, t) \<longleftrightarrow>
     deactivated s \<and> e = PendingRollbackError \<and> t = s \<or>
     \<not> deactivated s \<and> ins (tx s) = Inl e \<and> t = s\<lparr>deactivated := True\<rparr>"
  by (auto simp: add_and_flush_def split: sum.splits)

lemma db_read_eq:
  "db_read f s = (r, t) \<longleftrightarrow> t = s \<and> r = (if deactivated s then Inl PendingRollbackError else Inr (f (tx s)))"
  by (auto simp: db_read_def)

lemma insert_customer_grows: "insert_customer_mapping r d = Inr d' \<Longrightarrow> db_grows d d'"
  by (simp add: db_grows_def insert_customer_frame)

lemma insert_subscription_grows: "insert_subscription_mapping r d = Inr d' \<Longrightarrow> db_grows d d'"
  by (simp add: db_grows_def insert_subscription_frame)

lemma set_customer_updated_at_ids [simp]:
  "map cm_ids (customer_mappings (set_customer_updated_at k t d)) = map cm_ids (customer_mappings d)"
  by (auto simp: set_customer_updated_at_def cm_ids_def)

lemma set_customer_updated_at_grows: "db_grows d (set_customer_updated_at k t d)"
  unfolding db_grows_def by (metis append_Nil2 set_customer_updated_at_ids set_customer_updated_at_keys(3,4))

text \<open>A customer that is mapped stays mapped, to the same Metronome id.\<close>

lemma find_map: "find P (map f xs) = map_option f (find (P \<circ> f) xs)"
  by (induction xs) auto

lemma customer_row_ids:
  "map_option cm_ids (customer_row k d) = find (\<lambda>i. fst i = k) (map cm_ids (customer_mappings d))"
  by (simp add: customer_row_def find_map comp_def cm_ids_def)

lemma db_grows_customer:
  assumes "db_grows d d'" and "customer_row k d = Some r"
  obtains r' where "customer_row k d' = Some r'" "cm_ids r' = cm_ids r"
proof -
  obtain xs where "map cm_ids (customer_mappings d') = map cm_ids (customer_mappings d) @ xs"
    using assms(1) by (auto simp: db_grows_def)
  moreover have "find (\<lambda>i. fst i = k) (map cm_ids (customer_mappings d)) = Some (cm_ids r)"
    using assms(2) by (simp flip: customer_row_ids)
  ultimately have "map_option cm_ids (customer_row k d') = Some (cm_ids r)"
    by (simp add: customer_row_ids find_append del: map_append)
  then show thesis using that by auto
qed

lemma db_grows_subscription:
  "db_grows d d' \<Longrightarrow> subscription_row k d = Some r \<Longrightarrow> subscription_row k d' = Some r"
  by (auto simp: db_grows_def subscription_row_def find_append)

section \<open>What a handler promises its caller\<close>

text \<open>
  \<open>atomic\<close>: an action that raises has left the database as it was, and has left the
  session usable if what it raises is a \<open>HandlerError\<close>; one that returns has not
  deactivated the session. \<open>quiet\<close>: it touches no database and does not raise.
\<close>

fun is_handler_error :: "exn \<Rightarrow> bool" where
  "is_handler_error (HandlerError _) = True"
| "is_handler_error _ = False"

lemma is_handler_error_iff: "is_handler_error x \<longleftrightarrow> (\<exists>h. x = HandlerError h)"
  by (cases x) auto

definition atomic :: "('m, 'a) session_act \<Rightarrow> bool" where
  "atomic m \<longleftrightarrow>
     (\<forall>s. case m s of
        (Inr x, t) \<Rightarrow> deactivated t = deactivated s
      | (Inl exc, t) \<Rightarrow> tx t = tx s \<and> (is_handler_error exc \<longrightarrow> deactivated t = deactivated s))"

definition quiet :: "('m, 'a) session_act \<Rightarrow> bool" where
  "quiet m \<longleftrightarrow> framed same_tx m \<and> (\<forall>s. \<exists>x t. m s = (Inr x, t))"

lemma atomicD_Inl: "atomic m \<Longrightarrow> m s = (Inl exc, t) \<Longrightarrow> tx t = tx s \<and> (is_handler_error exc \<longrightarrow> deactivated t = deactivated s)"
  by (auto simp: atomic_def dest!: spec [of _ s])

lemma atomicD_Inr: "atomic m \<Longrightarrow> m s = (Inr x, t) \<Longrightarrow> deactivated t = deactivated s"
  by (auto simp: atomic_def dest!: spec [of _ s])

lemma atomicI:
  "(\<And>s x t. m s = (Inr x, t) \<Longrightarrow> deactivated t = deactivated s) \<Longrightarrow>
   (\<And>s exc t. m s = (Inl exc, t) \<Longrightarrow> tx t = tx s \<and> (is_handler_error exc \<longrightarrow> deactivated t = deactivated s)) \<Longrightarrow>
   atomic m"
  by (auto simp: atomic_def split: prod.split sum.split)

lemma same_tx_atomic: "framed same_tx m \<Longrightarrow> atomic m"
  by (rule atomicI) (auto simp: same_tx_def dest: framedD)

lemma atomic_bnd_same_tx:
  assumes m: "framed same_tx m" and f: "\<And>x. atomic (f x)"
  shows "atomic (bnd m f)"
proof (rule atomicI)
  fix s x t
  assume "bnd m f s = (Inr x, t)"
  then obtain y u where "m s = (Inr y, u)" "f y u = (Inr x, t)" by (auto simp: bnd_eq_Inr)
  then show "deactivated t = deactivated s" using framedD [OF m] atomicD_Inr [OF f] by (metis same_tx_def)
next
  fix s exc t
  assume "bnd m f s = (Inl exc, t)"
  then consider "m s = (Inl exc, t)" | y u where "m s = (Inr y, u)" "f y u = (Inl exc, t)"
    by (auto simp: bnd_eq_Inl)
  then show "tx t = tx s \<and> (is_handler_error exc \<longrightarrow> deactivated t = deactivated s)"
  proof cases
    case 1
    then show ?thesis using framedD [OF m] by (metis same_tx_def)
  next
    case 2
    then show ?thesis using framedD [OF m 2(1)] atomicD_Inl [OF f 2(2)] by (simp add: same_tx_def)
  qed
qed

lemma atomic_bnd_quiet:
  assumes m: "atomic m" and f: "\<And>x. quiet (f x)"
  shows "atomic (bnd m f)"
proof (rule atomicI)
  fix s x t
  assume "bnd m f s = (Inr x, t)"
  then obtain y u where "m s = (Inr y, u)" "f y u = (Inr x, t)" by (auto simp: bnd_eq_Inr)
  then show "deactivated t = deactivated s"
    using f [of y] framedD [of same_tx "f y" u] atomicD_Inr [OF m] by (simp add: quiet_def same_tx_def)
next
  fix s exc t
  assume a: "bnd m f s = (Inl exc, t)"
  have "f y u \<noteq> (Inl exc, t)" for y u
    using f [of y] unfolding quiet_def by (metis Pair_inject sum.distinct(1))
  with a have "m s = (Inl exc, t)" by (auto simp: bnd_eq_Inl)
  then show "tx t = tx s \<and> (is_handler_error exc \<longrightarrow> deactivated t = deactivated s)" by (rule atomicD_Inl [OF m])
qed

lemma atomic_add_and_flush:
  "(\<And>d exc. ins d = Inl exc \<Longrightarrow> \<not> is_handler_error exc) \<Longrightarrow> atomic (add_and_flush ins)"
  by (rule atomicI) (auto simp: add_and_flush_Inr add_and_flush_Inl)

lemma atomic_flush_update: "atomic (flush_update f)"
  using atomic_add_and_flush [of "\<lambda>d. Inr (f d)"] by (simp add: atomic_def flush_update_def)

lemma atomic_case_option:
  "atomic m \<Longrightarrow> (\<And>x. atomic (f x)) \<Longrightarrow> atomic (case v of None \<Rightarrow> m | Some x \<Rightarrow> f x)"
  by (simp split: option.split)

lemma quiet_rules:
  "quiet (ret x)" "quiet (log_at l m d)"
  "quiet a \<Longrightarrow> (\<And>x. quiet (f x)) \<Longrightarrow> quiet (bnd a f)"
proof -
  show "quiet (ret x)" by (simp add: quiet_def same_tx.framed_pure) (simp add: ret_def)
  show "quiet (log_at l m d)" by (simp add: quiet_def basic_same_tx) (simp add: log_at_def modifies_def)
  assume a: "quiet a" and f: "\<And>x. quiet (f x)"
  show "quiet (bnd a f)"
    unfolding quiet_def
  proof (intro conjI allI)
    show "framed same_tx (bnd a f)" using a f by (intro same_tx.framed_bnd) (simp_all add: quiet_def)
    fix s
    obtain x t where x: "a s = (Inr x, t)" using a unfolding quiet_def by blast
    obtain y u where y: "f x t = (Inr y, u)" using f [of x] unfolding quiet_def by blast
    from x y show "\<exists>y u. bnd a f s = (Inr y, u)" by (simp add: bnd_eq_Inr)
  qed
qed

text \<open>The rules, bundled: apply each list with \<open>intro\<close>.\<close>

lemma flush_update_keeps_ok: "(\<And>d. db_ok d \<Longrightarrow> db_ok (f d)) \<Longrightarrow> framed keeps_ok (flush_update f)"
  using add_and_flush_keeps_ok [of "\<lambda>d. Inr (f d)"] by (simp add: framed_def flush_update_def)

lemma flush_update_grows: "(\<And>d. db_grows d (f d)) \<Longrightarrow> framed grows (flush_update f)"
  using add_and_flush_grows [of "\<lambda>d. Inr (f d)"] by (simp add: framed_def flush_update_def)

lemma same_tx_except: "framed same_tx m \<Longrightarrow> framed same_tx (except_as h m)"
  by (rule same_tx.framed_except_as)

lemmas same_tx_rules = same_tx.frame_rules basic_same_tx

lemmas keeps_ok_rules = keeps_ok.frame_rules basic_same_tx [THEN same_tx_keeps_ok]
  flush_update_keeps_ok add_and_flush_keeps_ok

lemmas grows_rules = grows.frame_rules basic_same_tx [THEN same_tx_grows]
  flush_update_grows add_and_flush_grows

lemmas records_rules = records.frame_rules basic_records

lemma atomic_pure: "atomic (ret x)" "atomic (raising e)" "atomic (lift r)"
  by (simp_all add: same_tx_atomic same_tx.framed_pure)

lemma atomic_flush_then:
  "quiet m \<Longrightarrow> atomic (bnd (flush_update f) (\<lambda>_. m))"
  "quiet m \<Longrightarrow> (\<And>d exc. ins d = Inl exc \<Longrightarrow> \<not> is_handler_error exc) \<Longrightarrow> atomic (bnd (add_and_flush ins) (\<lambda>_. m))"
  by (simp_all add: atomic_bnd_quiet atomic_flush_update atomic_add_and_flush)

lemmas atomic_rules = atomic_pure atomic_flush_then atomic_bnd_same_tx atomic_case_option

lemma insert_customer_error: "insert_customer_mapping r d = Inl exc \<Longrightarrow> \<not> is_handler_error exc"
  by (cases exc) (simp_all add: insert_customer_mapping_def split: if_splits)

lemma insert_subscription_error: "insert_subscription_mapping r d = Inl exc \<Longrightarrow> \<not> is_handler_error exc"
  by (cases exc) (simp_all add: insert_subscription_mapping_def split: if_splits)

locale event_handler =
  fixes handler :: "env \<Rightarrow> settings \<Rightarrow> 'm sdk \<Rightarrow> string \<Rightarrow> pydict \<Rightarrow> ('m, 'a) session_act"
  assumes handler_keeps_ok: "framed keeps_ok (handler e cfg sdk i p)"
    and handler_grows: "framed grows (handler e cfg sdk i p)"
    and handler_records: "framed records (handler e cfg sdk i p)"
    and handler_atomic: "atomic (handler e cfg sdk i p)"
begin

lemma db_ok_after: "handler e cfg sdk i p s = (r, t) \<Longrightarrow> db_ok (tx s) \<Longrightarrow> db_ok (tx t)"
  using handler_keeps_ok by (metis framedD keeps_ok_def)

lemma db_grows_after: "handler e cfg sdk i p s = (r, t) \<Longrightarrow> db_grows (tx s) (tx t)"
  using handler_grows by (metis framedD grows_def)

lemma failure_leaves_db: "handler e cfg sdk i p s = (Inl exc, t) \<Longrightarrow> tx t = tx s"
  using atomicD_Inl [OF handler_atomic] by simp

lemma handler_error_leaves_session:
  "handler e cfg sdk i p s = (Inl (HandlerError x), t) \<Longrightarrow> deactivated t = deactivated s"
  using atomicD_Inl [OF handler_atomic] by fastforce

lemma success_leaves_session: "handler e cfg sdk i p s = (Inr r, t) \<Longrightarrow> deactivated t = deactivated s"
  by (rule atomicD_Inr [OF handler_atomic])

end

end
