(* ===== verification/Sample.thy ===== *)
theory Sample
  imports Session
begin

text \<open>
  One concrete configuration, clock reading, SDK and payload, on which the witnesses of
  the properties evaluate the model.
\<close>

definition sample_settings :: settings where
  "sample_settings =
     \<lparr>stripe_webhook_secret = ''whsec_1'', metronome_api_key = ''key'',
      database_url = ''postgresql+asyncpg://db/sidecar'',
      metronome_default_rate_card_id = ''0a1b2c3d-0000-4000-8000-00000000abcd'', log_level = ''INFO'',
      worker_poll_interval_seconds = 2, worker_max_attempts = 3, worker_retry_base_seconds = 2,
      worker_retry_cap_seconds = 3600, metronome_base_url = [], port = 8000\<rparr>"

definition sample_env :: env where
  "sample_env =
     \<lparr>claim_now = 1000000, tx_start = 1000000, handler_now = 1000001, finish_now = 1000002,
      perf_start = 0, perf_end = 1 / 2, draw = 1 / 2, traceback_text = ''Traceback''\<rparr>"

definition sample_response :: "string \<Rightarrow> sdk_reply" where
  "sample_response i = Response (PObj [(''data'', PObj [(''id'', PStr i)])])"

text \<open>An SDK that answers every request with one id, and one that answers with an error.\<close>

definition answering_sdk :: "string \<Rightarrow> unit sdk" where
  "answering_sdk i c m = (sample_response i, m)"

definition failing_sdk :: "sdk_error \<Rightarrow> unit sdk" where
  "failing_sdk x c m = (Raises x, m)"

definition event_of :: "pydict \<Rightarrow> pydict" where
  "event_of obj = [(''data'', PDict [(''object'', PDict obj)])]"

definition sample_customer :: pydict where
  "sample_customer = [(''id'', PStr ''cus_1''), (''name'', PStr '' Acme ''), (''email'', PStr ''a@b'')]"

definition sample_subscription :: pydict where
  "sample_subscription =
     [(''id'', PStr ''sub_1''), (''customer'', PStr ''cus_1''),
      (''items'', PDict [(''data'', PList [PDict
        [(''price'', PDict [(''id'', PStr ''price_REPLACE_ME_startup'')]),
         (''current_period_start'', PInt 1700000000)]])])]"

definition sample_mapping :: customer_mapping where
  "sample_mapping =
     \<lparr>cm_stripe_customer_id = ''cus_1'', cm_metronome_customer_id = ''m_1'', cm_created_at = 5, cm_updated_at = 5\<rparr>"

definition empty_db :: db where
  "empty_db = \<lparr>webhook_events = [], customer_mappings = [], subscription_mappings = []\<rparr>"

definition mapped_db :: db where
  "mapped_db = empty_db\<lparr>customer_mappings := [sample_mapping]\<rparr>"

definition fresh_ctx :: "db \<Rightarrow> 'm \<Rightarrow> 'm ctx" where
  "fresh_ctx d m = \<lparr>tx = d, deactivated = False, api = m, calls = [], log = []\<rparr>"

definition sample_event :: "string \<Rightarrow> pydict \<Rightarrow> webhook_event" where
  "sample_event ty obj =
     \<lparr>stripe_event_id = ''evt_1'', event_type = ty, payload = event_of obj, status = STATUS_PENDING,
      attempts = 0, last_error = None, received_at = 5, next_attempt_at = 5, processed_at = None\<rparr>"

lemmas sample_defs = sample_settings_def sample_env_def sample_response_def answering_sdk_def failing_sdk_def
  event_of_def sample_customer_def sample_subscription_def sample_mapping_def empty_db_def mapped_db_def
  fresh_ctx_def sample_event_def

end
