(* ===== verification/MetronomeClient.thy ===== *)
theory MetronomeClient
  imports Sample
begin

text \<open>
  \<open>metronome_client.py\<close>: the four operations of the wrapper around the Metronome SDK,
  the split of the SDK's failures into transient and permanent ones, and the
  recovery of a contract after a 409.
\<close>

section \<open>Errors\<close>

definition status_text :: "int option \<Rightarrow> string" where
  "status_text st = (case st of None \<Rightarrow> ''None'' | Some n \<Rightarrow> show_int n)"

definition classify_status_error :: "bool \<Rightarrow> int option \<Rightarrow> string \<Rightarrow> metronome_error" where
  "classify_status_error is_rate_limit code text =
     (if is_rate_limit \<or> code = Some 429
      then TransientMetronomeError (''Metronome rate limited (HTTP '' @ status_text code @ ''): '' @ text)
      else case code of
        Some n \<Rightarrow>
          if 500 \<le> n \<and> n < 600
          then TransientMetronomeError (''Metronome server error (HTTP '' @ status_text code @ ''): '' @ text)
          else PermanentMetronomeError (''Metronome rejected request (HTTP '' @ status_text code @ ''): '' @ text) code
      | None \<Rightarrow> PermanentMetronomeError (''Metronome rejected request (HTTP '' @ status_text code @ ''): '' @ text) None)"

text \<open>The \<open>status_code\<close> of an \<open>APIStatusError\<close>; \<open>None\<close> for any other exception.\<close>

fun sdk_status :: "sdk_error \<Rightarrow> int option" where
  "sdk_status (APIStatusError _ code _) = code"
| "sdk_status _ = None"

text \<open>The \<open>except\<close> clauses that every operation ends with.\<close>

fun sdk_exception :: "sdk_error \<Rightarrow> exn" where
  "sdk_exception (APIStatusError rate_limit code text) =
     MetronomeError (classify_status_error rate_limit code text)"
| "sdk_exception (APIConnectionError text) = MetronomeError (TransientMetronomeError text)"
| "sdk_exception (APITimeoutError text) = MetronomeError (TransientMetronomeError text)"
| "sdk_exception (APIError text) = MetronomeError (TransientMetronomeError text)"
| "sdk_exception (ForeignError type_name text) = OtherException type_name text"

section \<open>Responses\<close>

text \<open>\<open>x or y\<close>.\<close>

definition py_or :: "pyval \<Rightarrow> pyval \<Rightarrow> pyval" where
  "py_or x y = (if truthy x then x else y)"

fun dict_item :: "pyval \<Rightarrow> string \<Rightarrow> pyval" where
  "dict_item (PDict d) k = dict_get d k"
| "dict_item _ k = PNone"

text \<open>The id by attribute access, then by mapping access.\<close>

definition id_by_attribute :: "pyval \<Rightarrow> string option" where
  "id_by_attribute response =
     (let data = get_attribute response ''data'' in
      if data = PNone then None
      else nonempty_str (py_or (get_attribute data ''id'') (dict_item data ''id'')))"

definition id_by_mapping :: "pyval \<Rightarrow> string option" where
  "id_by_mapping response =
     (case response of
        PDict d \<Rightarrow> nonempty_str (dict_item (py_or (dict_get d ''data'') (PDict [])) ''id'')
      | _ \<Rightarrow> None)"

fun type_name :: "pyval \<Rightarrow> string" where
  "type_name PNone = ''NoneType''"
| "type_name (PBool _) = ''bool''"
| "type_name (PInt _) = ''int''"
| "type_name (PFloat _) = ''float''"
| "type_name (PNonFinite _) = ''float''"
| "type_name (PStr _) = ''str''"
| "type_name (PList _) = ''list''"
| "type_name (PDict _) = ''dict''"
| "type_name (PObj _) = ''object''"

definition extract_id :: "pyval \<Rightarrow> ('m, string) session_act" where
  "extract_id response =
     (case id_by_attribute response of
        Some cid \<Rightarrow> ret cid
      | None \<Rightarrow>
          (case id_by_mapping response of
             Some cid \<Rightarrow> ret cid
           | None \<Rightarrow>
               bnd (log_at ERROR ''metronome_response_missing_id''
                     [(''event'', PStr ''metronome_response_missing_id''),
                      (''response_type'', PStr (type_name response))])
                 (\<lambda>_. raising (MetronomeError (PermanentMetronomeError
                    ''Metronome response did not contain `data.id`.'' None)))))"

definition iter_contracts :: "pyval \<Rightarrow> pyval list" where
  "iter_contracts response =
     (case get_attribute response ''data'' of
        PList l \<Rightarrow> l
      | _ \<Rightarrow> (case dict_item response ''data'' of PList l \<Rightarrow> l | _ \<Rightarrow> []))"

fun get_attr :: "pyval \<Rightarrow> string \<Rightarrow> pyval" where
  "get_attr (PDict d) name = dict_get d name"
| "get_attr obj name = get_attribute obj name"

text \<open>The loop over the listed contracts.\<close>

fun first_contract :: "string \<Rightarrow> pyval list \<Rightarrow> string option" where
  "first_contract key [] = None"
| "first_contract key (contract # rest) =
     (if get_attr contract ''uniqueness_key'' = PStr key
      then (case nonempty_str (get_attr contract ''id'') of
              Some contract_id \<Rightarrow> Some contract_id
            | None \<Rightarrow> first_contract key rest)
      else first_contract key rest)"

section \<open>Operations\<close>

record created_contract =
  metronome_contract_id :: string
  via_uniqueness_key_recovery :: bool

definition create_customer :: "'m sdk \<Rightarrow> pydict \<Rightarrow> ('m, string) session_act" where
  "create_customer sdk request_body =
     bnd (call_sdk sdk (CustomersCreate request_body)) (\<lambda>reply.
       case reply of Raises e \<Rightarrow> raising (sdk_exception e) | Response response \<Rightarrow> extract_id response)"

definition set_customer_name :: "'m sdk \<Rightarrow> string \<Rightarrow> pyval \<Rightarrow> ('m, unit) session_act" where
  "set_customer_name sdk metronome_customer_id name =
     bnd (call_sdk sdk (CustomersSetName metronome_customer_id name)) (\<lambda>reply.
       case reply of Raises e \<Rightarrow> raising (sdk_exception e) | Response _ \<Rightarrow> ret ())"

definition find_contract_by_uniqueness_key ::
  "'m sdk \<Rightarrow> string \<Rightarrow> string \<Rightarrow> ('m, string) session_act" where
  "find_contract_by_uniqueness_key sdk metronome_customer_id key =
     bnd (call_sdk sdk (ContractsList metronome_customer_id)) (\<lambda>reply.
       case reply of
         Raises e \<Rightarrow> raising (sdk_exception e)
       | Response response \<Rightarrow>
           (case first_contract key (iter_contracts response) of
              Some contract_id \<Rightarrow> ret contract_id
            | None \<Rightarrow> raising (MetronomeError (ContractNotFoundError
                (''No contract with uniqueness_key='' @ py_repr key @ '' found on '' @
                 ''Metronome customer '' @ py_repr metronome_customer_id @ ''.'')))))"

text \<open>The branch of \<open>create_contract\<close> that a 409 takes.\<close>

definition recover_contract :: "'m sdk \<Rightarrow> pydict \<Rightarrow> ('m, created_contract) session_act" where
  "recover_contract sdk request_body =
     (case (dict_get request_body ''customer_id'', dict_get request_body ''uniqueness_key'') of
        (PStr customer_id, PStr key) \<Rightarrow>
          bnd (find_contract_by_uniqueness_key sdk customer_id key) (\<lambda>existing_id.
          bnd (log_at INFO ''metronome_contract_recovered_via_uniqueness_key''
                [(''event'', PStr ''metronome_contract_recovered_via_uniqueness_key''),
                 (''metronome_customer_id'', PStr customer_id),
                 (''metronome_contract_id'', PStr existing_id),
                 (''uniqueness_key'', PStr key)]) (\<lambda>_.
          ret \<lparr>metronome_contract_id = existing_id, via_uniqueness_key_recovery = True\<rparr>))
      | _ \<Rightarrow> raising (MetronomeError (PermanentMetronomeError
          (''Metronome returned 409 but the request body is '' @
           ''missing customer_id or uniqueness_key '' @ em_dash @ '' cannot '' @
           ''recover the existing contract ID.'') (Some 409))))"

definition create_contract :: "'m sdk \<Rightarrow> pydict \<Rightarrow> ('m, created_contract) session_act" where
  "create_contract sdk request_body =
     bnd (call_sdk sdk (ContractsCreate request_body)) (\<lambda>reply.
       case reply of
         Raises e \<Rightarrow>
           if sdk_status e = Some 409 then recover_contract sdk request_body
           else raising (sdk_exception e)
       | Response response \<Rightarrow>
           bnd (extract_id response) (\<lambda>contract_id.
             ret \<lparr>metronome_contract_id = contract_id, via_uniqueness_key_recovery = False\<rparr>))"

section \<open>Frames\<close>

text \<open>The client works on the SDK and the log: the database and the session stay as they are.\<close>

named_theorems client_same_tx \<open>the operations of the client leave the session's database alone\<close>
named_theorems client_records \<open>the operations of the client only add calls and log lines\<close>

lemma extract_id_same_tx [client_same_tx]: "framed same_tx (extract_id r)"
  and extract_id_records [client_records]: "framed records (extract_id r)"
  unfolding extract_id_def
  by (auto split: option.split intro!: same_tx.frame_rules records.frame_rules basic_same_tx basic_records)

lemma create_customer_same_tx [client_same_tx]: "framed same_tx (create_customer sdk b)"
  and create_customer_records [client_records]: "framed records (create_customer sdk b)"
  unfolding create_customer_def
  by (auto split: sdk_reply.split intro!: same_tx.frame_rules records.frame_rules basic_same_tx basic_records
      client_same_tx client_records)

lemma set_customer_name_same_tx [client_same_tx]: "framed same_tx (set_customer_name sdk c n)"
  and set_customer_name_records [client_records]: "framed records (set_customer_name sdk c n)"
  unfolding set_customer_name_def
  by (auto split: sdk_reply.split intro!: same_tx.frame_rules records.frame_rules basic_same_tx basic_records)

lemma find_contract_same_tx [client_same_tx]: "framed same_tx (find_contract_by_uniqueness_key sdk c k)"
  and find_contract_records [client_records]: "framed records (find_contract_by_uniqueness_key sdk c k)"
  unfolding find_contract_by_uniqueness_key_def
  by (auto split: sdk_reply.split option.split intro!: same_tx.frame_rules records.frame_rules basic_same_tx basic_records)

lemma recover_contract_same_tx [client_same_tx]: "framed same_tx (recover_contract sdk b)"
  and recover_contract_records [client_records]: "framed records (recover_contract sdk b)"
  unfolding recover_contract_def
  by (auto split: pyval.split intro!: same_tx.frame_rules records.frame_rules basic_same_tx basic_records
      client_same_tx client_records)

lemma create_contract_same_tx [client_same_tx]: "framed same_tx (create_contract sdk b)"
  and create_contract_records [client_records]: "framed records (create_contract sdk b)"
  unfolding create_contract_def
  by (auto split: sdk_reply.split intro!: same_tx.frame_rules records.frame_rules basic_same_tx basic_records
      client_same_tx client_records)

lemma first_contract_Some:
  "first_contract key cs = Some cid \<Longrightarrow>
     cid \<noteq> [] \<and> (\<exists>c \<in> set cs. get_attr c ''uniqueness_key'' = PStr key \<and> get_attr c ''id'' = PStr cid)"
  by (induction cs) (auto split: if_splits option.splits)

lemma first_contract_None:
  "first_contract key cs = None \<longleftrightarrow>
     (\<forall>c \<in> set cs. get_attr c ''uniqueness_key'' = PStr key \<longrightarrow> nonempty_str (get_attr c ''id'') = None)"
  by (induction cs) (auto split: if_splits option.splits)

lemma id_by_attribute_Some: "id_by_attribute r = Some cid \<Longrightarrow> cid \<noteq> []"
  by (auto simp: id_by_attribute_def Let_def split: if_splits)

lemma id_by_mapping_Some: "id_by_mapping r = Some cid \<Longrightarrow> cid \<noteq> []"
  by (auto simp: id_by_mapping_def split: pyval.splits)

text \<open>The id of a response: not empty, and no effect when there is one.\<close>

definition response_id :: "pyval \<Rightarrow> string option" where
  "response_id r = (case id_by_attribute r of Some cid \<Rightarrow> Some cid | None \<Rightarrow> id_by_mapping r)"

lemma response_id_not_Nil: "response_id r = Some cid \<Longrightarrow> cid \<noteq> []"
  by (auto simp: response_id_def id_by_attribute_Some id_by_mapping_Some split: option.splits)

lemma extract_id_Inr: "extract_id r s = (Inr cid, t) \<longleftrightarrow> response_id r = Some cid \<and> t = s"
  by (auto simp: extract_id_def response_id_def ret_def bnd_eq_Inr raising_def split: option.splits)

lemma extract_id_Inl:
  "extract_id r s = (Inl exc, t) \<Longrightarrow>
     response_id r = None \<and> exc = MetronomeError (PermanentMetronomeError
       ''Metronome response did not contain `data.id`.'' None) \<and> calls t = calls s \<and> api t = api s"
  by (auto simp: extract_id_def response_id_def ret_def bnd_eq_Inl raising_def log_at_def modifies_def
      split: option.splits)

section \<open>A server that honours uniqueness keys\<close>

text \<open>
  What the wrapper relies on of the Metronome API, as the docstring of \<open>create_contract\<close>
  quotes it: a creation whose uniqueness key is taken fails. \<open>held m\<close> are the contracts of
  server state \<open>m\<close> (customer, uniqueness key, contract id). A creation that fails may do so
  with any error, a 409, a timeout, a rate limit or a server error, and has created the
  contract (the response of a request that succeeded can be lost) or not; one that creates
  has a key that no contract holds, whatever its customer, and if it returns an id, that of
  the contract. Listing changes nothing; it may fail, be incomplete or show anything else, but
  what it shows with a key and an id is a contract of this customer. Other calls may do
  anything.
\<close>

definition contract_keys :: "(string \<times> string \<times> string) list \<Rightarrow> string list" where
  "contract_keys cs = map (\<lambda>c. fst (snd c)) cs"

definition honours_uniqueness :: "'m sdk \<Rightarrow> ('m \<Rightarrow> (string \<times> string \<times> string) list) \<Rightarrow> bool" where
  "honours_uniqueness sdk held \<longleftrightarrow>
     (\<forall>m m' reply b customer key.
        dict_get b ''customer_id'' = PStr customer \<longrightarrow> dict_get b ''uniqueness_key'' = PStr key \<longrightarrow>
        sdk (ContractsCreate b) m = (reply, m') \<longrightarrow>
        (\<exists>x. reply = Raises x) \<and> held m' = held m \<or>
        key \<notin> set (contract_keys (held m)) \<and>
          (\<exists>i. held m' = held m @ [(customer, key, i)] \<and>
             (\<forall>r. reply = Response r \<longrightarrow> response_id r = None \<or> response_id r = Some i))) \<and>
     (\<forall>m m' reply customer.
        sdk (ContractsList customer) m = (reply, m') \<longrightarrow>
        held m' = held m \<and>
        (\<forall>r k key i. reply = Response r \<longrightarrow> k \<in> set (iter_contracts r) \<longrightarrow>
           get_attr k ''uniqueness_key'' = PStr key \<longrightarrow> get_attr k ''id'' = PStr i \<longrightarrow>
           (customer, key, i) \<in> set (held m)))"

text \<open>The contracts with one key.\<close>

definition count_held :: "(string \<times> string \<times> string) list \<Rightarrow> string \<Rightarrow> nat" where
  "count_held cs key = length (filter (\<lambda>c. fst (snd c) = key) cs)"

lemma contract_keys_simps [simp]:
  "contract_keys [] = []" "contract_keys (c # cs) = fst (snd c) # contract_keys cs"
  "contract_keys (cs @ ds) = contract_keys cs @ contract_keys ds"
  by (simp_all add: contract_keys_def)

lemma held_key: "(customer, key, i) \<in> set cs \<Longrightarrow> key \<in> set (contract_keys cs)"
  by (force simp: contract_keys_def)

lemma count_held_0: "key \<notin> set (contract_keys cs) \<longleftrightarrow> count_held cs key = 0"
  by (auto simp: contract_keys_def count_held_def filter_empty_conv)

lemma count_held_distinct: "distinct (contract_keys cs) \<Longrightarrow> count_held cs key \<le> 1"
proof (induction cs)
  case (Cons c cs)
  then have "key = fst (snd c) \<Longrightarrow> count_held cs key = 0" by (simp flip: count_held_0)
  with Cons show ?case by (auto simp: count_held_def)
qed (simp add: count_held_def)

lemma one_held:
  assumes "count_held cs key \<le> 1" and "(customer, key, i) \<in> set cs" "(other, key, j) \<in> set cs"
  shows "i = j"
proof -
  have "(customer, key, i) \<in> set (filter (\<lambda>c. fst (snd c) = key) cs)"
    "(other, key, j) \<in> set (filter (\<lambda>c. fst (snd c) = key) cs)" using assms(2,3) by simp_all
  with assms(1) show ?thesis unfolding count_held_def
    by (cases "filter (\<lambda>c. fst (snd c) = key) cs") auto
qed

text \<open>One creation, whatever its outcome, against such a server.\<close>

lemma honours_create:
  assumes "honours_uniqueness sdk held" and "sdk (ContractsCreate b) m = (reply, m')"
    and "dict_get b ''customer_id'' = PStr customer" "dict_get b ''uniqueness_key'' = PStr key"
  obtains (refused) x where "reply = Raises x" "held m' = held m"
  | (created) i where "key \<notin> set (contract_keys (held m))" "held m' = held m @ [(customer, key, i)]"
      "\<And>r. reply = Response r \<Longrightarrow> response_id r = None \<or> response_id r = Some i"
proof -
  have "(\<exists>x. reply = Raises x) \<and> held m' = held m \<or>
    key \<notin> set (contract_keys (held m)) \<and>
      (\<exists>i. held m' = held m @ [(customer, key, i)] \<and>
         (\<forall>r. reply = Response r \<longrightarrow> response_id r = None \<or> response_id r = Some i))"
    using assms(1) [unfolded honours_uniqueness_def, THEN conjunct1, rule_format, OF assms(3,4,2)] .
  then show thesis using refused created by blast
qed

lemma honours_list:
  assumes "honours_uniqueness sdk held" and "sdk (ContractsList customer) m = (reply, m')"
  shows "held m' = held m"
    and "reply = Response r \<Longrightarrow> k \<in> set (iter_contracts r) \<Longrightarrow> get_attr k ''uniqueness_key'' = PStr key \<Longrightarrow>
      get_attr k ''id'' = PStr i \<Longrightarrow> (customer, key, i) \<in> set (held m)"
  using assms unfolding honours_uniqueness_def by blast+

text \<open>A server that fails some requests before it looks at them still honours the keys.\<close>

definition throttled :: "(sdk_call \<Rightarrow> 'm \<Rightarrow> sdk_error option) \<Rightarrow> 'm sdk \<Rightarrow> 'm sdk" where
  "throttled busy sdk q m = (case busy q m of Some x \<Rightarrow> (Raises x, m) | None \<Rightarrow> sdk q m)"

lemma throttled_cases:
  assumes "throttled busy sdk q m = (reply, m')"
  obtains (busy) x where "reply = Raises x" "m' = m" | (through) "sdk q m = (reply, m')"
  using assms by (auto simp: throttled_def split: option.splits)

lemma throttled_honours:
  assumes "honours_uniqueness sdk held"
  shows "honours_uniqueness (throttled busy sdk) held"
  unfolding honours_uniqueness_def
proof (intro conjI allI impI)
  fix m m' reply b customer key
  assume body: "dict_get b ''customer_id'' = PStr customer" "dict_get b ''uniqueness_key'' = PStr key"
    and "throttled busy sdk (ContractsCreate b) m = (reply, m')"
  from this(3) show "(\<exists>x. reply = Raises x) \<and> held m' = held m \<or>
    key \<notin> set (contract_keys (held m)) \<and>
      (\<exists>i. held m' = held m @ [(customer, key, i)] \<and>
         (\<forall>r. reply = Response r \<longrightarrow> response_id r = None \<or> response_id r = Some i))"
  proof (cases rule: throttled_cases)
    case through
    from assms [unfolded honours_uniqueness_def, THEN conjunct1, rule_format, OF body this] show ?thesis .
  qed simp
next
  fix m m' reply customer
  assume "throttled busy sdk (ContractsList customer) m = (reply, m')"
  then show "held m' = held m"
    by (cases rule: throttled_cases) (use honours_list(1) [OF assms] in auto)
next
  fix m m' reply customer r k key i
  assume "throttled busy sdk (ContractsList customer) m = (reply, m')"
    and r: "reply = Response r" "k \<in> set (iter_contracts r)" "get_attr k ''uniqueness_key'' = PStr key"
      "get_attr k ''id'' = PStr i"
  from this(1) show "(customer, key, i) \<in> set (held m)"
    by (cases rule: throttled_cases) (use honours_list(2) [OF assms _ r] r in auto)
qed

lemma find_contract_held:
  assumes sdk: "honours_uniqueness sdk held" and run: "find_contract_by_uniqueness_key sdk customer key s = (r, t)"
  shows "held (api t) = held (api s)" and "r = Inr i \<Longrightarrow> (customer, key, i) \<in> set (held (api s))"
proof -
  obtain reply m' where call: "sdk (ContractsList customer) (api s) = (reply, m')"
    by (cases "sdk (ContractsList customer) (api s)")
  note server = honours_list [OF sdk call]
  have "api t = m'" and found: "\<And>i. r = Inr i \<Longrightarrow>
      \<exists>q. reply = Response q \<and> first_contract key (iter_contracts q) = Some i"
    using run call
    by (auto simp: find_contract_by_uniqueness_key_def bnd_def call_sdk_def act_defs
        split: sdk_reply.splits option.splits)
  then show "held (api t) = held (api s)" using server(1) by simp
  show "(customer, key, i) \<in> set (held (api s))" if "r = Inr i"
    using found [OF that] server(2) first_contract_Some by blast
qed

lemma recover_contract_held:
  assumes sdk: "honours_uniqueness sdk held" and run: "recover_contract sdk b s = (r, t)"
    and body: "dict_get b ''customer_id'' = PStr customer" "dict_get b ''uniqueness_key'' = PStr key"
  shows "held (api t) = held (api s)"
    and "r = Inr c \<Longrightarrow> (customer, key, metronome_contract_id c) \<in> set (held (api s)) \<and> via_uniqueness_key_recovery c"
proof -
  obtain q u where find: "find_contract_by_uniqueness_key sdk customer key s = (q, u)"
    by (cases "find_contract_by_uniqueness_key sdk customer key s")
  note found = find_contract_held [OF sdk find]
  show "held (api t) = held (api s)"
    using run body find found by (cases q) (auto simp: recover_contract_def act_simps log_at_def)
  show "r = Inr c \<Longrightarrow> (customer, key, metronome_contract_id c) \<in> set (held (api s)) \<and> via_uniqueness_key_recovery c"
    using run body find found by (cases q) (auto simp: recover_contract_def act_simps log_at_def)
qed

text \<open>What \<open>create_contract\<close> leaves on the server, on every outcome.\<close>

lemma create_contract_held:
  assumes sdk: "honours_uniqueness sdk held" and run: "create_contract sdk b s = (r, t)"
    and body: "dict_get b ''customer_id'' = PStr customer" "dict_get b ''uniqueness_key'' = PStr key"
  shows "held (api t) = held (api s) \<or>
      key \<notin> set (contract_keys (held (api s))) \<and> (\<exists>i. held (api t) = held (api s) @ [(customer, key, i)])"
    and "r = Inr c \<Longrightarrow> (customer, key, metronome_contract_id c) \<in> set (held (api t)) \<and>
      (\<not> via_uniqueness_key_recovery c \<longrightarrow> key \<notin> set (contract_keys (held (api s))))"
proof -
  obtain reply m' where call: "sdk (ContractsCreate b) (api s) = (reply, m')"
    by (cases "sdk (ContractsCreate b) (api s)")
  let ?s = "s\<lparr>api := m', calls := calls s @ [ContractsCreate b]\<rparr>"
  have server: "held m' = held (api s) \<or>
      key \<notin> set (contract_keys (held (api s))) \<and> (\<exists>i. held m' = held (api s) @ [(customer, key, i)])"
    by (rule honours_create [OF sdk call body]) auto
  have "held (api t) = held m' \<and> (r = Inr c \<longrightarrow> (customer, key, metronome_contract_id c) \<in> set (held (api t)) \<and>
      (\<not> via_uniqueness_key_recovery c \<longrightarrow> key \<notin> set (contract_keys (held (api s)))))"
  proof (cases reply)
    case (Response q)
    obtain p u where id: "extract_id q ?s = (p, u)" by (cases "extract_id q ?s")
    have u: "api u = m'" using id by (cases p) (auto simp: extract_id_Inr extract_id_Inl)
    obtain i where new: "key \<notin> set (contract_keys (held (api s)))" "held m' = held (api s) @ [(customer, key, i)]"
      "response_id q = None \<or> response_id q = Some i"
      using honours_create [OF sdk call body] Response by (metis sdk_reply.distinct(1))
    have "api t = api u" and "r = Inr c \<Longrightarrow> p = Inr (metronome_contract_id c)"
      using run call Response id by (auto simp: create_contract_def bnd_def call_sdk_def ret_def split: sum.splits)
    with id u new show ?thesis by (auto simp: extract_id_Inr)
  next
    case (Raises x)
    show ?thesis
    proof (cases "sdk_status x = Some 409")
      case True
      with run call Raises have "recover_contract sdk b ?s = (r, t)"
        by (simp add: create_contract_def bnd_def call_sdk_def)
      from recover_contract_held [OF sdk this body] show ?thesis by auto
    next
      case False
      with run call Raises show ?thesis by (auto simp: create_contract_def bnd_def call_sdk_def raising_def)
    qed
  qed
  with server show "held (api t) = held (api s) \<or>
      key \<notin> set (contract_keys (held (api s))) \<and> (\<exists>i. held (api t) = held (api s) @ [(customer, key, i)])"
    and "r = Inr c \<Longrightarrow> (customer, key, metronome_contract_id c) \<in> set (held (api t)) \<and>
      (\<not> via_uniqueness_key_recovery c \<longrightarrow> key \<notin> set (contract_keys (held (api s))))"
    by auto
qed

text \<open>A server with these laws: it numbers its contracts.\<close>

type_synonym contract_store = "(string \<times> string \<times> int) list"

definition numbered :: "string \<times> string \<times> int \<Rightarrow> string \<times> string \<times> string" where
  "numbered c = (fst c, fst (snd c), ''con_'' @ show_int (snd (snd c)))"

definition store_contracts :: "contract_store \<Rightarrow> (string \<times> string \<times> string) list" where
  "store_contracts m = map numbered m"

definition listed_contract :: "string \<times> string \<times> string \<Rightarrow> pyval" where
  "listed_contract c = PObj [(''uniqueness_key'', PStr (fst (snd c))), (''id'', PStr (snd (snd c)))]"

definition store_create :: "string \<Rightarrow> string \<Rightarrow> contract_store \<Rightarrow> sdk_reply \<times> contract_store" where
  "store_create customer key m =
     (if key \<in> set (contract_keys (store_contracts m))
      then (Raises (APIStatusError False (Some 409) ''conflict''), m)
      else (sample_response (''con_'' @ show_int (int (length m))), m @ [(customer, key, int (length m))]))"

fun store_sdk :: "contract_store sdk" where
  "store_sdk (ContractsCreate b) m =
     (case (dict_get b ''customer_id'', dict_get b ''uniqueness_key'') of
        (PStr customer, PStr key) \<Rightarrow> store_create customer key m
      | _ \<Rightarrow> (Raises (APIStatusError False (Some 400) ''bad request''), m))"
| "store_sdk (ContractsList customer) m =
     (Response (PObj [(''data'', PList (map listed_contract
        (filter (\<lambda>c. fst c = customer) (store_contracts m))))]), m)"
| "store_sdk c m = (sample_response ''m_1'', m)"

lemma store_sdk_honours: "honours_uniqueness store_sdk store_contracts"
proof -
  have "response_id (PObj [(''data'', PObj [(''id'', PStr i)])]) = Some i" if "i \<noteq> []" for i
    using that by (simp add: response_id_def id_by_attribute_def py_or_def Let_def)
  then have created: "(\<exists>x. reply = Raises x) \<and> store_contracts m' = store_contracts m \<or>
      key \<notin> set (contract_keys (store_contracts m)) \<and>
        (\<exists>i. store_contracts m' = store_contracts m @ [(customer, key, i)] \<and>
           (\<forall>r. reply = Response r \<longrightarrow> response_id r = None \<or> response_id r = Some i))"
    if "store_create customer key m = (reply, m')" for customer key m m' reply
    using that by (auto simp: store_create_def sample_response_def store_contracts_def numbered_def split: if_splits)
  have listed: "(customer, key, i) \<in> set cs"
    if "k \<in> listed_contract ` {c \<in> set cs. fst c = customer}"
      "get_attr k ''uniqueness_key'' = PStr key" "get_attr k ''id'' = PStr i" for k key i customer cs
    using that by (auto simp: listed_contract_def)
  show ?thesis
    unfolding honours_uniqueness_def
    by (intro conjI allI impI; simp add: iter_contracts_def created) (use listed in blast)
qed

section \<open>Properties\<close>

text \<open>C25: where the contract id comes from. When \<open>create_contract\<close> returns, the id is not empty,
  the database is untouched, and either the server answered the one creation request with
  that id, or it answered with a 409, the body names a customer and a uniqueness key, and
  the id is that of a listed contract of this customer with exactly this key.\<close>

theorem create_contract_provenance:
  assumes "create_contract sdk b s = (Inr c, t)"
  shows "metronome_contract_id c \<noteq> [] \<and> tx t = tx s \<and> deactivated t = deactivated s \<and>
    (\<not> via_uniqueness_key_recovery c \<and> calls t = calls s @ [ContractsCreate b] \<and>
       (\<exists>r. fst (sdk (ContractsCreate b) (api s)) = Response r \<and> response_id r = Some (metronome_contract_id c)) \<or>
     via_uniqueness_key_recovery c \<and>
       (\<exists>x customer key r.
          fst (sdk (ContractsCreate b) (api s)) = Raises x \<and> sdk_status x = Some 409 \<and>
          dict_get b ''customer_id'' = PStr customer \<and> dict_get b ''uniqueness_key'' = PStr key \<and>
          calls t = calls s @ [ContractsCreate b, ContractsList customer] \<and>
          fst (sdk (ContractsList customer) (snd (sdk (ContractsCreate b) (api s)))) = Response r \<and>
          (\<exists>k \<in> set (iter_contracts r). get_attr k ''uniqueness_key'' = PStr key \<and>
             get_attr k ''id'' = PStr (metronome_contract_id c))))"
proof -
  have frame: "tx t = tx s" "deactivated t = deactivated s"
    using framedD [OF create_contract_same_tx assms] by (simp_all add: same_tx_def)
  obtain reply m where call: "sdk (ContractsCreate b) (api s) = (reply, m)" by (cases "sdk (ContractsCreate b) (api s)")
  let ?s = "s\<lparr>api := m, calls := calls s @ [ContractsCreate b]\<rparr>"
  show ?thesis
  proof (cases reply)
    case (Response r)
    with assms call have "\<exists>i. extract_id r ?s = (Inr i, t) \<and> c = \<lparr>metronome_contract_id = i, via_uniqueness_key_recovery = False\<rparr>"
      by (auto simp: create_contract_def bnd_eq_Inr call_sdk_def ret_def)
    with Response call frame show ?thesis by (auto simp: extract_id_Inr response_id_not_Nil)
  next
    case (Raises x)
    with assms call have x: "sdk_status x = Some 409" "recover_contract sdk b ?s = (Inr c, t)"
      by (auto simp: create_contract_def bnd_eq_Inr call_sdk_def raising_def split: if_splits)
    then obtain customer key where body: "dict_get b ''customer_id'' = PStr customer" "dict_get b ''uniqueness_key'' = PStr key"
      by (auto simp: recover_contract_def raising_def split: pyval.splits)
    obtain reply2 m2 where list: "sdk (ContractsList customer) m = (reply2, m2)" by (cases "sdk (ContractsList customer) m")
    with x body obtain r where "reply2 = Response r" "first_contract key (iter_contracts r) = Some (metronome_contract_id c)"
      "via_uniqueness_key_recovery c" "calls t = calls s @ [ContractsCreate b, ContractsList customer]"
      by (auto simp: recover_contract_def find_contract_by_uniqueness_key_def bnd_eq_Inr call_sdk_def raising_def
          ret_def log_at_def modifies_def split: sdk_reply.splits option.splits)
    with Raises call x body list frame show ?thesis by (auto dest: first_contract_Some)
  qed
qed

text \<open>C8: one contract per uniqueness key. On a server where a creation under a taken key fails,
  with whatever error, creating a contract twice from the same body, whatever happened the
  first time (success, a rejection, a timeout, a response that was lost) and whatever the
  caller did with the outcome, leaves at most one contract with this key, touches no other
  contract, and two successes return the same id, the second one by recovery.\<close>

theorem contract_creation_is_idempotent:
  assumes "honours_uniqueness sdk held"
    and "dict_get b ''customer_id'' = PStr customer" "dict_get b ''uniqueness_key'' = PStr key"
    and "count_held (held (api s)) key \<le> 1"
    and "create_contract sdk b s = (r1, t)" and "api u = api t" and "create_contract sdk b u = (r2, v)"
  shows "count_held (held (api v)) key \<le> 1 \<and>
    (held (api v) = held (api s) \<or> (\<exists>i. held (api v) = held (api s) @ [(customer, key, i)])) \<and>
    (\<forall>c1 c2. r1 = Inr c1 \<and> r2 = Inr c2 \<longrightarrow>
       metronome_contract_id c2 = metronome_contract_id c1 \<and> via_uniqueness_key_recovery c2)"
proof -
  note first = create_contract_held [OF assms(1,5,2,3)] and second = create_contract_held [OF assms(1,7,2,3)]
  have grow: "held (api v) = held (api s) \<or>
      (\<exists>i. held (api v) = held (api s) @ [(customer, key, i)] \<and> key \<notin> set (contract_keys (held (api s))))"
    using first(1) second(1) assms(6) by auto
  then have "count_held (held (api v)) key \<le> 1"
    using assms(4) count_held_0 [of key "held (api s)"] by (auto simp: count_held_def)
  moreover have "metronome_contract_id c2 = metronome_contract_id c1 \<and> via_uniqueness_key_recovery c2"
    if "r1 = Inr c1" "r2 = Inr c2" for c1 c2
  proof -
    note one = first(2) [OF that(1), THEN conjunct1] and two = second(2) [OF that(2)]
    have key: "key \<in> set (contract_keys (held (api u)))" using held_key [OF one] assms(6) by simp
    then have "held (api v) = held (api t)" using second(1) assms(6) by auto
    with one two key one_held [OF calculation] show ?thesis by auto
  qed
  ultimately show ?thesis using grow by blast
qed

definition sample_body :: pydict where
  "sample_body = [(''customer_id'', PStr ''m_1''), (''uniqueness_key'', PStr ''sub_1_price_1_0'')]"

lemma create_contract_provenance_witness:
  "\<exists>t. create_contract store_sdk sample_body (fresh_ctx empty_db [(''m_1'', ''sub_1_price_1_0'', 0)]) =
     (Inr \<lparr>metronome_contract_id = ''con_0'', via_uniqueness_key_recovery = True\<rparr>, t) \<and>
   calls t = [ContractsCreate sample_body, ContractsList ''m_1'']"
proof -
  let ?s = "fresh_ctx empty_db [(''m_1'', ''sub_1_price_1_0'', 0)] :: contract_store ctx"
  have "fst (create_contract store_sdk sample_body ?s) =
      Inr \<lparr>metronome_contract_id = ''con_0'', via_uniqueness_key_recovery = True\<rparr>"
    by code_simp
  then have run: "create_contract store_sdk sample_body ?s =
      (Inr \<lparr>metronome_contract_id = ''con_0'', via_uniqueness_key_recovery = True\<rparr>,
       snd (create_contract store_sdk sample_body ?s))"
    by (metis prod.collapse)
  show ?thesis using create_contract_provenance [OF run] run by (auto simp: fresh_ctx_def sample_body_def)
qed

lemma contract_creation_is_idempotent_witness:
  "count_held (store_contracts (api (snd (create_contract store_sdk sample_body
     (snd (create_contract store_sdk sample_body (fresh_ctx empty_db []))))))) ''sub_1_price_1_0'' \<le> 1"
proof -
  let ?s = "fresh_ctx empty_db [] :: contract_store ctx"
  let ?t = "snd (create_contract store_sdk sample_body ?s)"
  have "count_held (store_contracts (api ?s)) ''sub_1_price_1_0'' \<le> 1"
    by (simp add: fresh_ctx_def store_contracts_def count_held_def)
  then show ?thesis
    using contract_creation_is_idempotent [OF store_sdk_honours, of sample_body "''m_1''" "''sub_1_price_1_0''" ?s
        "fst (create_contract store_sdk sample_body ?s)" ?t ?t
        "fst (create_contract store_sdk sample_body ?t)" "snd (create_contract store_sdk sample_body ?t)"]
    by (simp add: sample_body_def)
qed

end
