(* ===== verification/MapperCustomer.thy ===== *)
theory MapperCustomer
  imports Errors
begin

text \<open>
  \<open>mappers/customer.py\<close>: the pure function from a Stripe customer object to the body
  of \<open>POST /v1/customers\<close>, and the display name it resolves.
\<close>

text \<open>\<open>isinstance(v, str) and v.strip()\<close>, and then \<open>v.strip()\<close>.\<close>

definition stripped_str :: "pyval \<Rightarrow> string option" where
  "stripped_str v = (case v of PStr s \<Rightarrow> if py_strip s \<noteq> [] then Some (py_strip s) else None | _ \<Rightarrow> None)"

definition resolve_display_name :: "pydict \<Rightarrow> exn + string" where
  "resolve_display_name stripe_customer =
     (case stripped_str (dict_get stripe_customer ''name'') of
        Some name \<Rightarrow> Inr name
      | None \<Rightarrow>
          (case stripped_str (dict_get stripe_customer ''email'') of
             Some email \<Rightarrow> Inr email
           | None \<Rightarrow> Inl (ValueError (MapperError
               (''Stripe customer has neither `name` nor `email`; cannot map to a '' @
                ''Metronome customer name.'')))))"

definition customer_billing_config :: "string \<Rightarrow> pydict" where
  "customer_billing_config stripe_customer_id =
     [(''billing_provider'', PStr ''stripe''),
      (''delivery_method'', PStr ''direct_to_billing_provider''),
      (''configuration'', PDict
        [(''stripe_customer_id'', PStr stripe_customer_id),
         (''stripe_collection_method'', PStr ''charge_automatically'')])]"

definition stripe_customer_to_metronome_request :: "pydict \<Rightarrow> exn + pydict" where
  "stripe_customer_to_metronome_request stripe_customer =
     (case nonempty_str (dict_get stripe_customer ''id'') of
        None \<Rightarrow> Inl (ValueError (MapperError ''Stripe customer payload is missing a string `id`.''))
      | Some stripe_customer_id \<Rightarrow>
          try_bind (resolve_display_name stripe_customer) (\<lambda>name.
            Inr [(''name'', PStr name),
                 (''ingest_aliases'', PList [PStr stripe_customer_id]),
                 (''customer_billing_provider_configurations'',
                    PList [PDict (customer_billing_config stripe_customer_id)])]))"

lemma stripped_str_Some:
  "stripped_str v = Some n \<longleftrightarrow> (\<exists>s. v = PStr s \<and> n = py_strip s \<and> n \<noteq> [])"
  by (auto simp: stripped_str_def split: pyval.splits)

lemma resolve_display_name_stripped: "resolve_display_name c = Inr n \<Longrightarrow> n \<noteq> [] \<and> py_strip n = n"
  by (auto simp: resolve_display_name_def stripped_str_Some py_strip_idem split: option.splits)

lemma resolve_display_name_error:
  "resolve_display_name c = Inl e \<Longrightarrow> \<exists>m. e = ValueError (MapperError m)"
  by (auto simp: resolve_display_name_def split: option.splits)

lemma customer_request_error:
  "stripe_customer_to_metronome_request c = Inl e \<Longrightarrow> \<exists>m. e = ValueError (MapperError m)"
  by (auto simp: stripe_customer_to_metronome_request_def try_bind_eq_Inl split: option.splits
      dest: resolve_display_name_error)

lemma customer_request_ok:
  "stripe_customer_to_metronome_request c = Inr r \<longleftrightarrow>
     (\<exists>cid name. dict_get c ''id'' = PStr cid \<and> cid \<noteq> [] \<and> resolve_display_name c = Inr name \<and>
        r = [(''name'', PStr name), (''ingest_aliases'', PList [PStr cid]),
             (''customer_billing_provider_configurations'', PList [PDict (customer_billing_config cid)])])"
  by (cases "nonempty_str (dict_get c ''id'')")
    (auto simp: stripe_customer_to_metronome_request_def try_bind_eq_Inr)

section \<open>Properties\<close>

text \<open>A string that is not only white space.\<close>

definition not_blank :: "pyval \<Rightarrow> string \<Rightarrow> bool" where
  "not_blank v s \<longleftrightarrow> v = PStr s \<and> py_strip s \<noteq> []"

lemma stripped_str_iff: "stripped_str v = Some n \<longleftrightarrow> (\<exists>s. not_blank v s \<and> n = py_strip s)"
  by (auto simp: stripped_str_Some not_blank_def)

lemma stripped_str_None: "stripped_str v = None \<longleftrightarrow> (\<nexists>s. not_blank v s)"
  using stripped_str_iff [of v] by (metis not_None_eq)

text \<open>C32: the request the customer mapper builds. A request is built exactly if the id is a
  non-empty string and the name or the email is a string that is not blank, and else a
  \<open>MapperError\<close> is raised. Its name has no white space around it and is the \<open>name\<close>, stripped, if
  that is not blank, and else the stripped \<open>email\<close>; the Stripe id is the one ingest alias and
  the id of the billing configuration; it has no other field.\<close>

theorem customer_request_spec:
  "((\<exists>req. stripe_customer_to_metronome_request c = Inr req) \<longleftrightarrow>
      (\<exists>cid. dict_get c ''id'' = PStr cid \<and> cid \<noteq> []) \<and>
      (\<exists>s. not_blank (dict_get c ''name'') s \<or> not_blank (dict_get c ''email'') s)) \<and>
   (case stripe_customer_to_metronome_request c of
      Inl exc \<Rightarrow> \<exists>m. exc = ValueError (MapperError m)
    | Inr req \<Rightarrow> \<exists>cid s. dict_get c ''id'' = PStr cid \<and>
        not_blank (if \<exists>s. not_blank (dict_get c ''name'') s then dict_get c ''name'' else dict_get c ''email'') s \<and>
        py_strip (py_strip s) = py_strip s \<and>
        dict_get req ''name'' = PStr (py_strip s) \<and>
        dict_get req ''ingest_aliases'' = PList [PStr cid] \<and>
        dict_get req ''customer_billing_provider_configurations'' = PList [PDict (customer_billing_config cid)] \<and>
        length req = 3)"
proof -
  have built: "(\<exists>name. resolve_display_name c = Inr name) \<longleftrightarrow>
      (\<exists>s. not_blank (dict_get c ''name'') s \<or> not_blank (dict_get c ''email'') s)"
    using stripped_str_None [of "dict_get c ''name''"] stripped_str_None [of "dict_get c ''email''"]
    by (auto simp: resolve_display_name_def split: option.split)
  have name: "\<exists>s. not_blank (if \<exists>s. not_blank (dict_get c ''name'') s then dict_get c ''name'' else dict_get c ''email'') s \<and>
      n = py_strip s" if "resolve_display_name c = Inr n" for n
    using that stripped_str_None [of "dict_get c ''name''"] stripped_str_iff
    by (auto simp: resolve_display_name_def split: option.splits)
  show ?thesis
  proof (cases "stripe_customer_to_metronome_request c")
    case (Inl exc)
    then show ?thesis using customer_request_error [OF Inl] built customer_request_ok [of c] by auto
  next
    case (Inr req)
    then obtain cid n where "dict_get c ''id'' = PStr cid" "cid \<noteq> []" "resolve_display_name c = Inr n"
      "req = [(''name'', PStr n), (''ingest_aliases'', PList [PStr cid]),
         (''customer_billing_provider_configurations'', PList [PDict (customer_billing_config cid)])]"
      by (auto simp: customer_request_ok)
    with Inr name built show ?thesis by (auto simp: py_strip_idem)
  qed
qed

end
