(* ===== verification/HandlerCustomer.thy ===== *)
theory HandlerCustomer
  imports MetronomeClient MapperCustomer
begin

text \<open>
  \<open>handlers/customer.py\<close>: the handlers of \<open>customer.created\<close> and \<open>customer.updated\<close>,
  from the event payload to the mapping row.
\<close>

datatype customer_outcome = CREATED | UPDATED | SKIPPED_ALREADY_MAPPED

fun customer_outcome_text :: "customer_outcome \<Rightarrow> string" where
  "customer_outcome_text CREATED = ''created''"
| "customer_outcome_text UPDATED = ''updated''"
| "customer_outcome_text SKIPPED_ALREADY_MAPPED = ''skipped_already_mapped''"

record customer_result =
  cr_outcome :: customer_outcome
  cr_stripe_customer_id :: string
  cr_metronome_customer_id :: string
  cr_duration_ms :: int

section \<open>Helpers\<close>

definition extract_customer_object :: "pydict \<Rightarrow> exn + pydict" where
  "extract_customer_object event_payload =
     (case dict_get event_payload ''data'' of
        PDict data \<Rightarrow>
          (case dict_get data ''object'' of
             PDict obj \<Rightarrow> Inr obj
           | _ \<Rightarrow> Inl (permanent ''Stripe event missing `data.object`.''))
      | _ \<Rightarrow> Inl (permanent ''Stripe event missing `data` object.''))"

definition customer_require_str :: "pyval \<Rightarrow> string \<Rightarrow> exn + string" where
  "customer_require_str value field_path =
     (case nonempty_str value of
        None \<Rightarrow> Inl (permanent (''Stripe event field `'' @ field_path @ ''` is missing or empty.''))
      | Some s \<Rightarrow> Inr s)"

text \<open>The \<open>except\<close> clauses around a Metronome call, and around the mapper.\<close>

fun metronome_failure :: "exn \<Rightarrow> exn" where
  "metronome_failure (MetronomeError (TransientMetronomeError m)) = retryable m"
| "metronome_failure (MetronomeError (PermanentMetronomeError m c)) = permanent m"
| "metronome_failure e = e"

fun customer_mapper_failure :: "exn \<Rightarrow> exn" where
  "customer_mapper_failure (ValueError (MapperError m)) = permanent (''Cannot map Stripe customer: '' @ m)"
| "customer_mapper_failure e = e"

section \<open>The two paths\<close>

definition handle_existing_mapping ::
  "env \<Rightarrow> 'm sdk \<Rightarrow> pydict \<Rightarrow> customer_mapping \<Rightarrow> string \<Rightarrow> ('m, customer_result) session_act" where
  "handle_existing_mapping e sdk stripe_customer mapping ev_type =
     (if ev_type = ''customer.created'' then
        ret \<lparr>cr_outcome = SKIPPED_ALREADY_MAPPED,
             cr_stripe_customer_id = cm_stripe_customer_id mapping,
             cr_metronome_customer_id = cm_metronome_customer_id mapping,
             cr_duration_ms = elapsed_ms e\<rparr>
      else
        bnd (lift (map_error customer_mapper_failure (stripe_customer_to_metronome_request stripe_customer))) (\<lambda>request.
        bnd (except_as metronome_failure
              (set_customer_name sdk (cm_metronome_customer_id mapping) (dict_get request ''name''))) (\<lambda>_.
        bnd (flush_update (set_customer_updated_at (cm_stripe_customer_id mapping) (handler_now e))) (\<lambda>_.
        ret \<lparr>cr_outcome = UPDATED,
             cr_stripe_customer_id = cm_stripe_customer_id mapping,
             cr_metronome_customer_id = cm_metronome_customer_id mapping,
             cr_duration_ms = elapsed_ms e\<rparr>))))"

definition create_new_mapping ::
  "env \<Rightarrow> 'm sdk \<Rightarrow> pydict \<Rightarrow> ('m, customer_result) session_act" where
  "create_new_mapping e sdk stripe_customer =
     bnd (lift (customer_require_str (dict_get stripe_customer ''id'') ''data.object.id'')) (\<lambda>stripe_customer_id.
     bnd (lift (map_error customer_mapper_failure (stripe_customer_to_metronome_request stripe_customer))) (\<lambda>request.
     bnd (except_as metronome_failure (create_customer sdk request)) (\<lambda>metronome_customer_id.
     bnd (add_and_flush (insert_customer_mapping
           \<lparr>cm_stripe_customer_id = stripe_customer_id,
            cm_metronome_customer_id = metronome_customer_id,
            cm_created_at = tx_start e, cm_updated_at = handler_now e\<rparr>)) (\<lambda>_.
     ret \<lparr>cr_outcome = CREATED,
          cr_stripe_customer_id = stripe_customer_id,
          cr_metronome_customer_id = metronome_customer_id,
          cr_duration_ms = elapsed_ms e\<rparr>))))"

section \<open>Entry points\<close>

definition handle_customer_event ::
  "string \<Rightarrow> env \<Rightarrow> 'm sdk \<Rightarrow> string \<Rightarrow> pydict \<Rightarrow> ('m, customer_result) session_act" where
  "handle_customer_event ev_type e sdk event_id event_payload =
     bnd (lift (extract_customer_object event_payload)) (\<lambda>stripe_customer.
     bnd (lift (customer_require_str (dict_get stripe_customer ''id'') ''data.object.id'')) (\<lambda>stripe_customer_id.
     bnd (log_at INFO ''handler_started''
           [(''event'', PStr ''handler_started''), (''stripe_event_id'', PStr event_id),
            (''stripe_event_type'', PStr ev_type), (''stripe_customer_id'', PStr stripe_customer_id)]) (\<lambda>_.
     bnd (db_read (customer_row stripe_customer_id)) (\<lambda>existing.
     bnd (case existing of
            Some mapping \<Rightarrow> handle_existing_mapping e sdk stripe_customer mapping ev_type
          | None \<Rightarrow> create_new_mapping e sdk stripe_customer) (\<lambda>result.
     bnd (log_at INFO ''handler_completed''
           [(''event'', PStr ''handler_completed''), (''stripe_event_id'', PStr event_id),
            (''stripe_event_type'', PStr ev_type),
            (''stripe_customer_id'', PStr (cr_stripe_customer_id result)),
            (''metronome_customer_id'', PStr (cr_metronome_customer_id result)),
            (''outcome'', PStr (customer_outcome_text (cr_outcome result))),
            (''duration_ms'', PInt (cr_duration_ms result))]) (\<lambda>_.
     ret result))))))"

definition handle_customer_created ::
  "env \<Rightarrow> settings \<Rightarrow> 'm sdk \<Rightarrow> string \<Rightarrow> pydict \<Rightarrow> ('m, customer_result) session_act" where
  "handle_customer_created e cfg sdk event_id event_payload =
     handle_customer_event ''customer.created'' e sdk event_id event_payload"

definition handle_customer_updated ::
  "env \<Rightarrow> settings \<Rightarrow> 'm sdk \<Rightarrow> string \<Rightarrow> pydict \<Rightarrow> ('m, customer_result) session_act" where
  "handle_customer_updated e cfg sdk event_id event_payload =
     handle_customer_event ''customer.updated'' e sdk event_id event_payload"

section \<open>The handlers' contract\<close>

lemma existing_mapping_keeps_ok: "framed keeps_ok (handle_existing_mapping e sdk c m ty)"
  unfolding handle_existing_mapping_def
  by (intro keeps_ok_rules same_tx_keeps_ok [OF same_tx_except] client_same_tx) (erule set_customer_updated_at_ok)

lemma existing_mapping_grows: "framed grows (handle_existing_mapping e sdk c m ty)"
  unfolding handle_existing_mapping_def
  by (intro grows_rules same_tx_grows [OF same_tx_except] client_same_tx set_customer_updated_at_grows)

lemma existing_mapping_records: "framed records (handle_existing_mapping e sdk c m ty)"
  unfolding handle_existing_mapping_def by (intro records_rules client_records)

lemma existing_mapping_atomic: "atomic (handle_existing_mapping e sdk c m ty)"
  unfolding handle_existing_mapping_def
  by (cases "ty = ''customer.created''")
    (simp_all add: atomic_pure, intro atomic_rules same_tx_rules client_same_tx quiet_rules)

lemma new_mapping_keeps_ok: "framed keeps_ok (create_new_mapping e sdk c)"
  unfolding create_new_mapping_def
  by (intro keeps_ok_rules same_tx_keeps_ok [OF same_tx_except] client_same_tx) (erule insert_customer_ok)

lemma new_mapping_grows: "framed grows (create_new_mapping e sdk c)"
  unfolding create_new_mapping_def
  by (intro grows_rules same_tx_grows [OF same_tx_except] client_same_tx) (erule insert_customer_grows)

lemma new_mapping_records: "framed records (create_new_mapping e sdk c)"
  unfolding create_new_mapping_def by (intro records_rules client_records)

lemma new_mapping_atomic: "atomic (create_new_mapping e sdk c)"
  unfolding create_new_mapping_def
  by (intro atomic_rules same_tx_rules client_same_tx quiet_rules) (erule insert_customer_error)

lemma customer_event_keeps_ok: "framed keeps_ok (handle_customer_event ty e sdk i p)"
  unfolding handle_customer_event_def by (intro keeps_ok_rules existing_mapping_keeps_ok new_mapping_keeps_ok)

lemma customer_event_grows: "framed grows (handle_customer_event ty e sdk i p)"
  unfolding handle_customer_event_def by (intro grows_rules existing_mapping_grows new_mapping_grows)

lemma customer_event_records: "framed records (handle_customer_event ty e sdk i p)"
  unfolding handle_customer_event_def by (intro records_rules existing_mapping_records new_mapping_records)

lemmas customer_event_frames = customer_event_keeps_ok customer_event_grows customer_event_records

lemma customer_event_atomic: "atomic (handle_customer_event ty e sdk i p)"
  unfolding handle_customer_event_def
  by (intro atomic_bnd_same_tx atomic_bnd_quiet [OF atomic_case_option] same_tx_rules
      new_mapping_atomic existing_mapping_atomic quiet_rules)

interpretation customer_created: event_handler handle_customer_created
  by unfold_locales (simp_all add: handle_customer_created_def customer_event_frames customer_event_atomic)

interpretation customer_updated: event_handler handle_customer_updated
  by unfold_locales (simp_all add: handle_customer_updated_def customer_event_frames customer_event_atomic)

section \<open>The branches of the handler\<close>

lemma create_customer_Inr:
  "create_customer sdk b s = (Inr i, t) \<longleftrightarrow>
     (\<exists>resp m. sdk (CustomersCreate b) (api s) = (Response resp, m) \<and> response_id resp = Some i \<and>
        t = s\<lparr>api := m, calls := calls s @ [CustomersCreate b]\<rparr>)"
  by (auto simp: create_customer_def bnd_eq_Inr call_sdk_def raising_def extract_id_Inr split: prod.splits sdk_reply.splits)

lemma set_customer_name_Inr:
  "set_customer_name sdk c n s = (Inr u, t) \<longleftrightarrow>
     (\<exists>resp m. sdk (CustomersSetName c n) (api s) = (Response resp, m) \<and>
        t = s\<lparr>api := m, calls := calls s @ [CustomersSetName c n]\<rparr>)"
  by (auto simp: set_customer_name_def bnd_eq_Inr call_sdk_def raising_def ret_def split: prod.splits sdk_reply.splits)

lemma extract_customer_object_Inr:
  "extract_customer_object p = Inr obj \<longleftrightarrow>
     (\<exists>data. dict_get p ''data'' = PDict data \<and> dict_get data ''object'' = PDict obj)"
  by (auto simp: extract_customer_object_def split: pyval.splits)

lemma customer_require_str_Inr [simp]: "customer_require_str v f = Inr s \<longleftrightarrow> v = PStr s \<and> s \<noteq> []"
  by (auto simp: customer_require_str_def nonempty_str_None split: option.splits)

lemma log_at_eq:
  "log_at l m x s = (r, t) \<longleftrightarrow> r = Inr () \<and>
     t = s\<lparr>log := log s @ [\<lparr>log_record_level = l, log_record_message = m, log_record_extra = x\<rparr>]\<rparr>"
  by (auto simp: log_at_def modifies_def)

lemma create_new_mapping_Inr:
  assumes "create_new_mapping e sdk obj s = (Inr r, t)" and "dict_get obj ''id'' = PStr cid"
  obtains body resp m where "cr_stripe_customer_id r = cid" "cr_outcome r = CREATED"
    "stripe_customer_to_metronome_request obj = Inr body"
    "sdk (CustomersCreate body) (api s) = (Response resp, m)" "response_id resp = Some (cr_metronome_customer_id r)"
    "calls t = calls s @ [CustomersCreate body]"
    "tx t = (tx s)\<lparr>customer_mappings := customer_mappings (tx s) @
       [\<lparr>cm_stripe_customer_id = cid, cm_metronome_customer_id = cr_metronome_customer_id r,
         cm_created_at = tx_start e, cm_updated_at = handler_now e\<rparr>]\<rparr>"
  using assms
  by (auto simp: create_new_mapping_def bnd_eq_Inr lift_eq map_error_eq_Inr except_as_eq_Inr create_customer_Inr
      add_and_flush_Inr ret_def insert_customer_mapping_def split: if_splits)

lemma handle_existing_Inr:
  assumes "handle_existing_mapping e sdk obj mapping ty s = (Inr r, t)"
  shows "cr_stripe_customer_id r = cm_stripe_customer_id mapping"
    and "cr_metronome_customer_id r = cm_metronome_customer_id mapping"
    and "ty = ''customer.created'' \<Longrightarrow> cr_outcome r = SKIPPED_ALREADY_MAPPED \<and> t = s"
    and "ty \<noteq> ''customer.created'' \<Longrightarrow> cr_outcome r = UPDATED \<and>
      (\<exists>body. stripe_customer_to_metronome_request obj = Inr body \<and>
         calls t = calls s @ [CustomersSetName (cm_metronome_customer_id mapping) (dict_get body ''name'')]) \<and>
      tx t = set_customer_updated_at (cm_stripe_customer_id mapping) (handler_now e) (tx s)"
  using assms
  by (auto simp: handle_existing_mapping_def bnd_eq_Inr lift_eq map_error_eq_Inr except_as_eq_Inr set_customer_name_Inr
      flush_update_def add_and_flush_Inr ret_def split: if_splits)

lemma handle_customer_event_Inr:
  assumes "handle_customer_event ty e sdk i p s = (Inr r, t)"
  obtains obj cid u v where "extract_customer_object p = Inr obj" "dict_get obj ''id'' = PStr cid" "cid \<noteq> []"
    "tx u = tx s" "api u = api s" "calls u = calls s" "deactivated u = deactivated s"
    "(case customer_row cid (tx s) of
        Some mapping \<Rightarrow> handle_existing_mapping e sdk obj mapping ty
      | None \<Rightarrow> create_new_mapping e sdk obj) u = (Inr r, v)"
    "tx t = tx v" "api t = api v" "calls t = calls v"
proof -
  let ?start = "\<lambda>cid. s\<lparr>log := log s @ [\<lparr>log_record_level = INFO, log_record_message = ''handler_started'',
    log_record_extra = [(''event'', PStr ''handler_started''), (''stripe_event_id'', PStr i),
      (''stripe_event_type'', PStr ty), (''stripe_customer_id'', PStr cid)]\<rparr>]\<rparr>"
  obtain obj cid v where "extract_customer_object p = Inr obj" "dict_get obj ''id'' = PStr cid" "cid \<noteq> []"
    "(case customer_row cid (tx s) of
        Some mapping \<Rightarrow> handle_existing_mapping e sdk obj mapping ty
      | None \<Rightarrow> create_new_mapping e sdk obj) (?start cid) = (Inr r, v)"
    "tx t = tx v" "api t = api v" "calls t = calls v"
    using assms by (auto simp: handle_customer_event_def bnd_eq_Inr lift_eq log_at_eq db_read_eq ret_def split: if_splits)
  then show thesis by (intro that [of obj cid "?start cid" v]) simp_all
qed

lemma customer_event_post:
  assumes "handle_customer_event ty e sdk i p s = (Inr r, t)" and "db_ok (tx s)"
  shows "\<exists>obj cid row. extract_customer_object p = Inr obj \<and> dict_get obj ''id'' = PStr cid \<and> cid \<noteq> [] \<and>
    cr_stripe_customer_id r = cid \<and>
    customer_row cid (tx t) = Some row \<and> cm_metronome_customer_id row = cr_metronome_customer_id r \<and>
    (case customer_row cid (tx s) of
       None \<Rightarrow> cr_outcome r = CREATED \<and>
         (\<exists>body resp. stripe_customer_to_metronome_request obj = Inr body \<and>
            fst (sdk (CustomersCreate body) (api s)) = Response resp \<and>
            response_id resp = Some (cr_metronome_customer_id r) \<and>
            calls t = calls s @ [CustomersCreate body]) \<and>
         tx t = (tx s)\<lparr>customer_mappings := customer_mappings (tx s) @ [row]\<rparr>
     | Some mapping \<Rightarrow> cr_metronome_customer_id r = cm_metronome_customer_id mapping \<and>
         (if ty = ''customer.created''
          then cr_outcome r = SKIPPED_ALREADY_MAPPED \<and> tx t = tx s \<and> calls t = calls s
          else cr_outcome r = UPDATED \<and>
            tx t = set_customer_updated_at cid (handler_now e) (tx s) \<and>
            (\<exists>body. stripe_customer_to_metronome_request obj = Inr body \<and>
               calls t = calls s @ [CustomersSetName (cm_metronome_customer_id mapping) (dict_get body ''name'')])))"
proof (rule handle_customer_event_Inr [OF assms(1)])
  fix obj cid u v
  assume ev: "extract_customer_object p = Inr obj" "dict_get obj ''id'' = PStr cid" "cid \<noteq> []"
    and u: "tx u = tx s" "api u = api s" "calls u = calls s" "deactivated u = deactivated s"
    and run: "(case customer_row cid (tx s) of
        Some mapping \<Rightarrow> handle_existing_mapping e sdk obj mapping ty
      | None \<Rightarrow> create_new_mapping e sdk obj) u = (Inr r, v)"
    and v: "tx t = tx v" "api t = api v" "calls t = calls v"
  show ?thesis
  proof (cases "customer_row cid (tx s)")
    case None
    with run have "create_new_mapping e sdk obj u = (Inr r, v)" by simp
    from create_new_mapping_Inr [OF this ev(2)] obtain body resp m where
      new: "cr_stripe_customer_id r = cid" "cr_outcome r = CREATED" "stripe_customer_to_metronome_request obj = Inr body"
        "sdk (CustomersCreate body) (api s) = (Response resp, m)" "response_id resp = Some (cr_metronome_customer_id r)"
        "calls v = calls s @ [CustomersCreate body]"
        "tx v = (tx s)\<lparr>customer_mappings := customer_mappings (tx s) @
          [\<lparr>cm_stripe_customer_id = cid, cm_metronome_customer_id = cr_metronome_customer_id r,
            cm_created_at = tx_start e, cm_updated_at = handler_now e\<rparr>]\<rparr>"
      by (metis u(1-3))
    with None show ?thesis
      by (simp add: ev v) (simp add: customer_row_def find_append)
  next
    case (Some mapping)
    with run have "handle_existing_mapping e sdk obj mapping ty u = (Inr r, v)" by simp
    note old = handle_existing_Inr [OF this]
    have key: "cm_stripe_customer_id mapping = cid" using customers.lookup_hit [OF Some] by simp
    have ids: "db_grows (tx s) (tx v)"
      using old(3,4) u(1) by (cases "ty = ''customer.created''") (auto simp: set_customer_updated_at_grows db_grows_refl)
    obtain row where "customer_row cid (tx v) = Some row" "cm_ids row = cm_ids mapping"
      using db_grows_customer [OF ids Some] by blast
    with Some old key show ?thesis by (auto simp: ev v u cm_ids_def)
  qed
qed

lemma create_customer_Inl:
  "create_customer sdk b s = (Inl exc, t) \<Longrightarrow>
     calls t = calls s @ [CustomersCreate b] \<and>
     ((\<exists>x. fst (sdk (CustomersCreate b) (api s)) = Raises x \<and> exc = sdk_exception x) \<or>
      (\<exists>m c. exc = MetronomeError (PermanentMetronomeError m c)))"
  by (auto simp: create_customer_def bnd_eq_Inl call_sdk_def raising_def dest!: extract_id_Inl
      split: prod.splits sdk_reply.splits)

lemma set_customer_name_Inl:
  "set_customer_name sdk c n s = (Inl exc, t) \<Longrightarrow>
     calls t = calls s @ [CustomersSetName c n] \<and>
     (\<exists>x. fst (sdk (CustomersSetName c n) (api s)) = Raises x \<and> exc = sdk_exception x)"
  by (auto simp: set_customer_name_def bnd_eq_Inl call_sdk_def raising_def ret_def
      split: prod.splits sdk_reply.splits)

text \<open>The ways a customer event fails after it has begun, in terms of the calls it made.\<close>

definition sdk_failure :: "'m sdk \<Rightarrow> exn \<Rightarrow> 'm ctx \<Rightarrow> 'm ctx \<Rightarrow> bool" where
  "sdk_failure sdk exc s t \<longleftrightarrow>
     (\<exists>c x. calls t = calls s @ [c] \<and> fst (sdk c (api s)) = Raises x \<and> exc = metronome_failure (sdk_exception x))"

definition constraint_failure :: "exn \<Rightarrow> 'm ctx \<Rightarrow> 'm ctx \<Rightarrow> bool" where
  "constraint_failure exc s t \<longleftrightarrow> (\<exists>m. exc = IntegrityError m) \<and> deactivated t \<and> (\<exists>c. calls t = calls s @ [c])"

lemma mapper_failure_permanent:
  "stripe_customer_to_metronome_request obj = Inl d \<Longrightarrow> \<exists>m. customer_mapper_failure d = permanent m"
  using customer_request_error by fastforce

lemma extract_customer_object_Inl: "extract_customer_object p = Inl exc \<Longrightarrow> \<exists>m. exc = permanent m"
  by (auto simp: extract_customer_object_def split: pyval.splits)

lemma customer_require_str_Inl: "customer_require_str v f = Inl exc \<Longrightarrow> \<exists>m. exc = permanent m"
  by (auto simp: customer_require_str_def split: option.splits)

lemma handle_existing_Inl:
  assumes "handle_existing_mapping e sdk obj mapping ty s = (Inl exc, t)" and "\<not> deactivated s"
  shows "(\<exists>m. exc = permanent m) \<or> sdk_failure sdk exc s t"
  using assms framedD [OF client_same_tx(3)]
  by (fastforce simp: handle_existing_mapping_def bnd_eq_Inl lift_eq map_error_eq_Inl map_error_eq_Inr except_as_eq_Inl
      except_as_eq_Inr set_customer_name_Inr flush_update_def add_and_flush_Inl ret_def sdk_failure_def
      split: if_splits dest: mapper_failure_permanent set_customer_name_Inl)

lemma create_new_mapping_Inl:
  assumes "create_new_mapping e sdk obj s = (Inl exc, t)" and "\<not> deactivated s"
  shows "(\<exists>m. exc = permanent m) \<or> sdk_failure sdk exc s t \<or> constraint_failure exc s t"
proof -
  have "insert_customer_mapping row d = Inl x \<Longrightarrow> \<exists>m. x = IntegrityError m" for row d x
    by (auto simp: insert_customer_mapping_def split: if_splits)
  then show ?thesis
    using assms
    by (auto simp: create_new_mapping_def bnd_eq_Inl lift_eq map_error_eq_Inl map_error_eq_Inr except_as_eq_Inl
        except_as_eq_Inr create_customer_Inr add_and_flush_Inl ret_def sdk_failure_def constraint_failure_def
        customer_require_str_def split: option.splits dest!: mapper_failure_permanent create_customer_Inl)
qed

section \<open>Properties\<close>

text \<open>The failures of the SDK that a repetition may cure, and the ones that are the server's refusal.\<close>

fun worth_retrying :: "sdk_error \<Rightarrow> bool" where
  "worth_retrying (APIStatusError rate_limit code text) \<longleftrightarrow>
     rate_limit \<or> (case code of None \<Rightarrow> False | Some n \<Rightarrow> n = 429 \<or> n \<in> {500..599})"
| "worth_retrying (ForeignError ty text) \<longleftrightarrow> False"
| "worth_retrying x \<longleftrightarrow> True"

fun refused :: "sdk_error \<Rightarrow> bool" where
  "refused (APIStatusError rate_limit code text) \<longleftrightarrow> \<not> worth_retrying (APIStatusError rate_limit code text)"
| "refused x \<longleftrightarrow> False"

text \<open>Through the wrapper's and the handlers' \<open>except\<close> clauses a rate limit, a 429, any 5xx, a lost
  connection, a timeout and an SDK error without a status become \<open>RetryableHandlerError\<close>,
  every other HTTP status \<open>PermanentHandlerError\<close>; an exception foreign to the SDK becomes
  neither.\<close>

lemma metronome_failures_split:
  "((\<exists>m. metronome_failure (sdk_exception x) = retryable m) \<longleftrightarrow> worth_retrying x) \<and>
   ((\<exists>m. metronome_failure (sdk_exception x) = permanent m) \<longleftrightarrow> refused x)"
  by (cases x) (auto simp: classify_status_error_def split: option.splits if_splits)

text \<open>C9: what a successful customer event has done. The customer of the payload is mapped, to the
  Metronome id the handler reports. If it was not mapped, Metronome was asked once, with the
  body the mapper makes of the customer, the id is the one it answered with, and one row was
  added. If it was, the id is the one it was mapped to: \<open>customer.created\<close> then changes
  nothing and asks nothing, and any other type sends the mapper's name for that id and
  stamps the row.\<close>

theorem customer_event_success:
  assumes "handle_customer_event ty e sdk i p s = (Inr r, t)" and "db_ok (tx s)"
  shows "\<exists>obj cid row. extract_customer_object p = Inr obj \<and> dict_get obj ''id'' = PStr cid \<and> cid \<noteq> [] \<and>
    cr_stripe_customer_id r = cid \<and>
    customer_row cid (tx t) = Some row \<and> cm_metronome_customer_id row = cr_metronome_customer_id r \<and>
    (case customer_row cid (tx s) of
       None \<Rightarrow> cr_outcome r = CREATED \<and>
         (\<exists>body resp. stripe_customer_to_metronome_request obj = Inr body \<and>
            fst (sdk (CustomersCreate body) (api s)) = Response resp \<and>
            response_id resp = Some (cr_metronome_customer_id r) \<and>
            calls t = calls s @ [CustomersCreate body]) \<and>
         tx t = (tx s)\<lparr>customer_mappings := customer_mappings (tx s) @ [row]\<rparr>
     | Some mapping \<Rightarrow> cr_metronome_customer_id r = cm_metronome_customer_id mapping \<and>
         (if ty = ''customer.created''
          then cr_outcome r = SKIPPED_ALREADY_MAPPED \<and> tx t = tx s \<and> calls t = calls s
          else cr_outcome r = UPDATED \<and>
            tx t = set_customer_updated_at cid (handler_now e) (tx s) \<and>
            (\<exists>body. stripe_customer_to_metronome_request obj = Inr body \<and>
               calls t = calls s @ [CustomersSetName (cm_metronome_customer_id mapping) (dict_get body ''name'')])))"
  using assms by (rule customer_event_post)

lemma customer_event_success_witness:
  "\<exists>row. customer_row ''cus_1'' (tx (snd (handle_customer_event ''customer.created'' sample_env (answering_sdk ''m_1'')
     ''evt_1'' (event_of sample_customer) (fresh_ctx empty_db ())))) = Some row \<and> cm_metronome_customer_id row = ''m_1''"
proof -
  let ?run = "handle_customer_event ''customer.created'' sample_env (answering_sdk ''m_1'') ''evt_1''
    (event_of sample_customer) (fresh_ctx empty_db ())"
  let ?r = "\<lparr>cr_outcome = CREATED, cr_stripe_customer_id = ''cus_1'', cr_metronome_customer_id = ''m_1'', cr_duration_ms = 500\<rparr>"
  have "fst ?run = Inr ?r" by code_simp
  then have run: "?run = (Inr ?r, snd ?run)" by (metis prod.collapse)
  have "db_ok (tx (fresh_ctx empty_db ()))" by (simp add: fresh_ctx_def empty_db_def db_ok_def)
  from customer_event_success [OF run this] show ?thesis by auto
qed

text \<open>C17: a repeated \<open>customer.created\<close> does nothing. After a \<open>customer.created\<close> was handled,
  another one for the same customer, whatever its event id, the rest of its payload, the
  time and the state of the server, succeeds as a skip with the same Metronome id: it makes
  no call and leaves the database as it is.\<close>

theorem customer_created_twice:
  assumes "handle_customer_created e cfg sdk i p s = (Inr r, t)" and "db_ok (tx s)"
    and "tx u = tx t" and "\<not> deactivated u"
    and "extract_customer_object p' = Inr obj'" and "dict_get obj' ''id'' = PStr (cr_stripe_customer_id r)"
  shows "\<exists>r' v. handle_customer_created e' cfg' sdk' i' p' u = (Inr r', v) \<and>
    cr_outcome r' = SKIPPED_ALREADY_MAPPED \<and> cr_metronome_customer_id r' = cr_metronome_customer_id r \<and>
    tx v = tx u \<and> calls v = calls u \<and> api v = api u"
proof -
  obtain row where id: "cr_stripe_customer_id r \<noteq> []"
    and row: "customer_row (cr_stripe_customer_id r) (tx u) = Some row" "cm_metronome_customer_id row = cr_metronome_customer_id r"
    using customer_event_post [OF assms(1) [unfolded handle_customer_created_def] assms(2)] assms(3) by auto
  then show ?thesis
    using assms(4-6)
    by (simp add: handle_customer_created_def handle_customer_event_def handle_existing_mapping_def act_simps
        customer_require_str_def log_at_def db_read_def bnd_def)
qed

lemma customer_created_twice_witness:
  "calls (snd (handle_customer_created sample_env sample_settings (answering_sdk ''m_2'') ''evt_2'' (event_of sample_customer)
     (snd (handle_customer_created sample_env sample_settings (answering_sdk ''m_1'') ''evt_1'' (event_of sample_customer)
       (fresh_ctx empty_db ()))))) =
   calls (snd (handle_customer_created sample_env sample_settings (answering_sdk ''m_1'') ''evt_1'' (event_of sample_customer)
       (fresh_ctx empty_db ())))"
proof -
  let ?run = "handle_customer_created sample_env sample_settings (answering_sdk ''m_1'') ''evt_1''
    (event_of sample_customer) (fresh_ctx empty_db ())"
  let ?r = "\<lparr>cr_outcome = CREATED, cr_stripe_customer_id = ''cus_1'', cr_metronome_customer_id = ''m_1'', cr_duration_ms = 500\<rparr>"
  have res: "fst ?run = Inr ?r" and active: "\<not> deactivated (snd ?run)" by code_simp+
  then have run: "?run = (Inr ?r, snd ?run)" by (metis prod.collapse)
  have again: "\<exists>r' v. handle_customer_created sample_env sample_settings (answering_sdk ''m_2'') ''evt_2''
      (event_of sample_customer) (snd ?run) = (Inr r', v) \<and>
    cr_outcome r' = SKIPPED_ALREADY_MAPPED \<and> cr_metronome_customer_id r' = cr_metronome_customer_id ?r \<and>
    tx v = tx (snd ?run) \<and> calls v = calls (snd ?run) \<and> api v = api (snd ?run)"
    by (rule customer_created_twice [OF run _ refl active, where obj' = sample_customer])
      (simp_all add: fresh_ctx_def empty_db_def db_ok_def extract_customer_object_Inr event_of_def sample_customer_def)
  then show ?thesis by auto
qed

text \<open>C23: how a customer event fails. On a usable session, a failing event leaves the database as
  it was and raises one of: a \<open>PermanentHandlerError\<close>; what the \<open>except\<close> clauses make of the
  SDK's failure, after exactly one call; an \<open>IntegrityError\<close>, with the session deactivated,
  after exactly one call. So it is retried only if Metronome, a foreign exception or a
  violated constraint asks for it, never because of the payload.\<close>

theorem customer_event_failure:
  assumes "handle_customer_event ty e sdk i p s = (Inl exc, t)" and "\<not> deactivated s"
  shows "tx t = tx s \<and> ((\<exists>m. exc = permanent m) \<or> sdk_failure sdk exc s t \<or> constraint_failure exc s t)"
proof -
  have "tx t = tx s" using atomicD_Inl [OF customer_event_atomic assms(1)] by simp
  moreover have "(\<exists>m. exc = permanent m) \<or> sdk_failure sdk exc s t \<or> constraint_failure exc s t"
  proof -
    consider (early) "\<exists>m. exc = permanent m"
      | (branch) obj cid ls where "(case customer_row cid (tx s) of
            Some mapping \<Rightarrow> handle_existing_mapping e sdk obj mapping ty
          | None \<Rightarrow> create_new_mapping e sdk obj) (s\<lparr>log := ls\<rparr>) = (Inl exc, t)"
      using assms
      by (auto simp: handle_customer_event_def bnd_eq_Inl lift_eq log_at_eq db_read_eq ret_def
          split: if_splits dest: extract_customer_object_Inl customer_require_str_Inl)
    then show ?thesis
    proof cases
      case early
      then show ?thesis by blast
    next
      case (branch obj cid ls)
      then have "(\<exists>m. exc = permanent m) \<or> sdk_failure sdk exc (s\<lparr>log := ls\<rparr>) t \<or> constraint_failure exc (s\<lparr>log := ls\<rparr>) t"
        using assms(2) by (cases "customer_row cid (tx s)") (auto dest: handle_existing_Inl create_new_mapping_Inl)
      then show ?thesis by (simp add: sdk_failure_def constraint_failure_def)
    qed
  qed
  ultimately show ?thesis by blast
qed

lemma customer_event_failure_witness:
  "tx (snd (handle_customer_event ''customer.updated'' sample_env (failing_sdk (APITimeoutError ''slow'')) ''evt_1''
     (event_of sample_customer) (fresh_ctx mapped_db ()))) = mapped_db"
proof -
  let ?run = "handle_customer_event ''customer.updated'' sample_env (failing_sdk (APITimeoutError ''slow'')) ''evt_1''
     (event_of sample_customer) (fresh_ctx mapped_db ())"
  have "fst ?run = Inl (retryable ''slow'')" by code_simp
  then have run: "?run = (Inl (retryable ''slow''), snd ?run)" by (metis prod.collapse)
  show ?thesis using customer_event_failure [OF run] by (simp add: fresh_ctx_def)
qed

end
