(* ===== verification/Tiers.thy ===== *)
theory Tiers
  imports Errors
begin

text \<open>
  \<open>config/tiers.py\<close>: the tiers, the table from Stripe price ids to tiers, its lookup
  and the upgrade order. The lemmas: the lookup is exactly the table, and the
  upgrade test is a strict order that the configured ranks make total.
\<close>

datatype recurrence_frequency = MONTHLY | QUARTERLY | ANNUAL | WEEKLY

fun frequency_text :: "recurrence_frequency \<Rightarrow> string" where
  "frequency_text MONTHLY = ''MONTHLY''"
| "frequency_text QUARTERLY = ''QUARTERLY''"
| "frequency_text ANNUAL = ''ANNUAL''"
| "frequency_text WEEKLY = ''WEEKLY''"

record tier =
  tier_name :: string
  tier_rank :: int
  credit_amount_per_period :: int
  metronome_credit_product_id :: string
  metronome_credit_type_id :: string
  recurrence_frequency :: recurrence_frequency

definition TIERS :: "(string \<times> tier) list" where
  "TIERS =
     [(''price_REPLACE_ME_startup'',
       \<lparr>tier_name = ''startup'', tier_rank = 1, credit_amount_per_period = 10000000,
        metronome_credit_product_id = ''REPLACE_ME_startup_credit_product_uuid'',
        metronome_credit_type_id = ''REPLACE_ME_credit_type_uuid'', recurrence_frequency = MONTHLY\<rparr>),
      (''price_REPLACE_ME_stepup'',
       \<lparr>tier_name = ''step_up'', tier_rank = 2, credit_amount_per_period = 100000000,
        metronome_credit_product_id = ''REPLACE_ME_stepup_credit_product_uuid'',
        metronome_credit_type_id = ''REPLACE_ME_credit_type_uuid'', recurrence_frequency = MONTHLY\<rparr>),
      (''price_REPLACE_ME_higher_annual'',
       \<lparr>tier_name = ''higher'', tier_rank = 3, credit_amount_per_period = 200000000,
        metronome_credit_product_id = ''REPLACE_ME_higher_credit_product_uuid'',
        metronome_credit_type_id = ''REPLACE_ME_credit_type_uuid'', recurrence_frequency = ANNUAL\<rparr>)]"

definition lookup_tier :: "string \<Rightarrow> exn + tier" where
  "lookup_tier stripe_price_id =
     (case map_of TIERS stripe_price_id of
        Some t \<Rightarrow> Inr t
      | None \<Rightarrow> Inl (UnknownTierError stripe_price_id))"

definition is_upgrade :: "tier \<Rightarrow> tier \<Rightarrow> bool" where
  "is_upgrade old_tier new_tier \<longleftrightarrow> tier_rank new_tier > tier_rank old_tier"

lemma distinct_prices: "distinct (map fst TIERS)"
  by (simp add: TIERS_def)

lemma lookup_tier_Inr: "lookup_tier p = Inr t \<longleftrightarrow> (p, t) \<in> set TIERS"
  using map_of_eq_Some_iff [OF distinct_prices, of p t] by (auto simp: lookup_tier_def split: option.split)

lemma lookup_tier_Inl: "lookup_tier p = Inl e \<longleftrightarrow> p \<notin> fst ` set TIERS \<and> e = UnknownTierError p"
  using map_of_eq_None_iff [of TIERS p] by (cases "map_of TIERS p") (auto simp: lookup_tier_def)

interpretation upgrade: preordering "\<lambda>a b. tier_rank a \<le> tier_rank b" is_upgrade
  by unfold_locales (auto simp: is_upgrade_def)

section \<open>Properties\<close>

text \<open>The lookup is the table. \<open>lookup_tier\<close> returns a tier exactly if the table lists it under
  this price id, and otherwise raises \<open>UnknownTierError\<close> with the price id.\<close>

lemma lookup_tier_is_the_table:
  "(lookup_tier p = Inr t \<longleftrightarrow> (p, t) \<in> set TIERS) \<and>
   (lookup_tier p = Inl exc \<longleftrightarrow> p \<notin> fst ` set TIERS \<and> exc = UnknownTierError p)"
  using lookup_tier_Inr lookup_tier_Inl by blast

lemma configured_ranks:
  "\<forall>x \<in> set TIERS. \<forall>y \<in> set TIERS. fst x \<noteq> fst y \<longrightarrow>
     is_upgrade (snd x) (snd y) \<noteq> is_upgrade (snd y) (snd x) \<and>
     (is_upgrade (snd x) (snd y) \<longrightarrow> credit_amount_per_period (snd x) < credit_amount_per_period (snd y))"
  by code_simp

text \<open>Upgrades order the tiers. \<open>is_upgrade\<close> is a strict order (never of a tier to itself,
  never both ways, and transitive), and of two configured prices exactly one is an upgrade
  of the other, to the one with more credit per period.\<close>

lemma upgrades_order_the_tiers:
  assumes "(p, a) \<in> set TIERS" and "(q, b) \<in> set TIERS" and "p \<noteq> q"
  shows "\<not> is_upgrade a a \<and> is_upgrade a b \<noteq> is_upgrade b a \<and>
    (is_upgrade a b \<longrightarrow> credit_amount_per_period a < credit_amount_per_period b) \<and>
    (is_upgrade a b \<and> is_upgrade b c \<longrightarrow> is_upgrade a c)"
proof -
  have "is_upgrade a b \<noteq> is_upgrade b a \<and>
      (is_upgrade a b \<longrightarrow> credit_amount_per_period a < credit_amount_per_period b)"
    using configured_ranks assms by fastforce
  then show ?thesis using upgrade.irrefl [of a] upgrade.strict_trans [of a b c] by blast
qed

lemma upgrades_order_the_tiers_example:
  "\<not> is_upgrade (snd (hd TIERS)) (snd (hd TIERS)) \<and>
   is_upgrade (snd (hd TIERS)) (snd (last TIERS)) \<noteq> is_upgrade (snd (last TIERS)) (snd (hd TIERS))"
  using upgrades_order_the_tiers [of "fst (hd TIERS)" "snd (hd TIERS)" "fst (last TIERS)" "snd (last TIERS)"]
  by (simp add: TIERS_def)

end
