(* ===== verification/MapperSubscription.thy ===== *)
theory MapperSubscription
  imports PyTime Tiers
begin

text \<open>
  \<open>mappers/subscription.py\<close>: the pure function from a Stripe subscription object to
  the body of \<open>POST /v1/contracts/create\<close>, with its helpers.
\<close>

abbreviation value_error :: "string \<Rightarrow> exn" where
  "value_error m \<equiv> ValueError (PlainValueError m)"

definition mapper_require_str :: "pyval \<Rightarrow> string \<Rightarrow> exn + string" where
  "mapper_require_str value field_path =
     (case nonempty_str value of
        None \<Rightarrow> Inl (value_error (''Stripe subscription field `'' @ field_path @ ''` is missing or not a string.''))
      | Some s \<Rightarrow> Inr s)"

definition require_single_item :: "pydict \<Rightarrow> exn + (string \<times> pydict)" where
  "require_single_item stripe_subscription =
     (case dict_get stripe_subscription ''items'' of
        PDict items \<Rightarrow>
          (case dict_get items ''data'' of
             PList [] \<Rightarrow> Inl (value_error ''Stripe subscription has no items; refusing to map.'')
           | PList [PDict item] \<Rightarrow>
               (case dict_get item ''price'' of
                  PDict price \<Rightarrow>
                    try_bind (mapper_require_str (dict_get price ''id'') ''items.data[0].price.id'')
                      (\<lambda>price_id. Inr (price_id, item))
                | _ \<Rightarrow> Inl (value_error ''Stripe subscription item is missing `price`.''))
           | PList [_] \<Rightarrow> Inl (value_error ''Stripe subscription `items.data[0]` is not an object.'')
           | PList data \<Rightarrow> Inl (value_error
               (''Stripe subscription has '' @ show_int (int (length data)) @ '' items; multi-item '' @
                ''subscriptions are not supported in v0.2a.''))
           | _ \<Rightarrow> Inl (value_error ''Stripe subscription `items.data` is not a list.''))
      | _ \<Rightarrow> Inl (value_error ''Stripe subscription is missing `items`.''))"

definition period_start_unix :: "pydict \<Rightarrow> pydict \<Rightarrow> exn + int" where
  "period_start_unix stripe_subscription item =
     (let raw = (case as_int (dict_get item ''current_period_start'') of
                   Some n \<Rightarrow> Some n
                 | None \<Rightarrow> as_int (dict_get stripe_subscription ''current_period_start''))
      in case raw of
           None \<Rightarrow> Inl (value_error
             (''Stripe subscription field `current_period_start` is missing or '' @
              ''not an integer Unix timestamp on either the subscription or the '' @
              ''item '' @ em_dash @ '' cannot determine the contract start time.''))
         | Some n \<Rightarrow> Inr (n - n mod 3600))"

definition unix_to_iso_utc :: "int \<Rightarrow> exn + string" where
  "unix_to_iso_utc ts_unix = try_bind (fromtimestamp_utc ts_unix) (\<lambda>t. Inr (isoformat t))"

definition uniqueness_key :: "string \<Rightarrow> string \<Rightarrow> int \<Rightarrow> string" where
  "uniqueness_key subscription_id price_id start =
     subscription_id @ ''_'' @ price_id @ ''_'' @ show_int start"

definition recurring_credit :: "tier \<Rightarrow> string \<Rightarrow> pydict" where
  "recurring_credit tier starting_at_iso =
     [(''name'', PStr (tier_name tier @ '' '' @ py_lower (frequency_text (recurrence_frequency tier)) @ '' allotment'')),
      (''product_id'', PStr (metronome_credit_product_id tier)),
      (''priority'', PInt 100),
      (''starting_at'', PStr starting_at_iso),
      (''access_amount'', PDict
        [(''credit_type_id'', PStr (metronome_credit_type_id tier)),
         (''quantity'', PInt (credit_amount_per_period tier)),
         (''unit_price'', PInt 1)]),
      (''commit_duration'', PDict [(''value'', PInt 1), (''unit'', PStr ''PERIODS'')]),
      (''rollover_fraction'', PFloat 1),
      (''recurrence_frequency'', PStr (frequency_text (recurrence_frequency tier)))]"

definition stripe_subscription_to_metronome_contract_request ::
  "pydict \<Rightarrow> tier \<Rightarrow> string \<Rightarrow> string \<Rightarrow> exn + pydict" where
  "stripe_subscription_to_metronome_contract_request stripe_subscription tier metronome_customer_id rate_card_id =
     try_bind (mapper_require_str (dict_get stripe_subscription ''id'') ''id'') (\<lambda>subscription_id.
     try_bind (require_single_item stripe_subscription) (\<lambda>(price_id, item).
     try_bind (period_start_unix stripe_subscription item) (\<lambda>start.
     try_bind (unix_to_iso_utc start) (\<lambda>starting_at_iso.
       Inr [(''customer_id'', PStr metronome_customer_id),
            (''rate_card_id'', PStr rate_card_id),
            (''starting_at'', PStr starting_at_iso),
            (''uniqueness_key'', PStr (uniqueness_key subscription_id price_id start)),
            (''name'', PStr (''Stripe Subscription '' @ subscription_id @ '' ('' @ tier_name tier @ '')'')),
            (''billing_provider_configuration'', PDict
               [(''billing_provider'', PStr ''stripe''),
                (''delivery_method'', PStr ''direct_to_billing_provider'')]),
            (''recurring_credits'', PList [PDict (recurring_credit tier starting_at_iso)])]))))"

section \<open>The fields the mapper accepts\<close>

lemma mapper_require_str_ok [simp]: "mapper_require_str v p = Inr s \<longleftrightarrow> v = PStr s \<and> s \<noteq> []"
  by (auto simp: mapper_require_str_def nonempty_str_None split: option.splits)

lemma require_single_item_ok:
  "require_single_item sub = Inr (price_id, item) \<longleftrightarrow>
     (\<exists>items price. dict_get sub ''items'' = PDict items \<and> dict_get items ''data'' = PList [PDict item] \<and>
        dict_get item ''price'' = PDict price \<and> dict_get price ''id'' = PStr price_id \<and> price_id \<noteq> [])"
  by (auto simp: require_single_item_def try_bind_eq_Inr split: pyval.splits list.splits)

lemma period_start_unix_ok:
  "period_start_unix sub item = Inr start \<longleftrightarrow>
     (\<exists>raw. start = raw - raw mod 3600 \<and>
        (as_int (dict_get item ''current_period_start'') = Some raw \<or>
         as_int (dict_get item ''current_period_start'') = None \<and>
         as_int (dict_get sub ''current_period_start'') = Some raw))"
  by (auto simp: period_start_unix_def Let_def split: option.splits)

lemma fromtimestamp_utc_ok:
  "fromtimestamp_utc ts = Inr t \<Longrightarrow> t = ts * 1000000 \<and> year_of (ordinal_of_second ts) \<in> {1..9999}"
  by (auto simp: fromtimestamp_utc_def Let_def split: if_splits)

lemma unix_to_iso_utc_ok:
  assumes "unix_to_iso_utc ts = Inr s"
  shows "s = isoformat (ts * 1000000) \<and> parse_iso s = ts * 1000000"
  using assms fromtimestamp_utc_ok [of ts] parse_isoformat [of "ts * 1000000"]
  by (auto simp: unix_to_iso_utc_def try_bind_eq_Inr)

text \<open>A successful call, field by field.\<close>

lemma contract_request_ok:
  assumes "stripe_subscription_to_metronome_contract_request sub tier mcid rcid = Inr req"
  obtains subscription_id price_id item start iso where
    "dict_get sub ''id'' = PStr subscription_id" "subscription_id \<noteq> []"
    "require_single_item sub = Inr (price_id, item)" "period_start_unix sub item = Inr start"
    "unix_to_iso_utc start = Inr iso"
    "dict_get req ''customer_id'' = PStr mcid" "dict_get req ''rate_card_id'' = PStr rcid"
    "dict_get req ''starting_at'' = PStr iso"
    "dict_get req ''uniqueness_key'' = PStr (uniqueness_key subscription_id price_id start)"
    "dict_get req ''recurring_credits'' = PList [PDict (recurring_credit tier iso)]"
  using assms
  by (auto simp: stripe_subscription_to_metronome_contract_request_def try_bind_eq_Inr)

section \<open>Properties\<close>

text \<open>C30: the contract's start. If the mapper succeeds, the subscription's period start is an
  integer (the item's, or else the subscription's), and \<open>starting_at\<close>, of the contract and
  of its recurring credit alike, is an ISO time that reads back as that second rounded down
  to the hour: a whole hour, at most an hour before it. The body carries the customer, the
  rate card and the key made of subscription id, price id and this start.\<close>

theorem contract_start_is_the_hour:
  assumes "stripe_subscription_to_metronome_contract_request sub tier mcid rcid = Inr req"
  shows "\<exists>subscription_id price_id item raw start iso.
    dict_get sub ''id'' = PStr subscription_id \<and> require_single_item sub = Inr (price_id, item) \<and>
    (as_int (dict_get item ''current_period_start'') = Some raw \<or>
     as_int (dict_get item ''current_period_start'') = None \<and>
     as_int (dict_get sub ''current_period_start'') = Some raw) \<and>
    start mod 3600 = 0 \<and> raw - 3600 < start \<and> start \<le> raw \<and>
    dict_get req ''starting_at'' = PStr iso \<and> parse_iso iso = start * 1000000 \<and>
    dict_get req ''uniqueness_key'' = PStr (uniqueness_key subscription_id price_id start) \<and>
    dict_get req ''customer_id'' = PStr mcid \<and> dict_get req ''rate_card_id'' = PStr rcid \<and>
    dict_get req ''recurring_credits'' = PList [PDict (recurring_credit tier iso)] \<and>
    dict_get (recurring_credit tier iso) ''starting_at'' = PStr iso"
  using assms
proof (rule contract_request_ok)
  fix subscription_id price_id item start iso
  assume r: "dict_get sub ''id'' = PStr subscription_id" "require_single_item sub = Inr (price_id, item)"
    and start: "period_start_unix sub item = Inr start" and iso: "unix_to_iso_utc start = Inr iso"
    and req: "dict_get req ''starting_at'' = PStr iso"
      "dict_get req ''uniqueness_key'' = PStr (uniqueness_key subscription_id price_id start)"
      "dict_get req ''customer_id'' = PStr mcid" "dict_get req ''rate_card_id'' = PStr rcid"
      "dict_get req ''recurring_credits'' = PList [PDict (recurring_credit tier iso)]"
  obtain raw where raw: "start = raw - raw mod 3600"
    "as_int (dict_get item ''current_period_start'') = Some raw \<or>
     as_int (dict_get item ''current_period_start'') = None \<and>
     as_int (dict_get sub ''current_period_start'') = Some raw"
    using start by (auto simp: period_start_unix_ok)
  have "start mod 3600 = 0" using raw(1) by (metis cancel_comm_monoid_add_class.diff_cancel mod_0 mod_diff_eq mod_mod_trivial)
  moreover have "raw - 3600 < start" "start \<le> raw"
    using raw(1) pos_mod_bound [of 3600 raw] pos_mod_sign [of 3600 raw] by simp_all
  moreover have "dict_get (recurring_credit tier iso) ''starting_at'' = PStr iso" by (simp add: recurring_credit_def)
  ultimately show ?thesis using r raw(2) req unix_to_iso_utc_ok [OF iso, THEN conjunct2]
    by - (rule exI [of _ subscription_id], rule exI [of _ price_id], rule exI [of _ item],
        rule exI [of _ raw], rule exI [of _ start], rule exI [of _ iso], intro conjI, assumption+)
qed

definition sample_contract_subscription :: "pyval \<Rightarrow> pydict" where
  "sample_contract_subscription start =
     [(''id'', PStr ''sub_1''), (''current_period_start'', start),
      (''items'', PDict [(''data'', PList [PDict [(''price'', PDict [(''id'', PStr ''price_1'')])]])])]"

lemma contract_start_is_the_hour_witness:
  "\<exists>req iso. stripe_subscription_to_metronome_contract_request (sample_contract_subscription (PInt 1700003599))
     (snd (hd TIERS)) ''m_1'' ''card'' = Inr req \<and> dict_get req ''starting_at'' = PStr iso"
proof -
  let ?r = "stripe_subscription_to_metronome_contract_request (sample_contract_subscription (PInt 1700003599))
    (snd (hd TIERS)) ''m_1'' ''card''"
  have "\<not> isl ?r" by code_simp
  then obtain req where req: "?r = Inr req" by (cases ?r) simp_all
  show ?thesis using contract_start_is_the_hour [OF req] req by blast
qed

lemma split_at_separators:
  assumes "a @ CHR ''_'' # b = a' @ CHR ''_'' # b'" and "count_list a CHR ''_'' = count_list a' CHR ''_''"
  shows "a = a' \<and> b = b'"
  using assms
proof (induction a arbitrary: a')
  case Nil
  then show ?case by (cases a') auto
next
  case (Cons c a)
  then show ?case by (cases a') (auto split: if_splits)
qed

lemma show_int_no_separator: "count_list (show_int i) CHR ''_'' = 0"
  using show_int_chars [of "CHR ''_''" i] by (auto simp: count_list_0_iff)

lemma last_separator:
  assumes "a @ CHR ''_'' # b = a' @ CHR ''_'' # b'" and "count_list b CHR ''_'' = 0" "count_list b' CHR ''_'' = 0"
  shows "a = a' \<and> b = b'"
proof -
  have "rev b @ CHR ''_'' # rev a = rev b' @ CHR ''_'' # rev a'"
    using arg_cong [OF assms(1), of rev] by simp
  then have "rev b = rev b' \<and> rev a = rev a'"
    using assms(2,3) by (intro split_at_separators) (simp_all add: count_list_rev)
  then show ?thesis by simp
qed

text \<open>No configured price id, with the separator before it, ends another one.\<close>

lemma configured_suffix:
  assumes "p \<in> fst ` set TIERS" "p' \<in> fst ` set TIERS" and "a @ ''_'' @ p = a' @ ''_'' @ p'"
  shows "p = p'"
proof -
  have "rev p @ ''_'' @ rev a = rev p' @ ''_'' @ rev a'" using arg_cong [OF assms(3), of rev] by simp
  with assms(1,2) show ?thesis by (auto simp: TIERS_def)
qed

text \<open>C31: the uniqueness key identifies its parts. Two keys are equal only if subscription id,
  price id and start are, whatever the subscription ids if both prices are in the tier table,
  which those of every contract are; and whatever the prices if the subscription ids have
  equally many underscores. (In general the parts can be moved: \<open>a_b\<close> with \<open>c\<close> has the key of \<open>a\<close>
  with \<open>b_c\<close>.)\<close>

theorem uniqueness_key_injective:
  assumes "{pid, pid'} \<subseteq> fst ` set TIERS \<or> count_list sid CHR ''_'' = count_list sid' CHR ''_''"
  shows "uniqueness_key sid pid start = uniqueness_key sid' pid' start' \<longleftrightarrow>
    sid = sid' \<and> pid = pid' \<and> start = start'"
proof
  assume "uniqueness_key sid pid start = uniqueness_key sid' pid' start'"
  then have "(sid @ ''_'' @ pid) @ CHR ''_'' # show_int start = (sid' @ ''_'' @ pid') @ CHR ''_'' # show_int start'"
    by (simp add: uniqueness_key_def)
  then have parts: "sid @ ''_'' @ pid = sid' @ ''_'' @ pid' \<and> show_int start = show_int start'"
    by (rule last_separator) (rule show_int_no_separator)+
  from assms show "sid = sid' \<and> pid = pid' \<and> start = start'"
  proof
    assume "{pid, pid'} \<subseteq> fst ` set TIERS"
    with parts configured_suffix [of pid pid' sid sid'] show ?thesis by (simp add: show_int_inj)
  qed (use split_at_separators [of sid pid sid' pid'] parts in \<open>simp add: show_int_inj\<close>)
qed simp

lemma uniqueness_key_injective_witness:
  "uniqueness_key ''sub_A_price'' ''price_REPLACE_ME_startup'' 3600 \<noteq> uniqueness_key ''sub_A'' ''price_REPLACE_ME_stepup'' 3600"
  by (subst uniqueness_key_injective) (simp_all add: TIERS_def)

lemma require_single_item_Inl: "require_single_item sub = Inl exc \<Longrightarrow> \<exists>m. exc = value_error m"
  by (auto simp: require_single_item_def try_bind_eq_Inl mapper_require_str_def
      split: pyval.splits list.splits option.splits)

lemma fromtimestamp_utc_Inl:
  "fromtimestamp_utc ts = Inl exc \<Longrightarrow>
     (\<exists>m. exc = value_error m) \<or> (\<exists>m. exc = OverflowError m \<and> (ts < - (2 ^ 63) \<or> 2 ^ 63 \<le> ts)) \<or>
     (\<exists>m. exc = OSError m \<and> \<not> \<bar>year_of (ordinal_of_second ts)\<bar> < 2147480000)"
  by (auto simp: fromtimestamp_utc_def Let_def split: if_splits)

text \<open>The mapper's errors. Whatever the payload, the mapper fails with a \<open>ValueError\<close>, which
  the handler turns into a permanent failure, except for a period start that the platform
  cannot convert: a second count beyond 64 bits raises \<open>OverflowError\<close>, a year beyond 32 bits
  \<open>OSError\<close>, and the handler catches neither.\<close>

lemma mapper_errors:
  assumes "stripe_subscription_to_metronome_contract_request sub tier mcid rcid = Inl exc"
  shows "(\<exists>m. exc = value_error m) \<or>
    (\<exists>price_id item start. require_single_item sub = Inr (price_id, item) \<and> period_start_unix sub item = Inr start \<and>
       ((\<exists>m. exc = OverflowError m \<and> (start < - (2 ^ 63) \<or> 2 ^ 63 \<le> start)) \<or>
        (\<exists>m. exc = OSError m \<and> \<not> \<bar>year_of (ordinal_of_second start)\<bar> < 2147480000)))"
proof -
  have str: "mapper_require_str v f = Inl exc \<Longrightarrow> \<exists>m. exc = value_error m" for v f
    by (auto simp: mapper_require_str_def split: option.splits)
  have start: "period_start_unix sub item = Inl exc \<Longrightarrow> \<exists>m. exc = value_error m" for item
    by (auto simp: period_start_unix_def Let_def split: option.splits)
  show ?thesis
    using assms fromtimestamp_utc_Inl [of _ exc]
    by (fastforce simp: stripe_subscription_to_metronome_contract_request_def try_bind_eq_Inl unix_to_iso_utc_def
        dest: str start require_single_item_Inl)
qed

lemma mapper_errors_example:
  "\<exists>exc. stripe_subscription_to_metronome_contract_request (sample_contract_subscription (PInt 10000000000000000000))
     (snd (hd TIERS)) ''m_1'' ''card'' = Inl exc \<and> (\<forall>v. exc \<noteq> ValueError v)"
proof -
  let ?r = "stripe_subscription_to_metronome_contract_request (sample_contract_subscription (PInt 10000000000000000000))
    (snd (hd TIERS)) ''m_1'' ''card''"
  have r: "?r = Inl (OverflowError ''timestamp out of range for platform time_t'')" by code_simp
  show ?thesis using mapper_errors [OF r] r by auto
qed

text \<open>\<open>isinstance(True, int)\<close> holds: a boolean passes for a Unix time.\<close>

lemma boolean_period_start:
  "\<exists>req. stripe_subscription_to_metronome_contract_request (sample_contract_subscription (PBool True))
     (snd (hd TIERS)) ''m_1'' ''card'' = Inr req \<and>
   dict_get req ''starting_at'' = PStr ''1970-01-01T00:00:00+00:00''"
proof -
  let ?r = "stripe_subscription_to_metronome_contract_request (sample_contract_subscription (PBool True))
    (snd (hd TIERS)) ''m_1'' ''card''"
  have "dict_get (projr ?r) ''starting_at'' = PStr ''1970-01-01T00:00:00+00:00'' \<and> \<not> isl ?r" by code_simp
  then show ?thesis by (cases ?r) simp_all
qed

end
