(* ===== verification/HandlerSubscription.thy ===== *)
theory HandlerSubscription
  imports HandlerCustomer MapperSubscription
begin

text \<open>
  \<open>handlers/subscription.py\<close>: the handler of \<open>customer.subscription.created\<close>, step by
  step, and the two handlers that only log.
\<close>

datatype subscription_outcome =
    CONTRACT_CREATED
  | CONTRACT_CREATED_VIA_UNIQUENESS_KEY_RECOVERY
  | CONTRACT_SKIPPED_ALREADY_MAPPED

fun subscription_outcome_text :: "subscription_outcome \<Rightarrow> string" where
  "subscription_outcome_text CONTRACT_CREATED = ''created''"
| "subscription_outcome_text CONTRACT_CREATED_VIA_UNIQUENESS_KEY_RECOVERY = ''created_via_uniqueness_key_recovery''"
| "subscription_outcome_text CONTRACT_SKIPPED_ALREADY_MAPPED = ''skipped_already_mapped''"

record subscription_result =
  sr_outcome :: subscription_outcome
  sr_stripe_subscription_id :: string
  sr_stripe_customer_id :: string
  sr_metronome_customer_id :: string
  sr_metronome_contract_id :: string
  sr_tier_name :: string
  sr_duration_ms :: int

section \<open>Helpers\<close>

definition extract_subscription_object :: "pydict \<Rightarrow> exn + pydict" where
  "extract_subscription_object event_payload =
     (case dict_get event_payload ''data'' of
        PDict data \<Rightarrow>
          (case dict_get data ''object'' of
             PDict obj \<Rightarrow> Inr obj
           | _ \<Rightarrow> Inl (permanent ''Stripe event missing `data.object`.''))
      | _ \<Rightarrow> Inl (permanent ''Stripe event missing `data` object.''))"

definition subscription_require_str :: "pyval \<Rightarrow> string \<Rightarrow> exn + string" where
  "subscription_require_str value field_path =
     (case nonempty_str value of
        None \<Rightarrow> Inl (permanent (''Stripe event field `'' @ field_path @ ''` is missing or empty.''))
      | Some s \<Rightarrow> Inr s)"

definition lookup_customer_mapping :: "string \<Rightarrow> ('m, customer_mapping option) session_act" where
  "lookup_customer_mapping stripe_customer_id = db_read (customer_row stripe_customer_id)"

declare lookup_customer_mapping_def [simp, act_simps]

definition require_metronome_customer_id :: "string \<Rightarrow> ('m, string) session_act" where
  "require_metronome_customer_id stripe_customer_id =
     bnd (lookup_customer_mapping stripe_customer_id) (\<lambda>found.
       case found of
         Some mapping \<Rightarrow> ret (cm_metronome_customer_id mapping)
       | None \<Rightarrow> raising (permanent
           (''subscription_mappings row exists for Stripe customer '' @
            py_repr stripe_customer_id @ '' but no customer_mappings row does '' @ em_dash @ '' '' @
            ''database integrity issue.'')))"

definition extract_single_price_id :: "pydict \<Rightarrow> exn + string" where
  "extract_single_price_id stripe_subscription =
     (case dict_get stripe_subscription ''items'' of
        PDict items \<Rightarrow>
          (case dict_get items ''data'' of
             PList [] \<Rightarrow> Inl (permanent ''Stripe subscription has no items; cannot determine tier.'')
           | PList [PDict item] \<Rightarrow>
               (case dict_get item ''price'' of
                  PDict price \<Rightarrow>
                    (case nonempty_str (dict_get price ''id'') of
                       Some price_id \<Rightarrow> Inr price_id
                     | None \<Rightarrow> Inl (permanent ''Stripe subscription item is missing `price.id`.''))
                | _ \<Rightarrow> Inl (permanent ''Stripe subscription item is missing `price`.''))
           | PList [_] \<Rightarrow> Inl (permanent ''Stripe subscription `items.data[0]` is not an object.'')
           | PList data \<Rightarrow> Inl (permanent
               (''Stripe subscription has '' @ show_int (int (length data)) @ '' items; multi-item '' @
                ''subscriptions are not supported in v0.2a.''))
           | _ \<Rightarrow> Inl (permanent ''Stripe subscription has no items; cannot determine tier.''))
      | _ \<Rightarrow> Inl (permanent ''Stripe subscription is missing `items`; cannot determine tier.''))"

text \<open>The \<open>except\<close> clauses around the tier lookup and around the mapper.\<close>

fun tier_failure :: "exn \<Rightarrow> exn" where
  "tier_failure (UnknownTierError p) = permanent (exn_str (UnknownTierError p))"
| "tier_failure e = e"

fun subscription_mapper_failure :: "exn \<Rightarrow> exn" where
  "subscription_mapper_failure (ValueError v) =
     permanent (''Cannot map Stripe subscription: '' @ exn_str (ValueError v))"
| "subscription_mapper_failure e = e"

definition log_completed :: "subscription_result \<Rightarrow> pydict \<Rightarrow> ('m, unit) session_act" where
  "log_completed result log_ctx =
     log_at INFO ''handler_completed''
       ([(''event'', PStr ''handler_completed'')] @ log_ctx @
        [(''metronome_customer_id'', PStr (sr_metronome_customer_id result)),
         (''metronome_contract_id'', PStr (sr_metronome_contract_id result)),
         (''tier_name'', PStr (sr_tier_name result)),
         (''outcome'', PStr (subscription_outcome_text (sr_outcome result))),
         (''duration_ms'', PInt (sr_duration_ms result))])"

section \<open>customer.subscription.created\<close>

text \<open>Step 1, when the subscription is mapped already.\<close>

definition skip_mapped_subscription ::
  "env \<Rightarrow> subscription_mapping \<Rightarrow> pydict \<Rightarrow> ('m, subscription_result) session_act" where
  "skip_mapped_subscription e existing log_ctx =
     bnd (require_metronome_customer_id (sm_stripe_customer_id existing)) (\<lambda>metronome_customer_id.
     bnd (ret \<lparr>sr_outcome = CONTRACT_SKIPPED_ALREADY_MAPPED,
               sr_stripe_subscription_id = sm_stripe_subscription_id existing,
               sr_stripe_customer_id = sm_stripe_customer_id existing,
               sr_metronome_customer_id = metronome_customer_id,
               sr_metronome_contract_id = sm_metronome_contract_id existing,
               sr_tier_name = sm_current_tier_name existing,
               sr_duration_ms = elapsed_ms e\<rparr>) (\<lambda>result.
     bnd (log_completed result log_ctx) (\<lambda>_. ret result)))"

text \<open>Steps 2 to 7, when it is not.\<close>

definition map_new_subscription ::
  "env \<Rightarrow> settings \<Rightarrow> 'm sdk \<Rightarrow> pydict \<Rightarrow> string \<Rightarrow> string \<Rightarrow> pydict \<Rightarrow> ('m, subscription_result) session_act" where
  "map_new_subscription e cfg sdk stripe_subscription subscription_id stripe_customer_id log_ctx =
     bnd (lift (extract_single_price_id stripe_subscription)) (\<lambda>price_id.
     bnd (lookup_customer_mapping stripe_customer_id) (\<lambda>found.
     case found of
       None \<Rightarrow> raising (retryable
         (''No customer_mappings row for Stripe customer '' @
          py_repr stripe_customer_id @ ''. Likely an out-of-order webhook '' @ em_dash @ '' '' @
          ''customer.created has not been processed yet.''))
     | Some customer_mapping \<Rightarrow>
         bnd (lift (map_error tier_failure (lookup_tier price_id))) (\<lambda>tier.
         bnd (lift (map_error subscription_mapper_failure
               (stripe_subscription_to_metronome_contract_request stripe_subscription tier
                 (cm_metronome_customer_id customer_mapping) (metronome_default_rate_card_id cfg)))) (\<lambda>request_body.
         bnd (except_as metronome_failure (create_contract sdk request_body)) (\<lambda>created.
         bnd (add_and_flush (insert_subscription_mapping
               \<lparr>sm_stripe_subscription_id = subscription_id,
                sm_stripe_customer_id = stripe_customer_id,
                sm_metronome_contract_id = metronome_contract_id created,
                sm_current_tier_name = tier_name tier,
                sm_current_stripe_price_id = price_id,
                sm_created_at = tx_start e, sm_updated_at = handler_now e\<rparr>)) (\<lambda>_.
         bnd (ret \<lparr>sr_outcome = (if via_uniqueness_key_recovery created
                                then CONTRACT_CREATED_VIA_UNIQUENESS_KEY_RECOVERY else CONTRACT_CREATED),
                   sr_stripe_subscription_id = subscription_id,
                   sr_stripe_customer_id = stripe_customer_id,
                   sr_metronome_customer_id = cm_metronome_customer_id customer_mapping,
                   sr_metronome_contract_id = metronome_contract_id created,
                   sr_tier_name = tier_name tier,
                   sr_duration_ms = elapsed_ms e\<rparr>) (\<lambda>result.
         bnd (log_completed result log_ctx) (\<lambda>_. ret result))))))))"

definition handle_subscription_created ::
  "env \<Rightarrow> settings \<Rightarrow> 'm sdk \<Rightarrow> string \<Rightarrow> pydict \<Rightarrow> ('m, subscription_result) session_act" where
  "handle_subscription_created e cfg sdk event_id event_payload =
     bnd (lift (extract_subscription_object event_payload)) (\<lambda>stripe_subscription.
     bnd (lift (subscription_require_str (dict_get stripe_subscription ''id'') ''data.object.id'')) (\<lambda>subscription_id.
     bnd (lift (subscription_require_str (dict_get stripe_subscription ''customer'') ''data.object.customer'')) (\<lambda>stripe_customer_id.
     bnd (ret [(''stripe_event_id'', PStr event_id),
               (''stripe_event_type'', PStr ''customer.subscription.created''),
               (''stripe_subscription_id'', PStr subscription_id),
               (''stripe_customer_id'', PStr stripe_customer_id)]) (\<lambda>log_ctx.
     bnd (log_at INFO ''handler_started'' ([(''event'', PStr ''handler_started'')] @ log_ctx)) (\<lambda>_.
     bnd (db_read (subscription_row subscription_id)) (\<lambda>found.
     case found of
       Some existing \<Rightarrow> skip_mapped_subscription e existing log_ctx
     | None \<Rightarrow> map_new_subscription e cfg sdk stripe_subscription subscription_id stripe_customer_id log_ctx))))))"

section \<open>The handlers that only log\<close>

definition handle_subscription_updated ::
  "env \<Rightarrow> settings \<Rightarrow> 'm sdk \<Rightarrow> string \<Rightarrow> pydict \<Rightarrow> ('m, unit) session_act" where
  "handle_subscription_updated e cfg sdk event_id event_payload =
     bnd (lift (extract_subscription_object event_payload)) (\<lambda>stripe_subscription.
     bnd (lift (subscription_require_str (dict_get stripe_subscription ''id'') ''data.object.id'')) (\<lambda>subscription_id.
     bnd (lift (subscription_require_str (dict_get stripe_subscription ''customer'') ''data.object.customer'')) (\<lambda>stripe_customer_id.
     log_at WARNING ''subscription_update_not_propagated''
       [(''event'', PStr ''subscription_update_not_propagated''),
        (''stripe_event_id'', PStr event_id),
        (''stripe_event_type'', PStr ''customer.subscription.updated''),
        (''stripe_subscription_id'', PStr subscription_id),
        (''stripe_customer_id'', PStr stripe_customer_id),
        (''metronome_contract_amended'', PBool False),
        (''reason'', PStr (''v0.2a does not handle subscription updates; the Metronome '' @
           ''contract still reflects the original tier. Implement in v0.2b.''))])))"

definition handle_subscription_deleted ::
  "env \<Rightarrow> settings \<Rightarrow> 'm sdk \<Rightarrow> string \<Rightarrow> pydict \<Rightarrow> ('m, unit) session_act" where
  "handle_subscription_deleted e cfg sdk event_id event_payload =
     bnd (lift (extract_subscription_object event_payload)) (\<lambda>stripe_subscription.
     bnd (lift (subscription_require_str (dict_get stripe_subscription ''id'') ''data.object.id'')) (\<lambda>subscription_id.
     bnd (lift (subscription_require_str (dict_get stripe_subscription ''customer'') ''data.object.customer'')) (\<lambda>stripe_customer_id.
     log_at WARNING ''subscription_deletion_not_propagated''
       [(''event'', PStr ''subscription_deletion_not_propagated''),
        (''stripe_event_id'', PStr event_id),
        (''stripe_event_type'', PStr ''customer.subscription.deleted''),
        (''stripe_subscription_id'', PStr subscription_id),
        (''stripe_customer_id'', PStr stripe_customer_id),
        (''metronome_contract_terminated'', PBool False),
        (''reason'', PStr (''v0.2a does not terminate Metronome contracts on Stripe '' @
           ''subscription cancel; the contract remains active until its '' @
           ''natural end. Implement termination in v0.2b or run a '' @
           ''separate cleanup process.''))])))"

section \<open>The handlers' contract\<close>

lemma log_completed_frames:
  "framed same_tx (log_completed r x)" "framed records (log_completed r x)" "quiet (log_completed r x)"
  unfolding log_completed_def by (intro basic_same_tx basic_records quiet_rules)+

lemma require_customer_frames:
  "framed same_tx (require_metronome_customer_id c)" "framed records (require_metronome_customer_id c)"
  unfolding require_metronome_customer_id_def lookup_customer_mapping_def
  by (auto split: option.split intro!: same_tx_rules records_rules)

lemma skip_mapped_same_tx: "framed same_tx (skip_mapped_subscription e x l)"
  unfolding skip_mapped_subscription_def
  by (intro same_tx_rules require_customer_frames log_completed_frames)

lemma skip_mapped_records: "framed records (skip_mapped_subscription e x l)"
  unfolding skip_mapped_subscription_def
  by (intro records_rules require_customer_frames log_completed_frames)

lemma map_new_keeps_ok: "framed keeps_ok (map_new_subscription e cfg sdk obj i c l)"
  unfolding map_new_subscription_def lookup_customer_mapping_def
  by (intro keeps_ok_rules same_tx_keeps_ok [OF same_tx_except] client_same_tx
      log_completed_frames(1) [THEN same_tx_keeps_ok]) (erule insert_subscription_ok)

lemma map_new_grows: "framed grows (map_new_subscription e cfg sdk obj i c l)"
  unfolding map_new_subscription_def lookup_customer_mapping_def
  by (intro grows_rules same_tx_grows [OF same_tx_except] client_same_tx
      log_completed_frames(1) [THEN same_tx_grows]) (erule insert_subscription_grows)

lemma map_new_records: "framed records (map_new_subscription e cfg sdk obj i c l)"
  unfolding map_new_subscription_def lookup_customer_mapping_def by (intro records_rules client_records log_completed_frames)

lemma map_new_atomic: "atomic (map_new_subscription e cfg sdk obj i c l)"
  unfolding map_new_subscription_def lookup_customer_mapping_def
  by (intro atomic_rules same_tx_rules client_same_tx quiet_rules log_completed_frames)
    (erule insert_subscription_error)

lemma subscription_created_keeps_ok: "framed keeps_ok (handle_subscription_created e cfg sdk i p)"
  unfolding handle_subscription_created_def
  by (intro keeps_ok_rules map_new_keeps_ok skip_mapped_same_tx [THEN same_tx_keeps_ok])

lemma subscription_created_grows: "framed grows (handle_subscription_created e cfg sdk i p)"
  unfolding handle_subscription_created_def
  by (intro grows_rules map_new_grows skip_mapped_same_tx [THEN same_tx_grows])

lemma subscription_created_records: "framed records (handle_subscription_created e cfg sdk i p)"
  unfolding handle_subscription_created_def by (intro records_rules map_new_records skip_mapped_records)

lemma subscription_created_atomic: "atomic (handle_subscription_created e cfg sdk i p)"
  unfolding handle_subscription_created_def
  by (intro atomic_rules same_tx_rules map_new_atomic skip_mapped_same_tx [THEN same_tx_atomic])

lemma logging_handlers_same_tx:
  "framed same_tx (handle_subscription_updated e cfg sdk i p)"
  "framed same_tx (handle_subscription_deleted e cfg sdk i p)"
  unfolding handle_subscription_updated_def handle_subscription_deleted_def by (intro same_tx_rules)+

lemma logging_handlers_records:
  "framed records (handle_subscription_updated e cfg sdk i p)"
  "framed records (handle_subscription_deleted e cfg sdk i p)"
  unfolding handle_subscription_updated_def handle_subscription_deleted_def by (intro records_rules)+

interpretation subscription_created: event_handler handle_subscription_created
  by unfold_locales (intro subscription_created_keeps_ok subscription_created_grows
    subscription_created_records subscription_created_atomic)+

interpretation subscription_updated: event_handler handle_subscription_updated
  by unfold_locales (simp_all add: logging_handlers_same_tx same_tx_keeps_ok same_tx_grows same_tx_atomic
    logging_handlers_records)

interpretation subscription_deleted: event_handler handle_subscription_deleted
  by unfold_locales (simp_all add: logging_handlers_same_tx same_tx_keeps_ok same_tx_grows same_tx_atomic
    logging_handlers_records)

section \<open>The branches of the handler\<close>

lemma extract_subscription_object_Inr:
  "extract_subscription_object p = Inr obj \<longleftrightarrow>
     (\<exists>data. dict_get p ''data'' = PDict data \<and> dict_get data ''object'' = PDict obj)"
  by (auto simp: extract_subscription_object_def split: pyval.splits)

lemma subscription_require_str_Inr [simp]: "subscription_require_str v f = Inr s \<longleftrightarrow> v = PStr s \<and> s \<noteq> []"
  by (auto simp: subscription_require_str_def nonempty_str_None split: option.splits)

lemma extract_single_price_id_Inr:
  "extract_single_price_id sub = Inr price_id \<longleftrightarrow>
     (\<exists>items item price. dict_get sub ''items'' = PDict items \<and> dict_get items ''data'' = PList [PDict item] \<and>
        dict_get item ''price'' = PDict price \<and> dict_get price ''id'' = PStr price_id \<and> price_id \<noteq> [])"
  by (auto simp: extract_single_price_id_def split: pyval.splits list.splits option.splits if_splits)

lemma extract_single_price_id_Inl: "extract_single_price_id sub = Inl exc \<Longrightarrow> \<exists>m. exc = permanent m"
  by (auto simp: extract_single_price_id_def split: pyval.splits list.splits option.splits)

text \<open>The payload a handler can work on: the subscription object, its id and its customer.\<close>

definition subscription_event :: "pydict \<Rightarrow> pydict \<Rightarrow> string \<Rightarrow> string \<Rightarrow> bool" where
  "subscription_event p obj sid cid \<longleftrightarrow>
     extract_subscription_object p = Inr obj \<and> dict_get obj ''id'' = PStr sid \<and> sid \<noteq> [] \<and>
     dict_get obj ''customer'' = PStr cid \<and> cid \<noteq> []"

definition subscription_log_ctx :: "string \<Rightarrow> string \<Rightarrow> string \<Rightarrow> pydict" where
  "subscription_log_ctx i sid cid =
     [(''stripe_event_id'', PStr i), (''stripe_event_type'', PStr ''customer.subscription.created''),
      (''stripe_subscription_id'', PStr sid), (''stripe_customer_id'', PStr cid)]"

lemma handle_subscription_created_run:
  assumes "subscription_event p obj sid cid" and "\<not> deactivated s"
  obtains ls where
    "handle_subscription_created e cfg sdk i p s =
       (case subscription_row sid (tx s) of
          Some existing \<Rightarrow> skip_mapped_subscription e existing (subscription_log_ctx i sid cid)
        | None \<Rightarrow> map_new_subscription e cfg sdk obj sid cid (subscription_log_ctx i sid cid))
       (s\<lparr>log := log s @ ls\<rparr>)"
proof -
  have ids: "subscription_require_str (PStr sid) f = Inr sid" "subscription_require_str (PStr cid) f = Inr cid" for f
    using assms(1) by (simp_all add: subscription_event_def)
  show thesis
    using assms
    by (intro that [of "[\<lparr>log_record_level = INFO, log_record_message = ''handler_started'',
        log_record_extra = (''event'', PStr ''handler_started'') # subscription_log_ctx i sid cid\<rparr>]"])
      (simp add: subscription_event_def handle_subscription_created_def act_simps log_at_def ids db_read_def
        bnd_def subscription_log_ctx_def split: option.split)
qed

lemma handle_subscription_created_Inr:
  assumes "handle_subscription_created e cfg sdk i p s = (Inr r, t)"
  obtains obj sid cid where "subscription_event p obj sid cid" "\<not> deactivated s"
  using assms
  by (auto simp: handle_subscription_created_def subscription_event_def bnd_eq_Inr lift_eq log_at_eq db_read_eq
      ret_def split: if_splits)

lemma skip_mapped_Inr:
  assumes "skip_mapped_subscription e existing ctx s = (Inr r, t)"
  shows "\<exists>crow. customer_row (sm_stripe_customer_id existing) (tx s) = Some crow \<and>
      sr_metronome_customer_id r = cm_metronome_customer_id crow"
    and "sr_outcome r = CONTRACT_SKIPPED_ALREADY_MAPPED"
    and "sr_metronome_contract_id r = sm_metronome_contract_id existing"
    and "sr_stripe_subscription_id r = sm_stripe_subscription_id existing"
    and "tx t = tx s \<and> calls t = calls s \<and> api t = api s"
  using assms
  by (auto simp: skip_mapped_subscription_def require_metronome_customer_id_def bnd_eq_Inr db_read_eq ret_def
      raising_def log_completed_def log_at_eq split: option.splits if_splits)
    (rule exI, rule conjI, erule sym, rule refl)

lemma map_new_Inr:
  assumes "map_new_subscription e cfg sdk obj sid cid ctx s = (Inr r, t)"
  obtains price crow tier body created v row d where
    "extract_single_price_id obj = Inr price" "customer_row cid (tx s) = Some crow" "lookup_tier price = Inr tier"
    "stripe_subscription_to_metronome_contract_request obj tier (cm_metronome_customer_id crow)
       (metronome_default_rate_card_id cfg) = Inr body"
    "create_contract sdk body s = (Inr created, v)" "insert_subscription_mapping row (tx v) = Inr d"
    "row = \<lparr>sm_stripe_subscription_id = sid, sm_stripe_customer_id = cid,
       sm_metronome_contract_id = metronome_contract_id created, sm_current_tier_name = tier_name tier,
       sm_current_stripe_price_id = price, sm_created_at = tx_start e, sm_updated_at = handler_now e\<rparr>"
    "tx t = d" "calls t = calls v" "api t = api v"
    "sr_outcome r = (if via_uniqueness_key_recovery created then CONTRACT_CREATED_VIA_UNIQUENESS_KEY_RECOVERY
       else CONTRACT_CREATED)"
    "sr_stripe_subscription_id r = sid" "sr_metronome_customer_id r = cm_metronome_customer_id crow"
    "sr_metronome_contract_id r = metronome_contract_id created" "sr_tier_name r = tier_name tier"
  using assms
  by (auto simp: map_new_subscription_def bnd_eq_Inr lift_eq map_error_eq_Inr except_as_eq_Inr db_read_eq
      add_and_flush_Inr ret_def raising_def log_completed_def log_at_eq split: option.splits if_splits)

text \<open>
  What it means that a new mapping row stands for a contract made for the customer: the
  price of the subscription is in the tier table, the body is the mapper's, and the row
  carries the contract id that \<open>create_contract\<close> returned for it.
\<close>

definition maps_contract ::
  "settings \<Rightarrow> 'm sdk \<Rightarrow> pydict \<Rightarrow> customer_mapping \<Rightarrow> subscription_mapping \<Rightarrow> subscription_result \<Rightarrow>
     'm ctx \<Rightarrow> 'm ctx \<Rightarrow> bool" where
  "maps_contract cfg sdk obj crow row r s t \<longleftrightarrow>
     (\<exists>price tier body created u v.
        extract_single_price_id obj = Inr price \<and> (price, tier) \<in> set TIERS \<and>
        sm_current_stripe_price_id row = price \<and> sm_current_tier_name row = tier_name tier \<and>
        stripe_subscription_to_metronome_contract_request obj tier (cm_metronome_customer_id crow)
          (metronome_default_rate_card_id cfg) = Inr body \<and>
        tx u = tx s \<and> api u = api s \<and> calls u = calls s \<and>
        create_contract sdk body u = (Inr created, v) \<and> calls t = calls v \<and> api t = api v \<and>
        metronome_contract_id created = sr_metronome_contract_id r \<and>
        (sr_outcome r = CONTRACT_CREATED_VIA_UNIQUENESS_KEY_RECOVERY \<longleftrightarrow> via_uniqueness_key_recovery created) \<and>
        (sr_outcome r = CONTRACT_CREATED \<longleftrightarrow> \<not> via_uniqueness_key_recovery created))"

lemma map_new_post:
  assumes "map_new_subscription e cfg sdk obj sid cid ctx s = (Inr r, t)" and "subscription_row sid (tx s) = None"
  obtains row crow where "subscription_row sid (tx t) = Some row" "sm_stripe_customer_id row = cid"
    "sm_metronome_contract_id row = sr_metronome_contract_id r"
    "customer_row cid (tx s) = Some crow" "customer_row cid (tx t) = Some crow"
    "cm_metronome_customer_id crow = sr_metronome_customer_id r"
    "tx t = (tx s)\<lparr>subscription_mappings := subscription_mappings (tx s) @ [row]\<rparr>"
    "maps_contract cfg sdk obj crow row r s t"
proof (rule map_new_Inr [OF assms(1)])
  fix price crow tier body created v row d
  assume price: "extract_single_price_id obj = Inr price" and tier: "lookup_tier price = Inr tier"
    and crow: "customer_row cid (tx s) = Some crow"
    and body: "stripe_subscription_to_metronome_contract_request obj tier (cm_metronome_customer_id crow)
      (metronome_default_rate_card_id cfg) = Inr body"
    and create: "create_contract sdk body s = (Inr created, v)"
    and ins: "insert_subscription_mapping row (tx v) = Inr d" and t: "tx t = d" "calls t = calls v" "api t = api v"
    and row: "row = \<lparr>sm_stripe_subscription_id = sid, sm_stripe_customer_id = cid,
      sm_metronome_contract_id = metronome_contract_id created, sm_current_tier_name = tier_name tier,
      sm_current_stripe_price_id = price, sm_created_at = tx_start e, sm_updated_at = handler_now e\<rparr>"
    and res: "sr_outcome r = (if via_uniqueness_key_recovery created then CONTRACT_CREATED_VIA_UNIQUENESS_KEY_RECOVERY
      else CONTRACT_CREATED)" "sr_metronome_customer_id r = cm_metronome_customer_id crow"
      "sr_metronome_contract_id r = metronome_contract_id created"
  have "tx v = tx s" using framedD [OF create_contract_same_tx create] by (simp add: same_tx_def)
  with ins t have d: "tx t = (tx s)\<lparr>subscription_mappings := subscription_mappings (tx s) @ [row]\<rparr>"
    by (auto simp: insert_subscription_mapping_def split: if_splits)
  have found: "subscription_row sid (tx t) = Some row" "customer_row cid (tx t) = Some crow"
    using assms(2) crow row by (simp_all add: d subscription_row_def customer_row_def find_append)
  have "maps_contract cfg sdk obj crow row r s t"
    unfolding maps_contract_def
    by (rule exI [of _ price], rule exI [of _ tier], rule exI [of _ body], rule exI [of _ created],
        rule exI [of _ s], rule exI [of _ v])
      (simp add: price tier [unfolded lookup_tier_Inr] row body create t res)
  with found crow d row res show thesis by (intro that) simp_all
qed

text \<open>The log line written before the branches changes nothing they depend on.\<close>

lemma maps_contract_log:
  "maps_contract cfg sdk obj crow row r (s\<lparr>log := ls\<rparr>) t \<longleftrightarrow> maps_contract cfg sdk obj crow row r s t"
  by (simp add: maps_contract_def)

lemma subscription_created_post:
  assumes "handle_subscription_created e cfg sdk i p s = (Inr r, t)"
  shows "\<exists>obj sid cid row crow. subscription_event p obj sid cid \<and>
    subscription_row sid (tx t) = Some row \<and> sm_metronome_contract_id row = sr_metronome_contract_id r \<and>
    customer_row (sm_stripe_customer_id row) (tx t) = Some crow \<and>
    cm_metronome_customer_id crow = sr_metronome_customer_id r \<and>
    (case subscription_row sid (tx s) of
       Some existing \<Rightarrow> row = existing \<and> sr_outcome r = CONTRACT_SKIPPED_ALREADY_MAPPED \<and>
         tx t = tx s \<and> calls t = calls s
     | None \<Rightarrow> sm_stripe_customer_id row = cid \<and> maps_contract cfg sdk obj crow row r s t \<and>
         tx t = (tx s)\<lparr>subscription_mappings := subscription_mappings (tx s) @ [row]\<rparr>)"
proof -
  obtain obj sid cid where ev: "subscription_event p obj sid cid" and active: "\<not> deactivated s"
    using handle_subscription_created_Inr [OF assms(1)] .
  obtain ls where "handle_subscription_created e cfg sdk i p s =
       (case subscription_row sid (tx s) of
          Some existing \<Rightarrow> skip_mapped_subscription e existing (subscription_log_ctx i sid cid)
        | None \<Rightarrow> map_new_subscription e cfg sdk obj sid cid (subscription_log_ctx i sid cid))
       (s\<lparr>log := log s @ ls\<rparr>)"
    using handle_subscription_created_run [OF ev active] by blast
  note run = this [unfolded assms(1), symmetric]
  show ?thesis
  proof (cases "subscription_row sid (tx s)")
    case (Some existing)
    with run have "skip_mapped_subscription e existing (subscription_log_ctx i sid cid) (s\<lparr>log := log s @ ls\<rparr>) = (Inr r, t)"
      by simp
    from skip_mapped_Inr [OF this] Some ev show ?thesis by fastforce
  next
    case None
    with run have "map_new_subscription e cfg sdk obj sid cid (subscription_log_ctx i sid cid) (s\<lparr>log := log s @ ls\<rparr>) = (Inr r, t)"
      by simp
    then show ?thesis
    proof (rule map_new_post)
      show "subscription_row sid (tx (s\<lparr>log := log s @ ls\<rparr>)) = None" using None by simp
    next
      fix row crow
      assume new: "subscription_row sid (tx t) = Some row"
        "sm_stripe_customer_id row = cid" "sm_metronome_contract_id row = sr_metronome_contract_id r"
        "customer_row cid (tx t) = Some crow" "cm_metronome_customer_id crow = sr_metronome_customer_id r"
        and "tx t = (tx (s\<lparr>log := log s @ ls\<rparr>))\<lparr>subscription_mappings :=
          subscription_mappings (tx (s\<lparr>log := log s @ ls\<rparr>)) @ [row]\<rparr>"
        and "maps_contract cfg sdk obj crow row r (s\<lparr>log := log s @ ls\<rparr>) t"
      then have "tx t = (tx s)\<lparr>subscription_mappings := subscription_mappings (tx s) @ [row]\<rparr>"
        "maps_contract cfg sdk obj crow row r s t"
        by (simp_all add: maps_contract_log)
      then show ?thesis
        by (intro exI [of _ obj] exI [of _ sid] exI [of _ cid] exI [of _ row] exI [of _ crow])
          (unfold None option.case new(2), intro conjI ev new refl)
    qed
  qed
qed

text \<open>The request body an event leads to depends on the payload, the database and the rate card only.\<close>

definition contract_body :: "settings \<Rightarrow> pydict \<Rightarrow> db \<Rightarrow> pydict \<Rightarrow> bool" where
  "contract_body cfg p d body \<longleftrightarrow>
     (\<exists>obj sid cid price crow tier.
        subscription_event p obj sid cid \<and> subscription_row sid d = None \<and>
        extract_single_price_id obj = Inr price \<and> customer_row cid d = Some crow \<and> lookup_tier price = Inr tier \<and>
        stripe_subscription_to_metronome_contract_request obj tier (cm_metronome_customer_id crow)
          (metronome_default_rate_card_id cfg) = Inr body)"

lemma contract_body_unique: "contract_body cfg p d b \<Longrightarrow> contract_body cfg p d b' \<Longrightarrow> b = b'"
  by (auto simp: contract_body_def subscription_event_def)

lemma contract_body_key:
  assumes "contract_body cfg p d body"
  obtains customer key where "dict_get body ''customer_id'' = PStr customer" "dict_get body ''uniqueness_key'' = PStr key"
  using assms by (auto simp: contract_body_def elim!: contract_request_ok)

text \<open>A run, on every outcome: without effect on the server, or through one \<open>create_contract\<close>.\<close>

lemma map_new_outcome:
  assumes "map_new_subscription e cfg sdk obj sid cid ctx s = (r, t)"
    and "subscription_event p obj sid cid" "subscription_row sid (tx s) = None"
  obtains (unsent) exc where "r = Inl exc" "api t = api s" "calls t = calls s"
  | (sent) body rc v where "contract_body cfg p (tx s) body" "create_contract sdk body s = (rc, v)" "api t = api v"
      "\<And>q. r = Inr q \<Longrightarrow> \<exists>c. rc = Inr c \<and> metronome_contract_id c = sr_metronome_contract_id q \<and>
         (sr_outcome q = CONTRACT_CREATED_VIA_UNIQUENESS_KEY_RECOVERY \<longleftrightarrow> via_uniqueness_key_recovery c)"
proof (cases "\<exists>price crow tier body. extract_single_price_id obj = Inr price \<and> customer_row cid (tx s) = Some crow \<and>
    lookup_tier price = Inr tier \<and>
    stripe_subscription_to_metronome_contract_request obj tier (cm_metronome_customer_id crow)
      (metronome_default_rate_card_id cfg) = Inr body \<and> \<not> deactivated s")
  case False
  have "(\<exists>exc. r = Inl exc) \<and> api t = api s \<and> calls t = calls s"
  proof (cases r)
    case (Inl exc)
    with False assms(1) show ?thesis
      by (auto simp: map_new_subscription_def bnd_eq_Inl lift_eq map_error_eq_Inl map_error_eq_Inr db_read_eq
          raising_def split: option.splits if_splits)
  next
    case (Inr q)
    with False assms(1) show ?thesis
      by (auto simp: map_new_subscription_def bnd_eq_Inr lift_eq map_error_eq_Inr db_read_eq raising_def
          split: option.splits if_splits)
  qed
  then show thesis using unsent by blast
next
  case True
  then obtain price crow tier body where facts: "extract_single_price_id obj = Inr price"
    "customer_row cid (tx s) = Some crow" "lookup_tier price = Inr tier"
    "stripe_subscription_to_metronome_contract_request obj tier (cm_metronome_customer_id crow)
       (metronome_default_rate_card_id cfg) = Inr body" "\<not> deactivated s" by blast
  obtain rc v where create: "create_contract sdk body s = (rc, v)" by (cases "create_contract sdk body s")
  have "api t = api v \<and> (\<forall>q. r = Inr q \<longrightarrow> (\<exists>c. rc = Inr c \<and> metronome_contract_id c = sr_metronome_contract_id q \<and>
      (sr_outcome q = CONTRACT_CREATED_VIA_UNIQUENESS_KEY_RECOVERY \<longleftrightarrow> via_uniqueness_key_recovery c)))"
    using assms(1) facts create
    by (cases rc)
      (auto simp: map_new_subscription_def bnd_def lift_def db_read_def except_as_def add_and_flush_def ret_def
        log_completed_def log_at_def modifies_def split: if_splits sum.splits)
  moreover have "contract_body cfg p (tx s) body" using facts assms(2,3) unfolding contract_body_def by blast
  ultimately show thesis using create by (intro sent) auto
qed

section \<open>Properties\<close>

text \<open>The two item checks agree. The handler's \<open>_extract_single_price_id\<close> and the mapper's
  \<open>_require_single_item\<close>, written separately, accept the same subscriptions and find the
  same price: exactly one item, an object, with a price that has a non-empty id.\<close>

lemma price_checks_agree:
  "extract_single_price_id sub = Inr price_id \<longleftrightarrow> (\<exists>item. require_single_item sub = Inr (price_id, item))"
  by (auto simp: extract_single_price_id_Inr require_single_item_ok)

text \<open>C6: what a handled \<open>customer.subscription.created\<close> has done. The subscription of the payload
  has a row, with the contract id the handler reports, and the row's customer is mapped, to
  the Metronome customer it reports. If the row was there, it is unchanged, as is the rest
  of the database, and no call was made. If not, it is the only change: it belongs to the
  payload's customer and stands for a contract made for the mapped customer from the
  mapper's body, with a price of the tier table (\<open>maps_contract\<close>).\<close>

theorem subscription_created_success:
  assumes "handle_subscription_created e cfg sdk i p s = (Inr r, t)"
  shows "\<exists>obj sid cid row crow. subscription_event p obj sid cid \<and>
    subscription_row sid (tx t) = Some row \<and> sm_metronome_contract_id row = sr_metronome_contract_id r \<and>
    customer_row (sm_stripe_customer_id row) (tx t) = Some crow \<and>
    cm_metronome_customer_id crow = sr_metronome_customer_id r \<and>
    (case subscription_row sid (tx s) of
       Some existing \<Rightarrow> row = existing \<and> sr_outcome r = CONTRACT_SKIPPED_ALREADY_MAPPED \<and>
         tx t = tx s \<and> calls t = calls s
     | None \<Rightarrow> sm_stripe_customer_id row = cid \<and> maps_contract cfg sdk obj crow row r s t \<and>
         tx t = (tx s)\<lparr>subscription_mappings := subscription_mappings (tx s) @ [row]\<rparr>)"
  using assms by (rule subscription_created_post)

definition sample_created :: "contract_store \<Rightarrow> (exn + subscription_result) \<times> contract_store ctx" where
  "sample_created m =
     handle_subscription_created sample_env sample_settings store_sdk ''evt_2'' (event_of sample_subscription)
       (fresh_ctx mapped_db m)"

lemma subscription_created_success_witness:
  "\<exists>r row. fst (sample_created []) = Inr r \<and> subscription_row ''sub_1'' (tx (snd (sample_created []))) = Some row \<and>
     sm_metronome_contract_id row = sr_metronome_contract_id r"
proof -
  let ?run = "handle_subscription_created sample_env sample_settings store_sdk ''evt_2''
    (event_of sample_subscription) (fresh_ctx mapped_db [])"
  have "isl (fst ?run) = False" by code_simp
  then obtain r where res: "fst ?run = Inr r" by (cases "fst ?run") simp_all
  then have run: "?run = (Inr r, snd ?run)" by (metis prod.collapse)
  have sid: "sid = ''sub_1''" if "subscription_event (event_of sample_subscription) obj sid cid" for obj sid cid
    using that by (auto simp: subscription_event_def extract_subscription_object_Inr event_of_def sample_subscription_def)
  obtain obj sid' cid row where a: "subscription_event (event_of sample_subscription) obj sid' cid"
    "subscription_row sid' (tx (snd ?run)) = Some row" "sm_metronome_contract_id row = sr_metronome_contract_id r"
    using subscription_created_success [OF run] by blast
  show ?thesis
    unfolding sample_created_def using a(2,3) sid [OF a(1)]
    by (intro exI [of _ r] exI [of _ row]) (simp only: res)
qed

text \<open>C18: a mapped subscription is skipped. On a consistent database, an event for a subscription
  that has a row succeeds as a skip that reports this row, whatever the payload says of items
  and prices (even several items): no call, no change. In particular the branch for a
  missing customer mapping is never taken.\<close>

theorem mapped_subscription_is_skipped:
  assumes "subscription_event p obj sid cid" and "\<not> deactivated s" and "db_ok (tx s)"
    and "subscription_row sid (tx s) = Some existing"
  shows "\<exists>r t. handle_subscription_created e cfg sdk i p s = (Inr r, t) \<and>
    sr_outcome r = CONTRACT_SKIPPED_ALREADY_MAPPED \<and>
    sr_metronome_contract_id r = sm_metronome_contract_id existing \<and>
    tx t = tx s \<and> calls t = calls s \<and> api t = api s"
proof -
  have "sm_stripe_customer_id existing \<in> cm_stripe_customer_id ` set (customer_mappings (tx s))"
    using assms(3) subscriptions.lookup_hit [OF assms(4)] by (auto simp: db_ok_def)
  then obtain crow where crow: "customer_row (sm_stripe_customer_id existing) (tx s) = Some crow"
    using customers.lookup_miss by (metis not_Some_eq)
  obtain ls where "handle_subscription_created e cfg sdk i p s =
      skip_mapped_subscription e existing (subscription_log_ctx i sid cid) (s\<lparr>log := log s @ ls\<rparr>)"
    using handle_subscription_created_run [OF assms(1,2)] assms(4) by (metis option.case(2))
  then show ?thesis
    using crow assms(2)
    by (simp add: skip_mapped_subscription_def require_metronome_customer_id_def act_simps db_read_def bnd_def
        log_completed_def log_at_def)
qed

definition two_item_subscription :: pydict where
  "two_item_subscription =
     [(''id'', PStr ''sub_1''), (''customer'', PStr ''cus_1''),
      (''items'', PDict [(''data'', PList [PDict [], PDict []])])]"

definition subscribed_db :: db where
  "subscribed_db = mapped_db\<lparr>subscription_mappings :=
     [\<lparr>sm_stripe_subscription_id = ''sub_1'', sm_stripe_customer_id = ''cus_1'', sm_metronome_contract_id = ''con_0'',
       sm_current_tier_name = ''startup'', sm_current_stripe_price_id = ''price_REPLACE_ME_startup'',
       sm_created_at = 5, sm_updated_at = 5\<rparr>]\<rparr>"

lemma two_items_event:
  "subscription_event (event_of two_item_subscription) two_item_subscription ''sub_1'' ''cus_1''"
  by (simp add: subscription_event_def extract_subscription_object_Inr event_of_def two_item_subscription_def)

lemma mapped_subscription_is_skipped_witness:
  "\<exists>r t. handle_subscription_created sample_env sample_settings (failing_sdk (APIError ''down'')) ''evt_3''
     (event_of two_item_subscription) (fresh_ctx subscribed_db ()) = (Inr r, t) \<and>
   sr_metronome_contract_id r = ''con_0''"
proof -
  have ok: "db_ok (tx (fresh_ctx subscribed_db ()))"
    by (simp add: fresh_ctx_def subscribed_db_def mapped_db_def empty_db_def db_ok_def sample_mapping_def)
  have active: "\<not> deactivated (fresh_ctx subscribed_db ())" by (simp add: fresh_ctx_def)
  obtain existing where row: "subscription_row ''sub_1'' (tx (fresh_ctx subscribed_db ())) = Some existing"
    "sm_metronome_contract_id existing = ''con_0''"
    by (simp add: fresh_ctx_def subscribed_db_def subscription_row_def)
  show ?thesis using mapped_subscription_is_skipped [OF two_items_event active ok row(1)] row(2) by fastforce
qed

end
