(* ===== verification/Worker.thy ===== *)
theory Worker
  imports HandlerSubscription
begin

text \<open>
  \<open>worker.py\<close>: the handler registry, the backoff, the dispatch of one event with its
  status update, one transaction of the worker, and its polling loop.
\<close>

section \<open>The registry\<close>

type_synonym 'm handler_fn =
  "env \<Rightarrow> settings \<Rightarrow> 'm sdk \<Rightarrow> string \<Rightarrow> pydict \<Rightarrow> ('m, unit) session_act"

text \<open>The worker drops what a handler returns.\<close>

definition discard :: "('e, 's, 'a) act \<Rightarrow> ('e, 's, unit) act" where
  "discard m = bnd m (\<lambda>_. ret ())"

definition HANDLERS :: "(string \<times> 'm handler_fn) list" where
  "HANDLERS =
     [(''customer.created'', \<lambda>e cfg sdk i p. discard (handle_customer_created e cfg sdk i p)),
      (''customer.updated'', \<lambda>e cfg sdk i p. discard (handle_customer_updated e cfg sdk i p)),
      (''customer.subscription.created'', \<lambda>e cfg sdk i p. discard (handle_subscription_created e cfg sdk i p)),
      (''customer.subscription.updated'', handle_subscription_updated),
      (''customer.subscription.deleted'', handle_subscription_deleted)]"

section \<open>Retry scheduling\<close>

text \<open>
  \<open>_backoff_delay\<close>, with \<open>u\<close> for \<open>random.random()\<close>. The integer power is converted to a
  float for the product, which fails from \<open>2^1024\<close> on. The float arithmetic itself is
  taken as exact; a product beyond the float range is only compared with the cap.
\<close>

definition backoff_delay :: "int \<Rightarrow> rat \<Rightarrow> rat \<Rightarrow> rat \<Rightarrow> exn + rat" where
  "backoff_delay attempt base_seconds cap_seconds u =
     (let n = (if attempt < 1 then 1 else attempt) in
      if 1024 \<le> n - 1 then Inl (OverflowError ''int too large to convert to float'')
      else let raw = base_seconds * 2 ^ nat (n - 1); capped = min raw cap_seconds
           in Inr (max 1 (0 + (capped - 0) * u)))"

definition mark_failed :: "env \<Rightarrow> webhook_event \<Rightarrow> string \<Rightarrow> bool \<Rightarrow> webhook_event" where
  "mark_failed e event reason is_permanent =
     event\<lparr>status := STATUS_FAILED,
           last_error := Some (if is_permanent then ''PERMANENT: '' @ reason else ''EXHAUSTED RETRIES: '' @ reason),
           processed_at := Some (finish_now e)\<rparr>"

text \<open>
  Reading \<open>event.attempts\<close> on a deactivated session raises: the rollback that the failed
  flush made expired the event's attributes.
\<close>

definition schedule_retry_or_fail ::
  "env \<Rightarrow> settings \<Rightarrow> webhook_event \<Rightarrow> string \<Rightarrow> ('m, webhook_event) session_act" where
  "schedule_retry_or_fail e cfg event reason =
     bnd (db_read (\<lambda>_. attempts event)) (\<lambda>n.
       if worker_max_attempts cfg \<le> n then ret (mark_failed e event reason False)
       else
         bnd (lift (backoff_delay n (worker_retry_base_seconds cfg) (worker_retry_cap_seconds cfg) (draw e))) (\<lambda>delay.
         bnd (lift (add_seconds (finish_now e) delay)) (\<lambda>next_time.
         ret (event\<lparr>status := STATUS_PENDING, next_attempt_at := next_time, last_error := Some reason\<rparr>))))"

definition mark_processed :: "env \<Rightarrow> webhook_event \<Rightarrow> webhook_event" where
  "mark_processed e event =
     event\<lparr>status := STATUS_PROCESSED, processed_at := Some (finish_now e), last_error := None\<rparr>"

section \<open>One event\<close>

definition event_log_ctx :: "webhook_event \<Rightarrow> pydict" where
  "event_log_ctx event =
     [(''stripe_event_id'', PStr (stripe_event_id event)),
      (''stripe_event_type'', PStr (event_type event)),
      (''attempt'', PInt (attempts event))]"

text \<open>The three \<open>except\<close> clauses of \<open>_handle_event\<close>.\<close>

fun attempt_failed :: "env \<Rightarrow> settings \<Rightarrow> webhook_event \<Rightarrow> exn \<Rightarrow> ('m, webhook_event) session_act" where
  "attempt_failed e cfg event (HandlerError (PermanentHandlerError m)) =
     bnd (log_at ERROR ''event_failed_permanent''
           ([(''event'', PStr ''event_failed_permanent''), (''outcome'', PStr ''failed''),
             (''error'', PStr m)] @ event_log_ctx event)) (\<lambda>_.
     ret (mark_failed e event m True))"
| "attempt_failed e cfg event (HandlerError (RetryableHandlerError m)) =
     bnd (schedule_retry_or_fail e cfg event m) (\<lambda>event'.
     bnd (ret (if status event' = STATUS_PENDING then ''event_retry_scheduled'' else ''event_failed_exhausted'')) (\<lambda>label.
     bnd (log_at WARNING label
           ([(''event'', PStr label),
             (''outcome'', PStr (if status event' = STATUS_PENDING then ''retry'' else ''failed'')),
             (''error'', PStr m),
             (''next_attempt_at'', PStr (isoformat (next_attempt_at event')))] @ event_log_ctx event')) (\<lambda>_.
     ret event')))"
| "attempt_failed e cfg event exc =
     bnd (schedule_retry_or_fail e cfg event (exn_type_name exc @ '': '' @ exn_str exc)) (\<lambda>event'.
     bnd (log_at ERROR ''event_unexpected_exception''
           ([(''event'', PStr ''event_unexpected_exception''),
             (''outcome'', PStr (if status event' = STATUS_PENDING then ''retry'' else ''failed'')),
             (''error'', PStr (exn_str exc)),
             (''traceback'', PStr (traceback_text e))] @ event_log_ctx event')) (\<lambda>_.
     ret event'))"

definition handle_event ::
  "env \<Rightarrow> settings \<Rightarrow> 'm sdk \<Rightarrow> webhook_event \<Rightarrow> ('m, webhook_event) session_act" where
  "handle_event e cfg sdk loaded =
     bnd (ret (loaded\<lparr>attempts := attempts loaded + 1\<rparr>)) (\<lambda>event.
       case map_of HANDLERS (event_type event) of
         None \<Rightarrow>
           bnd (log_at INFO ''event_ignored_unknown_type''
                 ([(''event'', PStr ''event_ignored_unknown_type'')] @ event_log_ctx event)) (\<lambda>_.
           ret (mark_processed e event))
       | Some handler \<Rightarrow>
           try_except_else (handler e cfg sdk (stripe_event_id event) (payload event))
             (attempt_failed e cfg event)
             (\<lambda>_. ret (mark_processed e event)))"

section \<open>One transaction\<close>

text \<open>The rows \<open>ORDER BY received_at LIMIT 1\<close> picks from, and the pick.\<close>

definition claimable :: "env \<Rightarrow> string set \<Rightarrow> webhook_event \<Rightarrow> bool" where
  "claimable e locked r \<longleftrightarrow>
     status r = STATUS_PENDING \<and> next_attempt_at r \<le> claim_now e \<and> stripe_event_id r \<notin> locked"

fun oldest :: "webhook_event list \<Rightarrow> webhook_event option" where
  "oldest [] = None"
| "oldest (r # rs) =
     (case oldest rs of
        None \<Rightarrow> Some r
      | Some x \<Rightarrow> if received_at r \<le> received_at x then Some r else Some x)"

definition claim_next_event :: "env \<Rightarrow> string set \<Rightarrow> db \<Rightarrow> webhook_event option" where
  "claim_next_event e locked d = oldest (filter (claimable e locked) (webhook_events d))"

text \<open>
  What outlives a transaction: the committed database, the Metronome server, and the
  records of calls and log lines. A rollback undoes the first and none of the others.
\<close>

record 'm world =
  committed :: db
  server :: 'm
  all_calls :: "sdk_call list"
  all_log :: "log_record list"

definition begin_session :: "'m world \<Rightarrow> 'm ctx" where
  "begin_session w =
     \<lparr>tx = committed w, deactivated = False, api = server w, calls = all_calls w, log = all_log w\<rparr>"

definition rollback :: "'m world \<Rightarrow> 'm ctx \<Rightarrow> 'm world" where
  "rollback w s = \<lparr>committed = committed w, server = api s, all_calls = calls s, all_log = log s\<rparr>"

definition commit :: "webhook_event \<Rightarrow> 'm ctx \<Rightarrow> 'm world" where
  "commit event s =
     \<lparr>committed = save_event event (tx s), server = api s, all_calls = calls s, all_log = log s\<rparr>"

definition process_one ::
  "env \<Rightarrow> settings \<Rightarrow> 'm sdk \<Rightarrow> string set \<Rightarrow> (exn, 'm world, bool) act" where
  "process_one e cfg sdk locked w =
     (case claim_next_event e locked (committed w) of
        None \<Rightarrow> (Inr False, w)
      | Some event \<Rightarrow>
          (case handle_event e cfg sdk event (begin_session w) of
             (Inl exc, s) \<Rightarrow> (Inl exc, rollback w s)
           | (Inr event', s) \<Rightarrow>
               if deactivated s then (Inl PendingRollbackError, rollback w s)
               else (Inr True, commit event' s)))"

section \<open>The loop\<close>

definition world_log :: "log_level \<Rightarrow> string \<Rightarrow> pydict \<Rightarrow> 'm world \<Rightarrow> 'm world" where
  "world_log level message extra w =
     w\<lparr>all_log := all_log w @ [\<lparr>log_record_level = level, log_record_message = message,
        log_record_extra = extra\<rparr>]\<rparr>"

text \<open>One iteration: what \<open>_process_one\<close> raises is logged and counts as no work done.\<close>

definition iteration :: "env \<Rightarrow> settings \<Rightarrow> 'm sdk \<Rightarrow> string set \<Rightarrow> 'm world \<Rightarrow> bool \<times> 'm world" where
  "iteration e cfg sdk locked w =
     (case process_one e cfg sdk locked w of
        (Inr processed, w') \<Rightarrow> (processed, w')
      | (Inl exc, w') \<Rightarrow>
          (False, world_log ERROR ''worker_loop_unhandled_exception''
             [(''event'', PStr ''worker_loop_unhandled_exception'')] w'))"

text \<open>
  \<open>run\<close>, over the readings of its iterations: whether the stop flag is set when the
  loop looks, the clocks, and the rows other workers hold. The result says whether the
  loop has ended; it has not when the readings are used up first.
\<close>

fun run_loop :: "settings \<Rightarrow> 'm sdk \<Rightarrow> (bool \<times> env \<times> string set) list \<Rightarrow> 'm world \<Rightarrow> bool \<times> 'm world" where
  "run_loop cfg sdk [] w = (False, w)"
| "run_loop cfg sdk ((stop, e, locked) # rest) w =
     (if stop then (True, world_log INFO ''worker_stopped'' [(''event'', PStr ''worker_stopped'')] w)
      else run_loop cfg sdk rest (snd (iteration e cfg sdk locked w)))"

definition run :: "settings \<Rightarrow> 'm sdk \<Rightarrow> (bool \<times> env \<times> string set) list \<Rightarrow> 'm world \<Rightarrow> bool \<times> 'm world" where
  "run cfg sdk readings w =
     run_loop cfg sdk readings
       (world_log INFO ''worker_started''
          [(''event'', PStr ''worker_started''),
           (''poll_interval_s'', PFloat (worker_poll_interval_seconds cfg)),
           (''max_attempts'', PInt (worker_max_attempts cfg))] w)"

section \<open>The registry keeps the handlers' contract\<close>

context event_handler
begin

lemma discarded: "event_handler (\<lambda>e cfg sdk i p. discard (handler e cfg sdk i p))"
  unfolding discard_def
  by (rule event_handler.intro)
    (intro keeps_ok.frame_rules grows.frame_rules records.frame_rules atomic_bnd_quiet quiet_rules
      handler_keeps_ok handler_grows handler_records handler_atomic)+

end

lemma registered: "map_of HANDLERS ty = Some h \<Longrightarrow> event_handler h"
  by (auto simp: HANDLERS_def split: if_splits
      intro: customer_created.discarded customer_updated.discarded subscription_created.discarded
        subscription_updated.event_handler_axioms subscription_deleted.event_handler_axioms)

section \<open>One attempt\<close>

lemma schedule_retry_same_tx: "framed same_tx (schedule_retry_or_fail e cfg event reason)"
  unfolding schedule_retry_or_fail_def by (intro same_tx_rules)

lemma schedule_retry_records: "framed records (schedule_retry_or_fail e cfg event reason)"
  unfolding schedule_retry_or_fail_def by (intro records_rules)

lemma attempt_failed_same_tx: "framed same_tx (attempt_failed e cfg event exc)"
  by (induction e cfg event exc rule: attempt_failed.induct; simp only: attempt_failed.simps; intro same_tx_rules schedule_retry_same_tx)

lemma attempt_failed_records: "framed records (attempt_failed e cfg event exc)"
  by (induction e cfg event exc rule: attempt_failed.induct; simp only: attempt_failed.simps; intro records_rules schedule_retry_records)

text \<open>The rows that a failed attempt can leave: failed for good, failed after the last attempt, or pending again.\<close>

lemma schedule_retry_Inr:
  assumes "schedule_retry_or_fail e cfg event reason s = (Inr event', t)"
  shows "\<not> deactivated s \<and>
    (worker_max_attempts cfg \<le> attempts event \<and> event' = mark_failed e event reason False \<or>
     attempts event < worker_max_attempts cfg \<and>
       (\<exists>delay next_time.
          backoff_delay (attempts event) (worker_retry_base_seconds cfg) (worker_retry_cap_seconds cfg) (draw e) = Inr delay \<and>
          add_seconds (finish_now e) delay = Inr next_time \<and>
          event' = event\<lparr>status := STATUS_PENDING, next_attempt_at := next_time, last_error := Some reason\<rparr>))"
  using assms
  by (auto simp: schedule_retry_or_fail_def bnd_eq_Inr db_read_eq lift_eq ret_def split: if_splits)

lemma attempt_failed_Inr:
  assumes "attempt_failed e cfg event exc s = (Inr event', t)"
  obtains (permanent) m where "exc = permanent m" "event' = mark_failed e event m True"
  | (scheduled) reason u where "\<forall>m. exc \<noteq> permanent m"
      "schedule_retry_or_fail e cfg event reason s = (Inr event', u)"
  using assms
  by (induction e cfg event exc rule: attempt_failed.induct)
    (auto simp: bnd_eq_Inr log_at_def modifies_def ret_def)

lemma handle_event_Inr:
  fixes sdk :: "'m sdk"
  assumes "handle_event e cfg sdk row s = (Inr row', t)"
  obtains (ignored) "map_of (HANDLERS :: (string \<times> 'm handler_fn) list) (event_type row) = None"
      "row' = mark_processed e (row\<lparr>attempts := attempts row + 1\<rparr>)" "same_tx s t"
  | (handled) h where "map_of HANDLERS (event_type row) = Some h"
      "h e cfg sdk (stripe_event_id row) (payload row) s = (Inr (), t)"
      "row' = mark_processed e (row\<lparr>attempts := attempts row + 1\<rparr>)"
  | (failed) h exc u where "map_of HANDLERS (event_type row) = Some h"
      "h e cfg sdk (stripe_event_id row) (payload row) s = (Inl exc, u)"
      "attempt_failed e cfg (row\<lparr>attempts := attempts row + 1\<rparr>) exc u = (Inr row', t)"
proof (cases "map_of HANDLERS (event_type row) :: 'm handler_fn option")
  case None
  with assms show thesis
    by (intro ignored) (auto simp: handle_event_def act_simps bnd_eq_Inr log_at_def same_tx_def)
next
  case (Some h)
  obtain r u where hu: "h e cfg sdk (stripe_event_id row) (payload row) s = (r, u)"
    by (cases "h e cfg sdk (stripe_event_id row) (payload row) s")
  show thesis
  proof (cases r)
    case (Inl exc)
    with Some assms hu have "attempt_failed e cfg (row\<lparr>attempts := attempts row + 1\<rparr>) exc u = (Inr row', t)"
      by (simp add: handle_event_def act_simps try_except_else_def)
    then show thesis by (rule failed [OF Some hu [unfolded Inl]])
  next
    case (Inr x)
    with Some assms hu have "row' = mark_processed e (row\<lparr>attempts := attempts row + 1\<rparr>) \<and> u = t"
      by (simp add: handle_event_def act_simps try_except_else_def)
    then show thesis using handled [OF Some] hu Inr by simp
  qed
qed

section \<open>The delay before a retry\<close>

lemma backoff_delay_Inr:
  "backoff_delay n base_seconds cap_seconds u = Inr d \<longleftrightarrow>
     n \<le> 1024 \<and> d = max 1 (min (base_seconds * 2 ^ nat (max 1 n - 1)) cap_seconds * u)"
  by (auto simp: backoff_delay_def Let_def max_def)

lemma backoff_delay_Inl:
  "backoff_delay n base_seconds cap_seconds u = Inl x \<longleftrightarrow>
     1024 < n \<and> x = OverflowError ''int too large to convert to float''"
  by (auto simp: backoff_delay_def Let_def)

lemma round_half_even_lower: "of_int k \<le> x \<Longrightarrow> k \<le> round_half_even x"
proof -
  assume "of_int k \<le> x"
  then have "k \<le> \<lfloor>x\<rfloor>" by (simp add: le_floor_iff)
  then show ?thesis by (auto simp: round_half_even_def Let_def)
qed

lemma round_half_even_upper: "x \<le> of_int k \<Longrightarrow> round_half_even x \<le> k"
proof -
  assume x: "x \<le> of_int k"
  show ?thesis
  proof (cases "\<lfloor>x\<rfloor> = k")
    case True
    with x have "x = of_int k" by (metis antisym of_int_floor_le)
    then show ?thesis by (simp add: round_half_even_def)
  next
    case False
    then have "\<lfloor>x\<rfloor> < k" using x by (metis floor_mono floor_of_int less_le)
    then show ?thesis by (auto simp: round_half_even_def Let_def)
  qed
qed

lemma add_seconds_Inr: "add_seconds t d = Inr t' \<Longrightarrow> t' = t + round_half_even (d * 1000000)"
  by (auto simp: add_seconds_def Let_def split: if_splits)

lemma add_seconds_lower: "add_seconds t d = Inr t' \<Longrightarrow> 1 \<le> d \<Longrightarrow> t + 1000000 \<le> t'"
  using add_seconds_Inr round_half_even_lower [of 1000000 "d * 1000000"] by fastforce

lemma add_seconds_upper: "add_seconds t d = Inr t' \<Longrightarrow> d \<le> c \<Longrightarrow> t' \<le> t + \<lceil>c * 1000000\<rceil>"
  using add_seconds_Inr [of t d t'] round_half_even_upper [of "d * 1000000" "\<lceil>c * 1000000\<rceil>"]
  by (simp add: le_ceiling_iff) (meson le_of_int_ceiling mult_right_mono order_trans zero_le_numeral)

section \<open>What an attempt does to its row\<close>

text \<open>
  The specification of one attempt on a row: exactly one more attempt is counted, and
  the row is processed, failed for good, failed because this was the last attempt, or
  pending again no earlier than a second later and no later than the cap.
\<close>

inductive attempt_step :: "env \<Rightarrow> settings \<Rightarrow> webhook_event \<Rightarrow> webhook_event \<Rightarrow> bool"
  for e :: env and cfg :: settings and row :: webhook_event where
  step_processed: "attempt_step e cfg row
    (row\<lparr>attempts := attempts row + 1, status := STATUS_PROCESSED, processed_at := Some (finish_now e),
         last_error := None\<rparr>)"
| step_permanent: "attempt_step e cfg row
    (row\<lparr>attempts := attempts row + 1, status := STATUS_FAILED, last_error := Some (''PERMANENT: '' @ m),
         processed_at := Some (finish_now e)\<rparr>)"
| step_exhausted: "worker_max_attempts cfg \<le> attempts row + 1 \<Longrightarrow>
    attempt_step e cfg row
      (row\<lparr>attempts := attempts row + 1, status := STATUS_FAILED,
           last_error := Some (''EXHAUSTED RETRIES: '' @ m), processed_at := Some (finish_now e)\<rparr>)"
| step_retry: "attempts row + 1 < worker_max_attempts cfg \<Longrightarrow> finish_now e + 1000000 \<le> t \<Longrightarrow>
    (0 \<le> draw e \<and> draw e \<le> 1 \<longrightarrow> t \<le> finish_now e + \<lceil>max 1 (worker_retry_cap_seconds cfg) * 1000000\<rceil>) \<Longrightarrow>
    attempt_step e cfg row
      (row\<lparr>attempts := attempts row + 1, status := STATUS_PENDING, next_attempt_at := t, last_error := Some m\<rparr>)"

inductive_cases attempt_stepE: "attempt_step e cfg row row'"

lemma mark_processed_step:
  "attempt_step e cfg row (mark_processed e (row\<lparr>attempts := attempts row + 1\<rparr>))"
  using step_processed [of e cfg row] by (simp add: mark_processed_def)

lemma mark_failed_permanent_step:
  "attempt_step e cfg row (mark_failed e (row\<lparr>attempts := attempts row + 1\<rparr>) m True)"
  using step_permanent [of e cfg row m] by (simp add: mark_failed_def)

lemma capped_delay:
  fixes u :: rat
  assumes "0 \<le> u" "u \<le> 1"
  shows "max 1 (min raw cap * u) \<le> max 1 cap"
proof (cases "0 \<le> min raw cap")
  case True
  then have "min raw cap * u \<le> cap" using mult_left_le [OF assms(2) True] by linarith
  then show ?thesis by linarith
next
  case False
  then have "min raw cap * u \<le> 0" using assms(1) by (intro mult_nonpos_nonneg) linarith+
  then show ?thesis by linarith
qed

lemma schedule_retry_step:
  assumes "schedule_retry_or_fail e cfg (row\<lparr>attempts := attempts row + 1\<rparr>) reason s = (Inr row', t)"
  shows "attempt_step e cfg row row'"
  using schedule_retry_Inr [OF assms] step_exhausted [of cfg row e reason]
  by (auto simp: mark_failed_def backoff_delay_Inr
      intro!: step_retry add_seconds_lower add_seconds_upper capped_delay)

lemma attempt_step_id: "attempt_step e cfg row row' \<Longrightarrow> stripe_event_id row' = stripe_event_id row"
  and attempt_step_attempts: "attempt_step e cfg row row' \<Longrightarrow> attempts row' = attempts row + 1"
  and attempt_step_content: "attempt_step e cfg row row' \<Longrightarrow>
    event_type row' = event_type row \<and> payload row' = payload row \<and> received_at row' = received_at row"
  by (auto elim!: attempt_stepE)

lemma attempt_step_status:
  "attempt_step e cfg row row' \<Longrightarrow>
     status row' = STATUS_PROCESSED \<and> last_error row' = None \<or>
     status row' = STATUS_FAILED \<and> last_error row' \<noteq> None \<or>
     status row' = STATUS_PENDING \<and> attempts row' < worker_max_attempts cfg \<and>
       finish_now e + 1000000 \<le> next_attempt_at row'"
  by (auto elim!: attempt_stepE)

lemma handle_event_step:
  assumes "handle_event e cfg sdk row s = (Inr row', t)"
  shows "attempt_step e cfg row row'"
  using assms
proof (cases rule: handle_event_Inr)
  case (failed h exc u)
  from failed(3) show ?thesis
    by (cases rule: attempt_failed_Inr) (auto intro: mark_failed_permanent_step schedule_retry_step)
qed (simp_all add: mark_processed_step)

section \<open>The claim\<close>

lemma oldest_None: "oldest rs = None \<longleftrightarrow> rs = []"
  by (cases rs) (auto split: option.splits if_splits)

lemma oldest_Some: "oldest rs = Some r \<Longrightarrow> r \<in> set rs \<and> (\<forall>x \<in> set rs. received_at r \<le> received_at x)"
  by (induction rs arbitrary: r) (auto simp: oldest_None split: option.splits if_splits intro: order_trans)

lemma claim_Some:
  "claim_next_event e locked d = Some r \<Longrightarrow>
     r \<in> set (webhook_events d) \<and> claimable e locked r \<and>
     (\<forall>x \<in> set (webhook_events d). claimable e locked x \<longrightarrow> received_at r \<le> received_at x)"
  by (auto simp: claim_next_event_def dest: oldest_Some)

lemma claim_None:
  "claim_next_event e locked d = None \<longleftrightarrow> (\<forall>x \<in> set (webhook_events d). \<not> claimable e locked x)"
  by (simp add: claim_next_event_def oldest_None filter_empty_conv)

section \<open>One transaction, as a step on the committed database\<close>

definition replace_event :: "webhook_event \<Rightarrow> webhook_event list \<Rightarrow> webhook_event list" where
  "replace_event row rows = map (\<lambda>r. if stripe_event_id r = stripe_event_id row then row else r) rows"

lemma save_event_rows: "webhook_events (save_event row d) = replace_event row (webhook_events d)"
  by (simp add: save_event_def replace_event_def)

text \<open>What a handler's run, and the bookkeeping after it, may do to the mapping tables.\<close>

lemma handle_event_db:
  assumes "handle_event e cfg sdk row s = (Inr row', t)"
  shows "db_grows (tx s) (tx t)" and "db_ok (tx s) \<Longrightarrow> db_ok (tx t)"
    and "status row' \<noteq> STATUS_PROCESSED \<Longrightarrow> tx t = tx s"
proof -
  have "db_grows (tx s) (tx t) \<and> (db_ok (tx s) \<longrightarrow> db_ok (tx t)) \<and>
    (status row' \<noteq> STATUS_PROCESSED \<longrightarrow> tx t = tx s)"
    using assms
  proof (cases rule: handle_event_Inr)
    case ignored
    then show ?thesis by (simp add: same_tx_def db_grows_refl)
  next
    case (handled h)
    note h = registered [OF handled(1)]
    show ?thesis
      using event_handler.db_grows_after [OF h handled(2)] event_handler.db_ok_after [OF h handled(2)] handled(3)
      by (simp add: mark_processed_def)
  next
    case (failed h exc u)
    have "tx u = tx s" using event_handler.failure_leaves_db [OF registered [OF failed(1)] failed(2)] .
    moreover have "tx t = tx u" using framedD [OF attempt_failed_same_tx failed(3)] by (simp add: same_tx_def)
    ultimately show ?thesis by (simp add: db_grows_refl)
  qed
  then show "db_grows (tx s) (tx t)" "db_ok (tx s) \<Longrightarrow> db_ok (tx t)"
    "status row' \<noteq> STATUS_PROCESSED \<Longrightarrow> tx t = tx s" by blast+
qed

lemma begin_session_simps [simp]:
  "tx (begin_session w) = committed w" "deactivated (begin_session w) = False"
  "api (begin_session w) = server w" "calls (begin_session w) = all_calls w" "log (begin_session w) = all_log w"
  by (simp_all add: begin_session_def)

lemma process_one_True:
  assumes "process_one e cfg sdk locked w = (Inr True, w')"
  obtains row row' s where "claim_next_event e locked (committed w) = Some row"
    "handle_event e cfg sdk row (begin_session w) = (Inr row', s)" "\<not> deactivated s"
    "attempt_step e cfg row row'" "w' = commit row' s"
  using assms handle_event_step [of e cfg sdk _ "begin_session w"]
  by (auto simp: process_one_def split: option.splits prod.splits sum.splits if_splits)

lemma process_one_Inl:
  assumes "process_one e cfg sdk locked w = (Inl exc, w')"
  shows "committed w' = committed w \<and> claim_next_event e locked (committed w) \<noteq> None"
  using assms by (auto simp: process_one_def rollback_def split: option.splits prod.splits sum.splits if_splits)

lemma process_one_False:
  "process_one e cfg sdk locked w = (Inr False, w') \<longleftrightarrow>
     claim_next_event e locked (committed w) = None \<and> w' = w"
  by (auto simp: process_one_def split: option.splits prod.splits sum.splits if_splits)

lemma process_one_db:
  assumes "process_one e cfg sdk locked w = (Inr True, w')"
  obtains row row' where "claim_next_event e locked (committed w) = Some row" "attempt_step e cfg row row'"
    "webhook_events (committed w') = replace_event row' (webhook_events (committed w))"
    "db_grows (committed w) ((committed w')\<lparr>webhook_events := webhook_events (committed w)\<rparr>)"
    "status row' \<noteq> STATUS_PROCESSED \<Longrightarrow>
       customer_mappings (committed w') = customer_mappings (committed w) \<and>
       subscription_mappings (committed w') = subscription_mappings (committed w)"
proof (rule process_one_True [OF assms])
  fix row row' s
  assume claim: "claim_next_event e locked (committed w) = Some row"
    and run: "handle_event e cfg sdk row (begin_session w) = (Inr row', s)"
    and step: "attempt_step e cfg row row'" and w': "w' = commit row' s"
  have grows: "db_grows (committed w) (tx s)" using handle_event_db(1) [OF run] by simp
  then have "webhook_events (tx s) = webhook_events (committed w)" by (simp add: db_grows_def)
  with grows w' handle_event_db(3) [OF run] show thesis
    by (intro that [OF claim step]) (auto simp: commit_def save_event_rows db_grows_def)
qed

lemma process_one_ok: "process_one e cfg sdk locked w = (r, w') \<Longrightarrow> db_ok (committed w) \<Longrightarrow> db_ok (committed w')"
proof -
  assume run: "process_one e cfg sdk locked w = (r, w')" and ok: "db_ok (committed w)"
  consider (exc) x where "r = Inl x" | (none) "r = Inr False" | (some) "r = Inr True"
    by (metis (full_types) sum.exhaust)
  then show "db_ok (committed w')"
  proof cases
    case exc
    with run ok show ?thesis using process_one_Inl by metis
  next
    case none
    with run ok show ?thesis by (simp add: process_one_False)
  next
    case some
    with run obtain row row' s where "handle_event e cfg sdk row (begin_session w) = (Inr row', s)"
      "w' = commit row' s" by (metis process_one_True)
    with ok show ?thesis using handle_event_db(2) save_event_ok by (fastforce simp: commit_def)
  qed
qed

lemma event_row_replace:
  "find (\<lambda>r. stripe_event_id r = k) (replace_event row rows) =
     (if k = stripe_event_id row \<and> k \<in> stripe_event_id ` set rows then Some row
      else find (\<lambda>r. stripe_event_id r = k) rows)"
  by (induction rows) (auto simp: replace_event_def)

section \<open>What a failure leads to\<close>

text \<open>The text that goes into \<open>last_error\<close> when an attempt fails with a retry.\<close>

definition failure_reason :: "exn \<Rightarrow> string" where
  "failure_reason exc =
     (case exc of HandlerError (RetryableHandlerError m) \<Rightarrow> m | _ \<Rightarrow> exn_type_name exc @ '': '' @ exn_str exc)"

lemma attempt_failed_permanent:
  "\<exists>ls. attempt_failed e cfg event (permanent m) s = (Inr (mark_failed e event m True), s\<lparr>log := log s @ ls\<rparr>)"
  by (simp add: act_simps log_at_def) (rule exI, rule refl)

lemma attempt_failed_scheduled:
  assumes "\<forall>m. exc \<noteq> permanent m"
    and "schedule_retry_or_fail e cfg event (failure_reason exc) s = (Inr event', s)"
  shows "\<exists>ls. attempt_failed e cfg event exc s = (Inr event', s\<lparr>log := log s @ ls\<rparr>)"
  using assms
  by (induction e cfg event exc rule: attempt_failed.induct)
    (auto simp: failure_reason_def act_simps log_at_def)

lemma attempt_failed_raises:
  assumes "\<forall>m. exc \<noteq> permanent m"
    and "schedule_retry_or_fail e cfg event (failure_reason exc) s = (Inl x, s)"
  shows "attempt_failed e cfg event exc s = (Inl x, s)"
  using assms
  by (induction e cfg event exc rule: attempt_failed.induct) (auto simp: failure_reason_def act_simps)

lemma schedule_exhausted:
  "\<not> deactivated s \<Longrightarrow> worker_max_attempts cfg \<le> attempts event \<Longrightarrow>
     schedule_retry_or_fail e cfg event reason s = (Inr (mark_failed e event reason False), s)"
  by (simp add: schedule_retry_or_fail_def act_simps db_read_def)

lemma schedule_deactivated: "deactivated s \<Longrightarrow> schedule_retry_or_fail e cfg event reason s = (Inl PendingRollbackError, s)"
  by (simp add: schedule_retry_or_fail_def act_simps db_read_def)

text \<open>A handler that fails, seen from the transaction.\<close>

lemma process_one_failure:
  fixes sdk :: "'m sdk"
  assumes "claim_next_event e locked (committed w) = Some row"
    and "map_of HANDLERS (event_type row) = Some h"
    and "h e cfg sdk (stripe_event_id row) (payload row) (begin_session w) = (Inl exc, s)"
    and "attempt_failed e cfg (row\<lparr>attempts := attempts row + 1\<rparr>) exc s = (r, t)"
  shows "process_one e cfg sdk locked w =
    (case r of
       Inl x \<Rightarrow> (Inl x, rollback w t)
     | Inr row' \<Rightarrow> if deactivated t then (Inl PendingRollbackError, rollback w t) else (Inr True, commit row' t))"
  using assms by (auto simp: process_one_def handle_event_def act_simps try_except_else_def split: sum.split)

lemma failed_handler_session:
  assumes "map_of HANDLERS ty = Some h" and "h e cfg sdk i p (begin_session w) = (Inl exc, s)"
  shows "tx s = committed w" and "exc = HandlerError x \<Longrightarrow> \<not> deactivated s"
  using event_handler.failure_leaves_db [OF registered [OF assms(1)] assms(2)]
    event_handler.handler_error_leaves_session [OF registered [OF assms(1)]] assms(2) by auto

section \<open>What a failure commits\<close>

lemma permanent_outcome:
  fixes sdk :: "'m sdk"
  assumes "claim_next_event e locked (committed w) = Some row"
    and "map_of HANDLERS (event_type row) = Some h"
    and "h e cfg sdk (stripe_event_id row) (payload row) (begin_session w) = (Inl (permanent m), s)"
  shows "\<exists>w'. process_one e cfg sdk locked w = (Inr True, w') \<and>
    committed w' = save_event (mark_failed e (row\<lparr>attempts := attempts row + 1\<rparr>) m True) (committed w) \<and>
    all_calls w' = calls s"
proof -
  have s: "tx s = committed w" "\<not> deactivated s" using failed_handler_session [OF assms(2,3)] by auto
  obtain ls where "attempt_failed e cfg (row\<lparr>attempts := attempts row + 1\<rparr>) (permanent m) s =
      (Inr (mark_failed e (row\<lparr>attempts := attempts row + 1\<rparr>) m True), s\<lparr>log := log s @ ls\<rparr>)"
    using attempt_failed_permanent by blast
  from process_one_failure [OF assms this] s show ?thesis by (simp add: commit_def)
qed

lemma exhausted_outcome:
  fixes sdk :: "'m sdk"
  assumes "claim_next_event e locked (committed w) = Some row"
    and "map_of HANDLERS (event_type row) = Some h"
    and "h e cfg sdk (stripe_event_id row) (payload row) (begin_session w) = (Inl exc, s)"
    and "\<forall>m. exc \<noteq> permanent m" and "\<not> deactivated s"
    and "worker_max_attempts cfg \<le> attempts row + 1"
  shows "\<exists>w'. process_one e cfg sdk locked w = (Inr True, w') \<and>
    committed w' = save_event (row\<lparr>attempts := attempts row + 1, status := STATUS_FAILED,
      last_error := Some (''EXHAUSTED RETRIES: '' @ failure_reason exc), processed_at := Some (finish_now e)\<rparr>)
      (committed w) \<and>
    all_calls w' = calls s"
proof -
  have s: "tx s = committed w" using failed_handler_session [OF assms(2,3)] by auto
  obtain ls where "attempt_failed e cfg (row\<lparr>attempts := attempts row + 1\<rparr>) exc s =
      (Inr (mark_failed e (row\<lparr>attempts := attempts row + 1\<rparr>) (failure_reason exc) False), s\<lparr>log := log s @ ls\<rparr>)"
    using attempt_failed_scheduled [OF assms(4) schedule_exhausted [OF assms(5)], of cfg "row\<lparr>attempts := attempts row + 1\<rparr>" e]
      assms(6) by auto
  from process_one_failure [OF assms(1-3) this] s assms(5) show ?thesis
    by (simp add: commit_def mark_failed_def)
qed

lemma add_seconds_total:
  assumes "0 \<le> t" "0 \<le> d" "d \<le> c" "t + \<lceil>c * 1000000\<rceil> \<le> max_datetime"
  shows "\<exists>t'. add_seconds t d = Inr t'"
proof -
  let ?us = "round_half_even (d * 1000000)"
  have "0 \<le> ?us" using round_half_even_lower [of 0 "d * 1000000"] assms(2) by simp
  moreover have "d * 1000000 \<le> of_int \<lceil>c * 1000000\<rceil>"
    using assms(3) by (meson le_of_int_ceiling mult_right_mono order_trans zero_le_numeral)
  then have us: "t + ?us \<le> max_datetime" using round_half_even_upper assms(4) by (meson add_left_mono order_trans)
  moreover have "?us div 86400000000 \<le> 999999999"
  proof -
    have "?us \<le> 86400000000 * 999999999" using us assms(1) by (simp add: max_datetime_def)
    then have "?us div 86400000000 \<le> (86400000000 * 999999999) div 86400000000" by (rule zdiv_mono1) simp
    then show ?thesis by simp
  qed
  ultimately show ?thesis
    using assms(1) by (auto simp: add_seconds_def Let_def min_datetime_def pos_imp_zdiv_neg_iff not_less)
qed

lemma retry_outcome:
  fixes sdk :: "'m sdk"
  assumes claim: "claim_next_event e locked (committed w) = Some row"
    and handler: "map_of HANDLERS (event_type row) = Some h"
    and run: "h e cfg sdk (stripe_event_id row) (payload row) (begin_session w) = (Inl exc, s)"
    and exc: "\<forall>m. exc \<noteq> permanent m" and active: "\<not> deactivated s"
    and more: "attempts row + 1 < worker_max_attempts cfg"
    and attempt: "0 \<le> attempts row" "attempts row < 1024"
    and cfg: "load_settings cfg = Inr cfg"
    and clock: "0 \<le> draw e" "draw e \<le> 1" "0 \<le> finish_now e"
      "finish_now e + \<lceil>worker_retry_cap_seconds cfg * 1000000\<rceil> \<le> max_datetime"
  shows "\<exists>w' t. process_one e cfg sdk locked w = (Inr True, w') \<and>
    committed w' = save_event (row\<lparr>attempts := attempts row + 1, status := STATUS_PENDING,
      next_attempt_at := t, last_error := Some (failure_reason exc)\<rparr>) (committed w) \<and>
    finish_now e + 1000000 \<le> t \<and>
    t \<le> finish_now e +
      \<lceil>min (worker_retry_base_seconds cfg * 2 ^ nat (attempts row)) (worker_retry_cap_seconds cfg) * 1000000\<rceil> \<and>
    all_calls w' = calls s"
proof -
  let ?capped = "min (worker_retry_base_seconds cfg * 2 ^ nat (attempts row)) (worker_retry_cap_seconds cfg)"
  let ?d = "max 1 (?capped * draw e)"
  have cfg': "1 \<le> worker_retry_base_seconds cfg" "1 \<le> worker_retry_cap_seconds cfg"
    using cfg by (simp_all add: load_settings_ok)
  then have "1 \<le> worker_retry_base_seconds cfg * 2 ^ nat (attempts row)"
    using mult_mono [of 1 "worker_retry_base_seconds cfg" 1 "2 ^ nat (attempts row)"] by simp
  with cfg' have capped: "1 \<le> ?capped" by simp
  then have "?capped * draw e \<le> ?capped" using clock(2) mult_left_le [of "draw e" ?capped] by simp
  with capped have d: "1 \<le> ?d" "?d \<le> ?capped" by simp_all
  have delay: "backoff_delay (attempts row + 1) (worker_retry_base_seconds cfg) (worker_retry_cap_seconds cfg) (draw e) = Inr ?d"
    using attempt by (simp add: backoff_delay_Inr max_def)
  obtain t where t: "add_seconds (finish_now e) ?d = Inr t"
    using add_seconds_total [OF clock(3) _ _ clock(4), of ?d] d by auto
  let ?row = "row\<lparr>attempts := attempts row + 1\<rparr>"
  have "schedule_retry_or_fail e cfg ?row (failure_reason exc) s =
      (Inr (?row\<lparr>status := STATUS_PENDING, next_attempt_at := t, last_error := Some (failure_reason exc)\<rparr>), s)"
    using active more delay t by (simp add: schedule_retry_or_fail_def act_simps db_read_def)
  from attempt_failed_scheduled [OF exc this] obtain ls where
    "attempt_failed e cfg ?row exc s =
      (Inr (?row\<lparr>status := STATUS_PENDING, next_attempt_at := t, last_error := Some (failure_reason exc)\<rparr>),
       s\<lparr>log := log s @ ls\<rparr>)"
    by blast
  from process_one_failure [OF claim handler run this] active failed_handler_session(1) [OF handler run]
  have "\<exists>w'. process_one e cfg sdk locked w = (Inr True, w') \<and>
    committed w' = save_event (?row\<lparr>status := STATUS_PENDING, next_attempt_at := t,
      last_error := Some (failure_reason exc)\<rparr>) (committed w) \<and> all_calls w' = calls s"
    by (simp add: commit_def)
  then show ?thesis using add_seconds_lower [OF t d(1)] add_seconds_upper [OF t d(2)] by auto
qed

section \<open>How many attempts are left\<close>

text \<open>
  The attempts a row can still cost the worker: none unless it is pending, and else the
  ones up to the configured maximum, but at least one.
\<close>

definition row_budget :: "settings \<Rightarrow> webhook_event \<Rightarrow> nat" where
  "row_budget cfg r =
     (if status r = STATUS_PENDING then nat (max 1 (worker_max_attempts cfg - attempts r)) else 0)"

definition attempts_left :: "settings \<Rightarrow> db \<Rightarrow> nat" where
  "attempts_left cfg d = sum_list (map (row_budget cfg) (webhook_events d))"

lemma attempt_step_budget:
  "attempt_step e cfg row row' \<Longrightarrow> status row = STATUS_PENDING \<Longrightarrow> row_budget cfg row' < row_budget cfg row"
  by (auto simp: row_budget_def elim!: attempt_stepE)

lemma replace_event_budget:
  assumes "distinct (map stripe_event_id rows)" "row \<in> set rows" "stripe_event_id row' = stripe_event_id row"
    and "row_budget cfg row' < row_budget cfg row"
  shows "sum_list (map (row_budget cfg) (replace_event row' rows)) < sum_list (map (row_budget cfg) rows)"
  using assms
proof (induction rows)
  case (Cons r rows)
  show ?case
  proof (cases "r = row")
    case True
    then have "stripe_event_id x \<noteq> stripe_event_id row" if "x \<in> set rows" for x
      using Cons.prems(1) that by (metis distinct.simps(2) image_eqI list.set_map list.simps(9))
    then have "replace_event row' rows = rows"
      using Cons.prems(3) by (auto simp: replace_event_def intro!: map_idI)
    with True Cons.prems show ?thesis by (simp add: replace_event_def)
  next
    case False
    with Cons.prems have "row \<in> set rows" "stripe_event_id r \<noteq> stripe_event_id row" by auto
    with Cons show ?thesis by (simp add: replace_event_def)
  qed
qed simp

lemma process_one_budget:
  assumes "process_one e cfg sdk locked w = (Inr True, w')" and "db_ok (committed w)"
  shows "attempts_left cfg (committed w') < attempts_left cfg (committed w)"
proof (rule process_one_db [OF assms(1)])
  fix row row'
  assume claim: "claim_next_event e locked (committed w) = Some row" and step: "attempt_step e cfg row row'"
    and rows: "webhook_events (committed w') = replace_event row' (webhook_events (committed w))"
  have "row \<in> set (webhook_events (committed w))" "status row = STATUS_PENDING"
    using claim_Some [OF claim] by (auto simp: claimable_def)
  with step rows assms(2) show ?thesis
    unfolding attempts_left_def rows db_ok_def
    by (intro replace_event_budget attempt_step_budget attempt_step_id) auto
qed

lemma iteration_committed:
  "iteration e cfg sdk locked w = (b, w') \<Longrightarrow>
     \<exists>r u. process_one e cfg sdk locked w = (r, u) \<and> committed w' = committed u \<and> (b \<longleftrightarrow> r = Inr True)"
  by (auto simp: iteration_def world_log_def split: prod.splits sum.splits)

text \<open>How many iterations of the loop find work, over the readings of the iterations.\<close>

fun busy_iterations :: "settings \<Rightarrow> 'm sdk \<Rightarrow> (env \<times> string set) list \<Rightarrow> 'm world \<Rightarrow> nat" where
  "busy_iterations cfg sdk [] w = 0"
| "busy_iterations cfg sdk ((e, locked) # rest) w =
     (case iteration e cfg sdk locked w of (processed, w') \<Rightarrow>
        (if processed then 1 else 0) + busy_iterations cfg sdk rest w')"

lemma busy_iterations_le:
  "db_ok (committed w) \<Longrightarrow> busy_iterations cfg sdk readings w \<le> attempts_left cfg (committed w)"
proof (induction readings arbitrary: w)
  case (Cons x readings)
  obtain e locked where x: "x = (e, locked)" by (cases x)
  obtain b w' where it: "iteration e cfg sdk locked w = (b, w')" by (cases "iteration e cfg sdk locked w")
  then obtain r u where u: "process_one e cfg sdk locked w = (r, u)" "committed w' = committed u" "b \<longleftrightarrow> r = Inr True"
    using iteration_committed by blast
  have "busy_iterations cfg sdk readings w' \<le> attempts_left cfg (committed w')"
    using Cons u process_one_ok by metis
  moreover have "attempts_left cfg (committed w') + (if b then 1 else 0) \<le> attempts_left cfg (committed w)"
  proof (cases r)
    case (Inl exc)
    with u show ?thesis using process_one_Inl [of e cfg sdk locked w exc u] by simp
  next
    case (Inr c)
    show ?thesis
    proof (cases c)
      case True
      with Inr u Cons.prems show ?thesis using process_one_budget [of e cfg sdk locked w u] by simp
    next
      case False
      with Inr u show ?thesis by (simp add: process_one_False)
    qed
  qed
  ultimately show ?case using it x by (auto split: if_splits)
qed simp

text \<open>
  The line an exhausted \<open>RetryableHandlerError\<close> leaves in the log is no \<open>ERROR\<close>, other than
  the module's documentation says.
\<close>

lemma exhausted_failure_is_a_warning:
  assumes "attempt_failed e cfg event (retryable m) s = (Inr event', t)" and "status event' = STATUS_FAILED"
  shows "\<exists>line. log t = log s @ [line] \<and> log_record_message line = ''event_failed_exhausted'' \<and>
    log_record_level line < ERROR"
proof -
  from assms(1) obtain u where "schedule_retry_or_fail e cfg event m s = (Inr event', u)"
    and t: "t = u\<lparr>log := log u @ [\<lparr>log_record_level = WARNING,
      log_record_message = (if status event' = STATUS_PENDING then ''event_retry_scheduled'' else ''event_failed_exhausted''),
      log_record_extra = ([(''event'', PStr (if status event' = STATUS_PENDING then ''event_retry_scheduled'' else ''event_failed_exhausted'')),
        (''outcome'', PStr (if status event' = STATUS_PENDING then ''retry'' else ''failed'')), (''error'', PStr m),
        (''next_attempt_at'', PStr (isoformat (next_attempt_at event')))] @ event_log_ctx event')\<rparr>]\<rparr>"
    by (auto simp: bnd_eq_Inr log_at_def modifies_def ret_def)
  moreover have "u = s"
    using calculation(1) by (auto simp: schedule_retry_or_fail_def bnd_eq_Inr db_read_eq lift_eq ret_def split: if_splits)
  ultimately show ?thesis using assms(2) by (simp add: less_log_level_def)
qed

section \<open>Properties\<close>

text \<open>C1: one transaction of the worker, when it processes an event. The row it takes was
  pending, due and held by no other worker, and no such row was received earlier. After
  the commit exactly one more attempt is counted on it and it is processed, failed for
  good, failed because the attempts are used up, or pending again at least one second
  later (\<open>attempt_step\<close>). Every other event row is as it was; the mapping tables only
  gain rows, and only if the event is now processed.\<close>

theorem process_one_lifecycle:
  assumes "process_one e cfg sdk locked w = (Inr True, w')"
    and "db_ok (committed w)"
  shows "\<exists>row row'.
    event_row (stripe_event_id row) (committed w) = Some row \<and> claimable e locked row \<and>
    (\<forall>x \<in> set (webhook_events (committed w)). claimable e locked x \<longrightarrow> received_at row \<le> received_at x) \<and>
    event_row (stripe_event_id row) (committed w') = Some row' \<and> attempt_step e cfg row row' \<and>
    (\<forall>k. k \<noteq> stripe_event_id row \<longrightarrow> event_row k (committed w') = event_row k (committed w)) \<and>
    db_grows (committed w) ((committed w')\<lparr>webhook_events := webhook_events (committed w)\<rparr>) \<and>
    (status row' \<noteq> STATUS_PROCESSED \<longrightarrow>
       customer_mappings (committed w') = customer_mappings (committed w) \<and>
       subscription_mappings (committed w') = subscription_mappings (committed w))"
proof (rule process_one_db [OF assms(1)])
  fix row row'
  assume claim: "claim_next_event e locked (committed w) = Some row"
    and step: "attempt_step e cfg row row'"
    and rows: "webhook_events (committed w') = replace_event row' (webhook_events (committed w))"
    and rest: "db_grows (committed w) ((committed w')\<lparr>webhook_events := webhook_events (committed w)\<rparr>)"
      "status row' \<noteq> STATUS_PROCESSED \<Longrightarrow> customer_mappings (committed w') = customer_mappings (committed w) \<and>
         subscription_mappings (committed w') = subscription_mappings (committed w)"
  have ids: "stripe_event_id row' = stripe_event_id row" using step by (rule attempt_step_id)
  have "event_row (stripe_event_id row) (committed w) = Some row"
    using events.lookup_Some_iff [of "committed w"] assms(2) claim_Some [OF claim] by (simp add: db_ok_def)
  moreover have "event_row k (committed w') =
      (if k = stripe_event_id row then Some row' else event_row k (committed w))" for k
    using claim_Some [OF claim] by (auto simp: event_row_def rows event_row_replace ids)
  ultimately show ?thesis using claim_Some [OF claim] step rest
    by (intro exI [of _ row] exI [of _ row']) auto
qed

definition queued_world :: "db \<Rightarrow> webhook_event list \<Rightarrow> unit world" where
  "queued_world d rows = \<lparr>committed = d\<lparr>webhook_events := rows\<rparr>, server = (), all_calls = [], all_log = []\<rparr>"

lemma process_one_lifecycle_witness:
  "\<exists>row. claimable sample_env {} row \<and>
     event_row (stripe_event_id row)
       (committed (queued_world empty_db [sample_event ''customer.created'' sample_customer])) = Some row"
proof -
  let ?w = "queued_world empty_db [sample_event ''customer.created'' sample_customer]"
  have "fst (process_one sample_env sample_settings (answering_sdk ''m_1'') {} ?w) = Inr True" by code_simp
  then obtain w' where run: "process_one sample_env sample_settings (answering_sdk ''m_1'') {} ?w = (Inr True, w')"
    by (metis prod.collapse)
  have ok: "db_ok (committed ?w)" by (simp add: queued_world_def empty_db_def db_ok_def)
  show ?thesis using process_one_lifecycle [OF run ok] by blast
qed

text \<open>A single worker's attempts are bounded. Over any number of iterations of the polling
  loop, whatever the clocks, the handlers and the SDK do, the iterations that process an
  event number at most the attempts left on the stored rows: the configured maximum less
  the attempts made for a pending row (one, if that is used up), none for a processed or
  failed row. So every event is retried finitely often.\<close>

lemma retries_are_bounded:
  assumes "db_ok (committed w)"
  shows "busy_iterations cfg sdk readings w \<le> attempts_left cfg (committed w)"
  using assms by (rule busy_iterations_le)

lemma retries_are_bounded_example:
  "busy_iterations sample_settings (failing_sdk (APIConnectionError ''down''))
     (replicate 9 (sample_env\<lparr>claim_now := 9000000\<rparr>, {}))
     (queued_world empty_db [sample_event ''customer.created'' sample_customer]) \<le> 3"
proof -
  have "db_ok (committed (queued_world empty_db [sample_event ''customer.created'' sample_customer]))"
    by (simp add: queued_world_def empty_db_def db_ok_def)
  moreover have "attempts_left sample_settings
      (committed (queued_world empty_db [sample_event ''customer.created'' sample_customer])) = 3"
    by (simp add: queued_world_def sample_defs attempts_left_def row_budget_def)
  ultimately show ?thesis using retries_are_bounded by metis
qed

text \<open>C21: a permanent failure is final. When the handler of the oldest ready event raises
  \<open>PermanentHandlerError\<close>, the transaction commits the row as failed, with the message
  marked as permanent, and neither mapping table changes.\<close>

theorem permanent_failure_is_final:
  fixes sdk :: "'m sdk"
  assumes "claim_next_event e locked (committed w) = Some row"
    and "map_of HANDLERS (event_type row) = Some h"
    and "h e cfg sdk (stripe_event_id row) (payload row) (begin_session w) = (Inl (permanent m), s)"
  shows "\<exists>w'. process_one e cfg sdk locked w = (Inr True, w') \<and>
    committed w' = save_event (mark_failed e (row\<lparr>attempts := attempts row + 1\<rparr>) m True) (committed w)"
  using permanent_outcome [OF assms] by blast

text \<open>The run of the sample event's handler on a sample row, for the witnesses below.\<close>

definition sample_run :: "unit sdk \<Rightarrow> db \<Rightarrow> webhook_event \<Rightarrow> (exn + unit) \<times> unit ctx" where
  "sample_run sdk d row =
     discard (handle_customer_created sample_env sample_settings sdk (stripe_event_id row) (payload row))
       (begin_session (queued_world d [row]))"

lemma pair_fst: "fst x = a \<Longrightarrow> x = (a, snd x)"
  by (cases x) simp

lemma created_registered:
  "event_type row = ''customer.created'' \<Longrightarrow>
     map_of HANDLERS (event_type row) = Some (\<lambda>e cfg sdk i p. discard (handle_customer_created e cfg sdk i p))"
  by (simp add: HANDLERS_def)

lemma permanent_failure_is_final_witness:
  "\<exists>w'. process_one sample_env sample_settings (answering_sdk ''m_1'') {}
      (queued_world empty_db [sample_event ''customer.created'' []]) = (Inr True, w') \<and>
    map status (webhook_events (committed w')) = [''failed'']"
proof -
  let ?row = "sample_event ''customer.created'' []"
  let ?w = "queued_world empty_db [?row]"
  let ?m = "''Stripe event field `data.object.id` is missing or empty.''"
  have claim: "claim_next_event sample_env {} (committed ?w) = Some ?row" by code_simp
  have handler: "map_of HANDLERS (event_type ?row) = Some (\<lambda>e cfg sdk i p. discard (handle_customer_created e cfg sdk i p))"
    by (rule created_registered) (simp add: sample_event_def)
  have "fst (sample_run (answering_sdk ''m_1'') empty_db ?row) = Inl (permanent ?m)" by code_simp
  from permanent_failure_is_final [OF claim handler this [THEN pair_fst, unfolded sample_run_def]]
  show ?thesis
    by (elim exE conjE)
      (simp add: save_event_def mark_failed_def queued_world_def sample_event_def STATUS_FAILED_def)
qed

text \<open>C20: the last attempt. When the attempts are used up, any failure that is not permanent and
  that has left the session usable (no flush has violated a constraint) commits the row as
  failed, with the reason of the failure, and changes no mapping.\<close>

theorem last_attempt_fails_event:
  fixes sdk :: "'m sdk"
  assumes "claim_next_event e locked (committed w) = Some row"
    and "map_of HANDLERS (event_type row) = Some h"
    and "h e cfg sdk (stripe_event_id row) (payload row) (begin_session w) = (Inl exc, s)"
    and "\<forall>m. exc \<noteq> permanent m" and "\<not> deactivated s"
    and "worker_max_attempts cfg \<le> attempts row + 1"
  shows "\<exists>w'. process_one e cfg sdk locked w = (Inr True, w') \<and>
    committed w' = save_event (row\<lparr>attempts := attempts row + 1, status := STATUS_FAILED,
      last_error := Some (''EXHAUSTED RETRIES: '' @ failure_reason exc), processed_at := Some (finish_now e)\<rparr>)
      (committed w)"
  using exhausted_outcome [OF assms] by blast

lemma last_attempt_fails_event_witness:
  "\<exists>w'. process_one sample_env sample_settings (failing_sdk (APIConnectionError ''down'')) {}
      (queued_world empty_db [(sample_event ''customer.created'' sample_customer)\<lparr>attempts := 2\<rparr>]) = (Inr True, w') \<and>
    map last_error (webhook_events (committed w')) = [Some ''EXHAUSTED RETRIES: down'']"
proof -
  let ?row = "(sample_event ''customer.created'' sample_customer)\<lparr>attempts := 2\<rparr>"
  let ?w = "queued_world empty_db [?row]"
  let ?run = "sample_run (failing_sdk (APIConnectionError ''down'')) empty_db ?row"
  have claim: "claim_next_event sample_env {} (committed ?w) = Some ?row" by code_simp
  have handler: "map_of HANDLERS (event_type ?row) = Some (\<lambda>e cfg sdk i p. discard (handle_customer_created e cfg sdk i p))"
    by (rule created_registered) (simp add: sample_event_def)
  have run: "fst ?run = Inl (retryable ''down'')" and active: "\<not> deactivated (snd ?run)" by code_simp+
  have last: "worker_max_attempts sample_settings \<le> attempts ?row + 1" by (simp add: sample_settings_def)
  have "\<exists>w'. process_one sample_env sample_settings (failing_sdk (APIConnectionError ''down'')) {} ?w = (Inr True, w') \<and>
    committed w' = save_event (?row\<lparr>attempts := attempts ?row + 1, status := STATUS_FAILED,
      last_error := Some (''EXHAUSTED RETRIES: '' @ failure_reason (retryable ''down'')),
      processed_at := Some (finish_now sample_env)\<rparr>) (committed ?w)"
    by (rule last_attempt_fails_event [OF claim handler run [THEN pair_fst, unfolded sample_run_def] _ _ last])
      (use active in \<open>simp_all add: sample_run_def\<close>)
  then show ?thesis
    by (elim exE conjE) (simp add: save_event_def queued_world_def sample_event_def failure_reason_def)
qed

text \<open>C19: a retry. Before the last attempt, a failure that is not permanent and that has left the
  session usable (no flush has violated a constraint) commits the row as pending, with the
  reason, one more attempt and no mapping changed. With settings that pass their checks and a
  clock that stays within the years of a datetime, its next attempt is due at least a second
  and at most the capped exponential delay from now.\<close>

theorem retry_is_scheduled:
  fixes sdk :: "'m sdk"
  assumes claim: "claim_next_event e locked (committed w) = Some row"
    and handler: "map_of HANDLERS (event_type row) = Some h"
    and run: "h e cfg sdk (stripe_event_id row) (payload row) (begin_session w) = (Inl exc, s)"
    and exc: "\<forall>m. exc \<noteq> permanent m" and active: "\<not> deactivated s"
    and more: "attempts row + 1 < worker_max_attempts cfg"
    and attempt: "0 \<le> attempts row" "attempts row < 1024"
    and cfg: "load_settings cfg = Inr cfg"
    and clock: "0 \<le> draw e" "draw e \<le> 1" "0 \<le> finish_now e"
      "finish_now e + \<lceil>worker_retry_cap_seconds cfg * 1000000\<rceil> \<le> max_datetime"
  shows "\<exists>w' t. process_one e cfg sdk locked w = (Inr True, w') \<and>
    committed w' = save_event (row\<lparr>attempts := attempts row + 1, status := STATUS_PENDING,
      next_attempt_at := t, last_error := Some (failure_reason exc)\<rparr>) (committed w) \<and>
    finish_now e + 1000000 \<le> t \<and>
    t \<le> finish_now e +
      \<lceil>min (worker_retry_base_seconds cfg * 2 ^ nat (attempts row)) (worker_retry_cap_seconds cfg) * 1000000\<rceil>"
  using retry_outcome [OF assms] by blast

lemma retry_is_scheduled_witness:
  "\<exists>w'. process_one sample_env sample_settings (failing_sdk (APIConnectionError ''down'')) {}
      (queued_world empty_db [sample_event ''customer.created'' sample_customer]) = (Inr True, w') \<and>
    map status (webhook_events (committed w')) = [''pending'']"
proof -
  let ?row = "sample_event ''customer.created'' sample_customer"
  let ?w = "queued_world empty_db [?row]"
  let ?run = "sample_run (failing_sdk (APIConnectionError ''down'')) empty_db ?row"
  have claim: "claim_next_event sample_env {} (committed ?w) = Some ?row" by code_simp
  have handler: "map_of HANDLERS (event_type ?row) = Some (\<lambda>e cfg sdk i p. discard (handle_customer_created e cfg sdk i p))"
    by (rule created_registered) (simp add: sample_event_def)
  have run: "fst ?run = Inl (retryable ''down'')" and active: "\<not> deactivated (snd ?run)" by code_simp+
  have cfg: "load_settings sample_settings = Inr sample_settings"
    unfolding load_settings_ok by (intro conjI) (simp add: sample_settings_def, code_simp+)
  have "\<exists>w' t. process_one sample_env sample_settings (failing_sdk (APIConnectionError ''down'')) {} ?w = (Inr True, w') \<and>
    committed w' = save_event (?row\<lparr>attempts := attempts ?row + 1, status := STATUS_PENDING,
      next_attempt_at := t, last_error := Some (failure_reason (retryable ''down''))\<rparr>) (committed ?w) \<and>
    finish_now sample_env + 1000000 \<le> t \<and>
    t \<le> finish_now sample_env + \<lceil>min (worker_retry_base_seconds sample_settings * 2 ^ nat (attempts ?row))
      (worker_retry_cap_seconds sample_settings) * 1000000\<rceil>"
    by (rule retry_is_scheduled [OF claim handler run [THEN pair_fst, unfolded sample_run_def] _ _ _ _ _ cfg])
      (use active in \<open>simp_all add: sample_run_def sample_settings_def sample_env_def sample_event_def max_datetime_def\<close>)
  then show ?thesis
    by (elim exE conjE) (simp add: save_event_def queued_world_def sample_event_def STATUS_PENDING_def)
qed

text \<open>C22: a violated constraint blocks the queue. When a handler's flush violates a constraint,
  whatever exception it ends with, the transaction raises \<open>PendingRollbackError\<close> and is
  rolled back as a whole: the attempt is not counted, the row keeps its place, and the next
  claim under the same conditions takes it again.\<close>

theorem poisoned_flush_blocks_queue:
  fixes sdk :: "'m sdk"
  assumes "claim_next_event e locked (committed w) = Some row"
    and "map_of HANDLERS (event_type row) = Some h"
    and "h e cfg sdk (stripe_event_id row) (payload row) (begin_session w) = (Inl exc, s)" and "deactivated s"
  shows "\<exists>w'. process_one e cfg sdk locked w = (Inl PendingRollbackError, w') \<and>
    committed w' = committed w \<and> claim_next_event e locked (committed w') = Some row"
proof -
  have "\<forall>m. exc \<noteq> permanent m" using failed_handler_session(2) [OF assms(2,3)] assms(4) by blast
  from attempt_failed_raises [OF this schedule_deactivated [OF assms(4)]]
  have "attempt_failed e cfg (row\<lparr>attempts := attempts row + 1\<rparr>) exc s = (Inl PendingRollbackError, s)" .
  from process_one_failure [OF assms(1-3) this] assms(1) show ?thesis by (simp add: rollback_def)
qed

lemma poisoned_flush_blocks_queue_witness:
  "\<exists>w'. process_one sample_env sample_settings (answering_sdk ''m_1'') {}
      (queued_world (empty_db\<lparr>customer_mappings := [sample_mapping\<lparr>cm_stripe_customer_id := ''cus_0''\<rparr>]\<rparr>)
        [sample_event ''customer.created'' sample_customer]) = (Inl PendingRollbackError, w') \<and>
    map attempts (webhook_events (committed w')) = [0]"
proof -
  let ?row = "sample_event ''customer.created'' sample_customer"
  let ?d = "empty_db\<lparr>customer_mappings := [sample_mapping\<lparr>cm_stripe_customer_id := ''cus_0''\<rparr>]\<rparr>"
  let ?w = "queued_world ?d [?row]"
  let ?run = "sample_run (answering_sdk ''m_1'') ?d ?row"
  have claim: "claim_next_event sample_env {} (committed ?w) = Some ?row" by code_simp
  have handler: "map_of HANDLERS (event_type ?row) = Some (\<lambda>e cfg sdk i p. discard (handle_customer_created e cfg sdk i p))"
    by (rule created_registered) (simp add: sample_event_def)
  have run: "fst ?run = Inl (IntegrityError ''uq_customer_mappings_metronome_customer_id'')"
    and poisoned: "deactivated (snd ?run)" by code_simp+
  from poisoned_flush_blocks_queue [OF claim handler run [THEN pair_fst, unfolded sample_run_def]
      poisoned [unfolded sample_run_def]]
  show ?thesis by (elim exE conjE) (simp add: queued_world_def sample_event_def)
qed

end
