(* ===== verification/Json.thy ===== *)
theory Json
  imports PyTime "HOL-Library.Log_Nat"
begin

text \<open>
  \<open>json.loads\<close> on bytes, as the standard library of Python 3.12 has it: the detection of the
  encoding, the scanner with the positions of its errors, numbers as integers or nearest
  floats, and the limits on integer digits and on nesting. Text is the list of the bytes
  of its UTF-8 encoding, a lone surrogate being encoded like any other code point.
\<close>

section \<open>Text\<close>

definition byte :: "char \<Rightarrow> nat" where
  "byte c = of_char c"

fun utf8_encode :: "nat \<Rightarrow> string" where
  "utf8_encode n =
     (if n < 0x80 then [char_of n]
      else if n < 0x800 then [char_of (0xC0 + n div 0x40), char_of (0x80 + n mod 0x40)]
      else if n < 0x10000
      then [char_of (0xE0 + n div 0x1000), char_of (0x80 + n div 0x40 mod 0x40), char_of (0x80 + n mod 0x40)]
      else [char_of (0xF0 + n div 0x40000), char_of (0x80 + n div 0x1000 mod 0x40),
            char_of (0x80 + n div 0x40 mod 0x40), char_of (0x80 + n mod 0x40)])"

declare utf8_encode.simps [simp del]

definition continuation :: "char \<Rightarrow> bool" where
  "continuation c \<longleftrightarrow> 0x80 \<le> byte c \<and> byte c < 0xC0"

text \<open>How many bytes the first code point takes; \<open>0\<close> if they encode none.\<close>

definition utf8_width :: "string \<Rightarrow> nat" where
  "utf8_width s =
     (case map byte (take 4 s) of
        [] \<Rightarrow> 0
      | b # bs \<Rightarrow>
          if b < 0x80 then 1
          else if 0xC2 \<le> b \<and> b < 0xE0 \<and> list_all continuation (take 1 (drop 1 s)) \<and> 1 \<le> length bs then 2
          else if 0xE0 \<le> b \<and> b < 0xF0 \<and> list_all continuation (take 2 (drop 1 s)) \<and> 2 \<le> length bs \<and>
            (b = 0xE0 \<longrightarrow> 0xA0 \<le> bs ! 0) then 3
          else if 0xF0 \<le> b \<and> b < 0xF5 \<and> list_all continuation (take 3 (drop 1 s)) \<and> 3 \<le> length bs \<and>
            (b = 0xF0 \<longrightarrow> 0x90 \<le> bs ! 0) \<and> (b = 0xF4 \<longrightarrow> bs ! 0 < 0x90) then 4
          else 0)"

text \<open>\<open>decode('utf-8', 'surrogatepass')\<close>: the bytes themselves, if they encode text.\<close>

function valid_utf8 :: "string \<Rightarrow> bool" where
  "valid_utf8 s =
     (if s = [] then True else if utf8_width s = 0 then False else valid_utf8 (drop (utf8_width s) s))"
  by pat_completeness auto
termination
  by (relation "measure length") (auto simp: neq_Nil_conv)

declare valid_utf8.simps [simp del]

definition undecodable :: "string \<Rightarrow> exn" where
  "undecodable codec = ValueError (UnicodeDecodeError (py_repr codec @ '' codec can't decode the payload''))"

definition decode_utf8 :: "string \<Rightarrow> exn + string" where
  "decode_utf8 s = (if valid_utf8 s then Inr s else Inl (undecodable ''utf-8''))"

text \<open>The 16-bit or 32-bit units of the other encodings, high byte first if \<open>big\<close>.\<close>

fun units16 :: "bool \<Rightarrow> string \<Rightarrow> nat list option" where
  "units16 big [] = Some []"
| "units16 big [a] = None"
| "units16 big (a # b # s) =
     map_option ((#) (if big then byte a * 0x100 + byte b else byte b * 0x100 + byte a)) (units16 big s)"

fun units32 :: "bool \<Rightarrow> string \<Rightarrow> nat list option" where
  "units32 big [] = Some []"
| "units32 big (a # b # c # d # s) =
     map_option ((#) (foldl (\<lambda>n x. n * 0x100 + byte x) 0 (if big then [a, b, c, d] else [d, c, b, a]))) (units32 big s)"
| "units32 big s = None"

definition high_surrogate :: "nat \<Rightarrow> bool" where
  "high_surrogate u \<longleftrightarrow> 0xD800 \<le> int u \<and> int u < 0xDC00"

definition low_surrogate :: "nat \<Rightarrow> bool" where
  "low_surrogate u \<longleftrightarrow> 0xDC00 \<le> int u \<and> int u < 0xE000"

definition join_surrogates :: "nat \<Rightarrow> nat \<Rightarrow> nat" where
  "join_surrogates u v = 0x10000 + (u - 0xD800) * 0x400 + (v - 0xDC00)"

fun join_units :: "nat list \<Rightarrow> nat list" where
  "join_units (u # v # us) =
     (if high_surrogate u \<and> low_surrogate v then join_surrogates u v # join_units us
      else u # join_units (v # us))"
| "join_units us = us"

definition decode_utf16 :: "string \<Rightarrow> bool \<Rightarrow> string \<Rightarrow> exn + string" where
  "decode_utf16 codec big s =
     (case units16 big s of
        None \<Rightarrow> Inl (undecodable codec)
      | Some us \<Rightarrow> Inr (concat (map utf8_encode (join_units us))))"

definition decode_utf32 :: "string \<Rightarrow> bool \<Rightarrow> string \<Rightarrow> exn + string" where
  "decode_utf32 codec big s =
     (case units32 big s of
        None \<Rightarrow> Inl (undecodable codec)
      | Some us \<Rightarrow>
          if list_all (\<lambda>u. u < 0x110000) us then Inr (concat (map utf8_encode us)) else Inl (undecodable codec))"

text \<open>\<open>json.detect_encoding\<close> and the decoding by its result; a byte order mark is dropped.\<close>

definition zero_at :: "nat \<Rightarrow> string \<Rightarrow> bool" where
  "zero_at i s \<longleftrightarrow> s ! i = CHR 0x00"

definition decode_payload :: "string \<Rightarrow> exn + string" where
  "decode_payload s =
     (if take 4 s = [CHR 0x00, CHR 0x00, CHR 0xFE, CHR 0xFF] then decode_utf32 ''utf-32'' True (drop 4 s)
      else if take 4 s = [CHR 0xFF, CHR 0xFE, CHR 0x00, CHR 0x00] then decode_utf32 ''utf-32'' False (drop 4 s)
      else if take 2 s = [CHR 0xFE, CHR 0xFF] then decode_utf16 ''utf-16'' True (drop 2 s)
      else if take 2 s = [CHR 0xFF, CHR 0xFE] then decode_utf16 ''utf-16'' False (drop 2 s)
      else if take 3 s = [CHR 0xEF, CHR 0xBB, CHR 0xBF] then decode_utf8 (drop 3 s)
      else if 4 \<le> length s \<and> zero_at 0 s
      then if zero_at 1 s then decode_utf32 ''utf-32-be'' True s else decode_utf16 ''utf-16-be'' True s
      else if 4 \<le> length s \<and> zero_at 1 s
      then if zero_at 2 s \<and> zero_at 3 s then decode_utf32 ''utf-32-le'' False s else decode_utf16 ''utf-16-le'' False s
      else if length s = 2 \<and> zero_at 0 s then decode_utf16 ''utf-16-be'' True s
      else if length s = 2 \<and> zero_at 1 s then decode_utf16 ''utf-16-le'' False s
      else decode_utf8 s)"

section \<open>Numbers\<close>

definition pow2 :: "int \<Rightarrow> rat" where
  "pow2 e = (if 0 \<le> e then 2 ^ nat e else 1 / 2 ^ nat (- e))"

text \<open>The exponent of the largest power of two that is at most a positive rational.\<close>

definition floor_log2 :: "rat \<Rightarrow> int" where
  "floor_log2 x =
     (case quotient_of x of (p, q) \<Rightarrow>
        let e = bitlen p - bitlen q in if pow2 e \<le> x then e else e - 1)"

text \<open>
  The nearest binary64 number, ties to even; from half a unit beyond the largest one on,
  an infinity.
\<close>

definition nearest_float :: "rat \<Rightarrow> pyval" where
  "nearest_float x =
     (if x = 0 then PFloat 0
      else
        let e = max (floor_log2 \<bar>x\<bar> - 52) (- 1074);
            v = of_int (round_half_even (\<bar>x\<bar> / pow2 e)) * pow2 e
        in if pow2 1024 \<le> v then PNonFinite (if x < 0 then ''-inf'' else ''inf'')
           else PFloat (if x < 0 then - v else v))"

definition pow10 :: "int \<Rightarrow> rat" where
  "pow10 e = (if 0 \<le> e then 10 ^ nat e else 1 / 10 ^ nat (- e))"

text \<open>A literal: its sign, the digits before and after the point, and the exponent.\<close>

definition float_literal :: "bool \<Rightarrow> string \<Rightarrow> string \<Rightarrow> int \<Rightarrow> pyval" where
  "float_literal negative whole decimals expo =
     (let m = of_int (read_dec (whole @ decimals)) * pow10 (expo - int (length decimals))
      in nearest_float (if negative then - m else m))"

definition int_digits_limit :: int where
  "int_digits_limit = 4300"

definition int_literal :: "bool \<Rightarrow> string \<Rightarrow> exn + pyval" where
  "int_literal negative whole =
     (if int_digits_limit < int (length whole)
      then Inl (ValueError (PlainValueError
        (''Exceeds the limit (4300 digits) for integer string conversion: value has '' @
         show_int (int (length whole)) @ '' digits; use sys.set_int_max_str_digits() to increase the limit'')))
      else Inr (PInt (if negative then - read_dec whole else read_dec whole)))"

section \<open>The scanner\<close>

text \<open>
  A scan works on what is left of the text. It ends with a value and the rest; with
  \<open>StopIteration\<close>, where a value was expected; with a \<open>JSONDecodeError\<close> and where it
  points; or with another exception.
\<close>

datatype scan_error =
    StopIteration string
  | DecodeError string string
  | Raised exn

type_synonym 'a scan = "string \<Rightarrow> scan_error + 'a \<times> string"

definition skip_ws :: "string \<Rightarrow> string" where
  "skip_ws s = dropWhile (\<lambda>c. c \<in> {CHR '' '', CHR 0x09, CHR 0x0A, CHR 0x0D}) s"

subsection \<open>Strings\<close>

definition hex_digits :: "(char \<times> nat) list" where
  "hex_digits = zip ''0123456789abcdefABCDEF'' ([0..<16] @ [10..<16])"

text \<open>The code unit of four hexadecimal digits; at least one more character must follow.\<close>

definition hex4 :: "string \<Rightarrow> nat option" where
  "hex4 s =
     (if length s < 5 then None
      else
        let ds = map (map_of hex_digits) (take 4 s)
        in if None \<in> set ds then None else Some (foldl (\<lambda>n d. n * 16 + the d) 0 ds))"

definition simple_escapes :: "(char \<times> char) list" where
  "simple_escapes =
     [(CHR 0x22, CHR 0x22), (CHR 0x5C, CHR 0x5C), (CHR ''/'', CHR ''/''), (CHR ''b'', CHR 0x08), (CHR ''f'', CHR 0x0C),
      (CHR ''n'', CHR 0x0A), (CHR ''r'', CHR 0x0D), (CHR ''t'', CHR 0x09)]"

text \<open>
  \<open>scanstring\<close>, from after the opening quote; \<open>begun\<close> is the text from that quote on,
  \<open>acc\<close> what was read, in reverse. The low half of a pair is looked for only if another
  character follows it.
\<close>

definition pair_follows :: "nat \<Rightarrow> string \<Rightarrow> bool" where
  "pair_follows u s \<longleftrightarrow> high_surrogate u \<and> 6 < length s \<and> take 2 s = [CHR 0x5C, CHR ''u'']"

fun scan_string :: "string \<Rightarrow> string \<Rightarrow> string scan" where
  "scan_string begun acc [] = Inl (DecodeError ''Unterminated string starting at'' begun)"
| "scan_string begun acc (c # s) =
     (if c = CHR 0x22 then Inr (rev acc, s)
      else if byte c < 0x20 then Inl (DecodeError ''Invalid control character at'' (c # s))
      else if c \<noteq> CHR 0x5C then scan_string begun (c # acc) s
      else if s = [] then Inl (DecodeError ''Unterminated string starting at'' begun)
      else if hd s \<noteq> CHR ''u''
      then (case map_of simple_escapes (hd s) of
              None \<Rightarrow> Inl (DecodeError (''Invalid '' @ [CHR 0x5C] @ ''escape'') (c # s))
            | Some x \<Rightarrow> scan_string begun (x # acc) (drop 1 s))
      else (case hex4 (drop 1 s) of
              None \<Rightarrow> Inl (DecodeError (''Invalid '' @ [CHR 0x5C] @ ''uXXXX escape'') s)
            | Some u \<Rightarrow>
                if pair_follows u (drop 5 s)
                then (case hex4 (drop 7 s) of
                        None \<Rightarrow> Inl (DecodeError (''Invalid '' @ [CHR 0x5C] @ ''uXXXX escape'') (drop 6 s))
                      | Some v \<Rightarrow>
                          if low_surrogate v
                          then scan_string begun (rev (utf8_encode (join_surrogates u v)) @ acc) (drop 11 s)
                          else scan_string begun (rev (utf8_encode u) @ acc) (drop 5 s))
                else scan_string begun (rev (utf8_encode u) @ acc) (drop 5 s)))"

subsection \<open>Numbers and names\<close>

text \<open>The digits after a point, and the exponent, where the text has them.\<close>

definition scan_fraction :: "string \<Rightarrow> string option \<times> string" where
  "scan_fraction s =
     (case s of
        c # d # _ \<Rightarrow>
          if c = CHR ''.'' \<and> is_digit d
          then (Some (takeWhile is_digit (tl s)), dropWhile is_digit (tl s)) else (None, s)
      | _ \<Rightarrow> (None, s))"

definition scan_exponent :: "string \<Rightarrow> int option \<times> string" where
  "scan_exponent s =
     (case s of
        [] \<Rightarrow> (None, s)
      | c # t \<Rightarrow>
          let signed = t \<noteq> [] \<and> (hd t = CHR ''-'' \<or> hd t = CHR ''+'');
              ds = (if signed then tl t else t);
              n = read_dec (takeWhile is_digit ds)
          in if (c = CHR ''e'' \<or> c = CHR ''E'') \<and> takeWhile is_digit ds \<noteq> []
             then (Some (if signed \<and> hd t = CHR ''-'' then - n else n), dropWhile is_digit ds)
             else (None, s))"

text \<open>The whole part: no leading zeros.\<close>

definition whole_part :: "string \<Rightarrow> string" where
  "whole_part s = (if take 1 s = ''0'' then ''0'' else takeWhile is_digit s)"

definition scan_number :: "pyval scan" where
  "scan_number s =
     (let negative = (take 1 s = ''-''); unsigned = (if negative then tl s else s); whole = whole_part unsigned in
      if whole = [] then Inl (StopIteration s)
      else case scan_fraction (drop (length whole) unsigned) of (decimals, t) \<Rightarrow>
           case scan_exponent t of (expo, rest) \<Rightarrow>
             if decimals = None \<and> expo = None
             then (case int_literal negative whole of Inl exc \<Rightarrow> Inl (Raised exc) | Inr v \<Rightarrow> Inr (v, rest))
             else Inr (float_literal negative whole (case decimals of None \<Rightarrow> [] | Some ds \<Rightarrow> ds)
                         (case expo of None \<Rightarrow> 0 | Some n \<Rightarrow> n), rest))"

definition names :: "(string \<times> pyval) list" where
  "names =
     [(''null'', PNone), (''true'', PBool True), (''false'', PBool False), (''NaN'', PNonFinite ''nan''),
      (''Infinity'', PNonFinite ''inf''), (''-Infinity'', PNonFinite ''-inf'')]"

definition scan_atom :: "pyval scan" where
  "scan_atom s =
     (case find (\<lambda>(w, v). take (length w) s = w) names of
        Some (w, v) \<Rightarrow> Inr (v, drop (length w) s)
      | None \<Rightarrow> scan_number s)"

subsection \<open>Containers\<close>

text \<open>
  The loops over the elements of an array and the entries of an object, for any scan of the
  values in them. A value takes at least one character, so the test that the text gets
  shorter never fails (\<open>scan_items_step\<close>, \<open>scan_entries_step\<close>); it makes the loops total.
\<close>

definition after_comma :: "string \<Rightarrow> string" where
  "after_comma s = skip_ws (tl s)"

function scan_items :: "pyval scan \<Rightarrow> pyval list \<Rightarrow> pyval scan" where
  "scan_items scan acc s =
     (case scan s of
        Inl x \<Rightarrow> Inl x
      | Inr (v, r) \<Rightarrow>
          let rest = skip_ws r in
          if take 1 rest = '']'' then Inr (PList (rev (v # acc)), tl rest)
          else if take 1 rest \<noteq> '','' then Inl (DecodeError ''Expecting ',' delimiter'' rest)
          else if length (after_comma rest) < length s then scan_items scan (v # acc) (after_comma rest)
          else Inl (StopIteration s))"
  by pat_completeness auto
termination
  by (relation "measure (\<lambda>(scan, acc, s). length s)") auto

declare scan_items.simps [simp del]

definition scan_array :: "pyval scan \<Rightarrow> pyval scan" where
  "scan_array scan s =
     (let first = skip_ws s in
      if take 1 first = '']'' then Inr (PList [], tl first) else scan_items scan [] first)"

text \<open>\<open>d[key] = value\<close>: a key that is there keeps its place.\<close>

fun dict_set :: "string \<Rightarrow> pyval \<Rightarrow> pydict \<Rightarrow> pydict" where
  "dict_set k v [] = [(k, v)]"
| "dict_set k v ((k', v') # d) = (if k' = k then (k, v) # d else (k', v') # dict_set k v d)"

lemma dict_get_set: "dict_get (dict_set k v d) k' = (if k' = k then v else dict_get d k')"
  by (induction d) auto

text \<open>One entry: the key, the colon and the value.\<close>

definition scan_entry :: "pyval scan \<Rightarrow> (string \<times> pyval) scan" where
  "scan_entry scan s =
     (if take 1 s \<noteq> [CHR 0x22]
      then Inl (DecodeError ''Expecting property name enclosed in double quotes'' s)
      else
        case scan_string s [] (tl s) of
          Inl x \<Rightarrow> Inl x
        | Inr (k, r) \<Rightarrow>
            let colon = skip_ws r in
            if take 1 colon \<noteq> '':'' then Inl (DecodeError ''Expecting ':' delimiter'' colon)
            else (case scan (skip_ws (tl colon)) of
                    Inl x \<Rightarrow> Inl x
                  | Inr (v, rest) \<Rightarrow> Inr ((k, v), rest)))"

function scan_entries :: "pyval scan \<Rightarrow> pydict \<Rightarrow> pyval scan" where
  "scan_entries scan d s =
     (case scan_entry scan s of
        Inl x \<Rightarrow> Inl x
      | Inr ((k, v), r) \<Rightarrow>
          let rest = skip_ws r in
          if take 1 rest = ''}'' then Inr (PDict (dict_set k v d), tl rest)
          else if take 1 rest \<noteq> '','' then Inl (DecodeError ''Expecting ',' delimiter'' rest)
          else if length (after_comma rest) < length s then scan_entries scan (dict_set k v d) (after_comma rest)
          else Inl (StopIteration s))"
  by pat_completeness auto
termination
  by (relation "measure (\<lambda>(scan, d, s). length s)") auto

declare scan_entries.simps [simp del]

definition scan_object :: "pyval scan \<Rightarrow> pyval scan" where
  "scan_object scan s =
     (let first = skip_ws s in
      if take 1 first = ''}'' then Inr (PDict [], tl first) else scan_entries scan [] first)"

text \<open>
  \<open>scan_once\<close>: the first argument is how many containers the interpreter's recursion limit
  lets be open at once.
\<close>

definition too_deep :: "string \<Rightarrow> scan_error" where
  "too_deep what =
     Raised (OtherException ''RecursionError''
       (''maximum recursion depth exceeded while decoding a JSON '' @ what @ '' from a unicode string''))"

definition scan_value :: "pyval scan option \<Rightarrow> pyval scan" where
  "scan_value inner s =
     (if take 1 s = [CHR 0x22]
      then (case scan_string s [] (tl s) of Inl x \<Rightarrow> Inl x | Inr (t, rest) \<Rightarrow> Inr (PStr t, rest))
      else if take 1 s = ''{''
      then (case inner of None \<Rightarrow> Inl (too_deep ''object'') | Some scan \<Rightarrow> scan_object scan (tl s))
      else if take 1 s = ''[''
      then (case inner of None \<Rightarrow> Inl (too_deep ''array'') | Some scan \<Rightarrow> scan_array scan (tl s))
      else scan_atom s)"

primrec scan_once :: "nat \<Rightarrow> pyval scan" where
  "scan_once 0 = scan_value None"
| "scan_once (Suc n) = scan_value (Some (scan_once n))"

section \<open>json.loads\<close>

text \<open>\<open>str(JSONDecodeError(msg, doc, pos))\<close>, where \<open>rest\<close> is the document from \<open>pos\<close> on.\<close>

definition code_points :: "string \<Rightarrow> nat" where
  "code_points s = length (filter (\<lambda>c. \<not> continuation c) s)"

definition decode_error :: "string \<Rightarrow> string \<Rightarrow> string \<Rightarrow> exn" where
  "decode_error msg doc rest =
     (let prior = take (length doc - length rest) doc;
          lineno = Suc (count_list prior CHR 0x0A);
          colno = Suc (code_points (takeWhile (\<lambda>c. c \<noteq> CHR 0x0A) (rev prior)))
      in ValueError (JSONDecodeError
           (msg @ '': line '' @ show_int (int lineno) @ '' column '' @ show_int (int colno) @
            '' (char '' @ show_int (int (code_points prior)) @ '')'')))"

fun scan_failure :: "string \<Rightarrow> scan_error \<Rightarrow> exn" where
  "scan_failure doc (StopIteration rest) = decode_error ''Expecting value'' doc rest"
| "scan_failure doc (DecodeError msg rest) = decode_error msg doc rest"
| "scan_failure doc (Raised exc) = exc"

definition json_loads :: "nat \<Rightarrow> string \<Rightarrow> exn + pyval" where
  "json_loads room body =
     try_bind (decode_payload body) (\<lambda>doc.
       case scan_once room (skip_ws doc) of
         Inl x \<Rightarrow> Inl (scan_failure doc x)
       | Inr (v, r) \<Rightarrow>
           if skip_ws r = [] then Inr v else Inl (decode_error ''Extra data'' doc (skip_ws r)))"

section \<open>A value takes text\<close>

definition shortens :: "'a scan \<Rightarrow> bool" where
  "shortens scan \<longleftrightarrow> (\<forall>s v r. scan s = Inr (v, r) \<longrightarrow> length r < length s)"

lemma shortensD: "shortens scan \<Longrightarrow> scan s = Inr (v, r) \<Longrightarrow> length r < length s"
  by (auto simp: shortens_def)

lemma length_skip_ws: "length (skip_ws s) \<le> length s"
  by (simp add: skip_ws_def length_dropWhile_le)

lemma length_after_comma: "length (after_comma s) \<le> length s"
  using length_skip_ws [of "tl s"] by (simp add: after_comma_def)

lemma scan_string_shorter: "scan_string begun acc s = Inr (t, r) \<Longrightarrow> length r < length s"
proof (induction "length s" arbitrary: acc s rule: less_induct)
  case less
  show ?case
  proof (cases s)
    case Nil
    with less.prems show ?thesis by simp
  next
    case (Cons c u)
    have later: "length r < length s" if "scan_string begun a (drop k u) = Inr (t, r)" for a k
    proof -
      have "length (drop k u) < length s" using Cons by simp
      from less.hyps [OF this that] Cons show ?thesis by simp
    qed
    show ?thesis
      using less.prems Cons later [of _ 0]
      by (auto split: if_splits option.splits dest!: later)
  qed
qed

lemma scan_fraction_length: "scan_fraction s = (x, t) \<Longrightarrow> length t \<le> length s"
proof -
  assume "scan_fraction s = (x, t)"
  then consider "t = s" | "t = dropWhile is_digit (tl s)"
    by (auto simp: scan_fraction_def split: list.splits if_splits)
  then show ?thesis using length_dropWhile_le [of is_digit "tl s"] by cases (auto simp del: length_dropWhile_le)
qed

lemma scan_exponent_length: "scan_exponent s = (x, t) \<Longrightarrow> length t \<le> length s"
proof -
  assume "scan_exponent s = (x, t)"
  then consider "t = s" | "t = dropWhile is_digit (tl s)" | "t = dropWhile is_digit (tl (tl s))"
    by (auto simp: scan_exponent_def Let_def split: list.splits if_splits)
  then show ?thesis
    using length_dropWhile_le [of is_digit "tl s"] length_dropWhile_le [of is_digit "tl (tl s)"]
    by cases (auto simp del: length_dropWhile_le)
qed

lemma scan_atom_shorter: "scan_atom s = Inr (v, r) \<Longrightarrow> length r < length s"
proof (cases "find (\<lambda>(w, v). take (length w) s = w) names")
  case (Some x)
  assume scan: "scan_atom s = Inr (v, r)"
  obtain w u where x: "x = (w, u)" by (cases x)
  from Some x have "(w, u) \<in> set names" "take (length w) s = w" by (auto dest: find_SomeD)
  moreover from this(1) have "w \<noteq> []" by (auto simp: names_def)
  moreover have "r = drop (length w) s" using scan Some x by (simp add: scan_atom_def)
  ultimately show ?thesis by (cases s) auto
next
  case None
  assume "scan_atom s = Inr (v, r)"
  with None have scan: "scan_number s = Inr (v, r)" by (simp add: scan_atom_def)
  define u where "u = (if take 1 s = ''-'' then tl s else s)"
  define w where "w = whole_part u"
  obtain decimals t where t: "scan_fraction (drop (length w) u) = (decimals, t)" by fastforce
  obtain expo rest where rest: "scan_exponent t = (expo, rest)" by fastforce
  have w: "w \<noteq> []" using scan by (auto simp: scan_number_def u_def w_def Let_def split: if_splits)
  then have "u \<noteq> []" by (auto simp: w_def whole_part_def split: if_splits)
  with w have "length (drop (length w) u) < length u" by simp
  moreover have "length u \<le> length s" by (simp add: u_def)
  moreover have "length t \<le> length (drop (length w) u)" using t by (rule scan_fraction_length)
  moreover have "length rest \<le> length t" using rest by (rule scan_exponent_length)
  moreover have "r = rest" using scan t rest w
    by (auto simp: scan_number_def u_def w_def Let_def split: if_splits sum.splits option.splits)
  ultimately show ?thesis by simp
qed

text \<open>What the loops do when the value scan takes text: their length test always holds.\<close>

lemma comma_shorter:
  assumes "shortens scan" "scan s = Inr (u, t)"
  shows "length (after_comma (skip_ws t)) < length s" and "length (tl (skip_ws t)) < length s"
  using shortensD [OF assms] length_skip_ws [of t] length_after_comma [of "skip_ws t"] by simp_all

text \<open>The interface of the scan of nested values: what the loops over a container rely on.\<close>

locale value_scan =
  fixes scan :: "pyval scan"
  assumes shortens_scan: "shortens scan"
begin

lemma scan_items_step:
  "scan_items scan acc s =
    (case scan s of
       Inl x \<Rightarrow> Inl x
     | Inr (v, r) \<Rightarrow>
         if take 1 (skip_ws r) = '']'' then Inr (PList (rev (v # acc)), tl (skip_ws r))
         else if take 1 (skip_ws r) \<noteq> '','' then Inl (DecodeError ''Expecting ',' delimiter'' (skip_ws r))
         else scan_items scan (v # acc) (after_comma (skip_ws r)))"
  by (subst scan_items.simps) (auto simp: Let_def dest: comma_shorter(1) [OF shortens_scan] split: sum.split)

lemma scan_items_shortens: "shortens (scan_items scan acc)"
proof -
  have "length r < length s" if "scan_items scan acc s = Inr (v, r)" for acc s v r
    using that
  proof (induction "length s" arbitrary: acc s rule: less_induct)
    case less
    obtain u t where u: "scan s = Inr (u, t)"
      using less.prems by (auto simp: scan_items_step split: sum.splits)
    note short = comma_shorter [OF shortens_scan u]
    from less.prems u consider "r = tl (skip_ws t)"
      | "scan_items scan (u # acc) (after_comma (skip_ws t)) = Inr (v, r)"
      by (subst (asm) scan_items_step) (auto split: if_splits)
    then show ?case using short less.hyps [OF short(1)] by cases fastforce+
  qed
  then show ?thesis by (simp add: shortens_def)
qed

lemma scan_entry_shortens: "shortens (scan_entry scan)"
proof -
  have "length r < length s" if run: "scan_entry scan s = Inr (x, r)" for s x r
  proof -
    obtain k t where k: "scan_string s [] (tl s) = Inr (k, t)"
      using run by (auto simp: scan_entry_def Let_def split: if_splits sum.splits)
    obtain v where v: "scan (skip_ws (tl (skip_ws t))) = Inr (v, r)"
      using run k by (auto simp: scan_entry_def Let_def split: if_splits sum.splits)
    show ?thesis
      using shortensD [OF shortens_scan v] scan_string_shorter [OF k] length_skip_ws [of t] length_skip_ws [of "tl (skip_ws t)"]
      by simp
  qed
  then show ?thesis by (simp add: shortens_def)
qed

lemma scan_entries_step:
  "scan_entries scan d s =
    (case scan_entry scan s of
       Inl x \<Rightarrow> Inl x
     | Inr ((k, v), r) \<Rightarrow>
         if take 1 (skip_ws r) = ''}'' then Inr (PDict (dict_set k v d), tl (skip_ws r))
         else if take 1 (skip_ws r) \<noteq> '','' then Inl (DecodeError ''Expecting ',' delimiter'' (skip_ws r))
         else scan_entries scan (dict_set k v d) (after_comma (skip_ws r)))"
  by (subst scan_entries.simps)
    (auto simp: Let_def dest: comma_shorter(1) [OF scan_entry_shortens] split: sum.split)

lemma scan_entries_shortens: "shortens (scan_entries scan d)"
proof -
  have "length r < length s" if "scan_entries scan d s = Inr (v, r)" for d s v r
    using that
  proof (induction "length s" arbitrary: d s rule: less_induct)
    case less
    obtain k u t where u: "scan_entry scan s = Inr ((k, u), t)"
      using less.prems by (auto simp: scan_entries_step split: sum.splits)
    note short = comma_shorter [OF scan_entry_shortens u]
    from less.prems u consider "r = tl (skip_ws t)"
      | "scan_entries scan (dict_set k u d) (after_comma (skip_ws t)) = Inr (v, r)"
      by (subst (asm) scan_entries_step) (auto split: if_splits)
    then show ?case using short less.hyps [OF short(1)] by cases fastforce+
  qed
  then show ?thesis by (simp add: shortens_def)
qed

end

lemma scan_value_shortens:
  assumes "\<forall>scan. inner = Some scan \<longrightarrow> shortens scan"
  shows "shortens (scan_value inner)"
proof -
  have "length r < length s" if run: "scan_value inner s = Inr (v, r)" for s v r
  proof -
    consider (quoted) t where "scan_string s [] (tl s) = Inr (t, r)"
      | (array) scan where "inner = Some scan" "scan_array scan (tl s) = Inr (v, r)" "s \<noteq> []"
      | (object) scan where "inner = Some scan" "scan_object scan (tl s) = Inr (v, r)" "s \<noteq> []"
      | (atom) "scan_atom s = Inr (v, r)"
      using run by (cases s) (auto simp: scan_value_def split: if_splits sum.splits option.splits)
    then show ?thesis
    proof cases
      case quoted
      then show ?thesis using scan_string_shorter [of s "[]" "tl s"] by fastforce
    next
      case array
      with assms have "shortens (scan_items scan [])" by (simp add: value_scan.intro value_scan.scan_items_shortens)
      with array show ?thesis using length_skip_ws [of "tl s"]
        by (cases s) (auto simp: scan_array_def Let_def split: if_splits dest!: shortensD)
    next
      case object
      with assms have "shortens (scan_entries scan [])" by (simp add: value_scan.intro value_scan.scan_entries_shortens)
      with object show ?thesis using length_skip_ws [of "tl s"]
        by (cases s) (auto simp: scan_object_def Let_def split: if_splits dest!: shortensD)
    next
      case atom
      then show ?thesis by (rule scan_atom_shorter)
    qed
  qed
  then show ?thesis by (simp add: shortens_def)
qed

lemma scan_once_shortens: "shortens (scan_once n)"
  by (induction n) (simp_all add: scan_value_shortens)

interpretation once: value_scan "scan_once n" for n
  by unfold_locales (rule scan_once_shortens)

end
