(* ===== verification/JsonText.thy ===== *)
theory JsonText
  imports Json
begin

text \<open>
  Values as compact JSON text, the way \<open>json.dumps\<close> prints them with \<open>ensure_ascii=False\<close>
  and no spaces, and the round trip: \<open>json.loads\<close> reads back what is printed.
\<close>

section \<open>Printing\<close>

definition short_escapes :: "(char \<times> char) list" where
  "short_escapes =
     [(CHR 0x22, CHR 0x22), (CHR 0x5C, CHR 0x5C), (CHR 0x08, CHR ''b''), (CHR 0x0C, CHR ''f''),
      (CHR 0x0A, CHR ''n''), (CHR 0x0D, CHR ''r''), (CHR 0x09, CHR ''t'')]"

definition escape_char :: "char \<Rightarrow> string" where
  "escape_char c =
     (case map_of short_escapes c of
        Some e \<Rightarrow> [CHR 0x5C, e]
      | None \<Rightarrow>
          if byte c < 0x20
          then [CHR 0x5C, CHR ''u'', CHR ''0'', CHR ''0'', digit (of_char c div 16), digit (of_char c mod 16)]
          else [c])"

definition quoted :: "string \<Rightarrow> string" where
  "quoted s = CHR 0x22 # concat (map escape_char s) @ [CHR 0x22]"

fun commas :: "string list \<Rightarrow> string" where
  "commas [] = []"
| "commas [x] = x"
| "commas (x # xs) = x @ '','' @ commas xs"

text \<open>Floats and objects have no text here.\<close>

function json_text :: "pyval \<Rightarrow> string" where
  "json_text PNone = ''null''"
| "json_text (PBool b) = (if b then ''true'' else ''false'')"
| "json_text (PInt i) = show_int i"
| "json_text (PStr s) = quoted s"
| "json_text (PList xs) = ''['' @ commas (map json_text xs) @ '']''"
| "json_text (PDict d) = ''{'' @ commas (map (\<lambda>e. quoted (fst e) @ '':'' @ json_text (snd e)) d) @ ''}''"
| "json_text (PFloat x) = []"
| "json_text (PNonFinite s) = []"
| "json_text (PObj a) = []"
  by pat_completeness auto
termination
proof (relation "measure size")
  fix d :: pydict and e
  assume "e \<in> set d"
  then have "size (snd e) < Suc (size_list (size_prod (\<lambda>_. 0) size) d)"
    by (intro le_imp_less_Suc size_list_estimation') (auto simp: size_prod_simp)
  then show "(snd e, PDict d) \<in> measure size" by simp
qed (auto intro: le_imp_less_Suc size_list_estimation')

text \<open>
  The values that are printed in full and read back: no more containers inside each other
  than the recursion limit allows, integers within the digit limit, valid text, and every
  key of a dict once.
\<close>

fun fits :: "nat \<Rightarrow> pyval \<Rightarrow> bool" where
  "fits n PNone = True"
| "fits n (PBool b) = True"
| "fits n (PInt i) = (int (length (show_int \<bar>i\<bar>)) \<le> int_digits_limit)"
| "fits n (PStr s) = valid_utf8 s"
| "fits (Suc n) (PList xs) = list_all (fits n) xs"
| "fits (Suc n) (PDict d) =
     (distinct (map fst d) \<and> list_all (\<lambda>e. valid_utf8 (fst e) \<and> fits n (snd e)) d)"
| "fits _ _ = False"

section \<open>Strings\<close>

lemma short_escapes_table:
  "\<forall>(c, e) \<in> set short_escapes. map_of simple_escapes e = Some c \<and> e \<noteq> CHR ''u'' \<and> map_of short_escapes c = Some e"
  by code_simp

lemma control_table:
  "\<forall>c \<in> set (map char_of [0..<32::nat]).
     map_of hex_digits (digit (of_char c div 16)) = Some (byte c div 16) \<and>
     map_of hex_digits (digit (of_char c mod 16)) = Some (byte c mod 16) \<and>
     map_of hex_digits CHR ''0'' = Some 0 \<and> utf8_encode (byte c) = [c] \<and> \<not> high_surrogate (byte c)"
  by code_simp

lemma control_char: "byte c < 0x20 \<Longrightarrow> c \<in> set (map char_of [0..<32::nat])"
  by (auto simp: byte_def image_iff intro!: bexI [of _ "of_char c"])

lemma scan_escape: "scan_string begun acc (escape_char c @ d # rest) = scan_string begun (c # acc) (d # rest)"
proof (cases "map_of short_escapes c")
  case (Some e)
  then have "(c, e) \<in> set short_escapes" by (rule map_of_SomeD)
  then have "map_of simple_escapes e = Some c" "e \<noteq> CHR ''u''" using short_escapes_table by blast+
  with Some show ?thesis by (simp add: escape_char_def byte_def)
next
  case None
  then have plain: "c \<noteq> CHR 0x22" "c \<noteq> CHR 0x5C" by (auto simp: short_escapes_def)
  show ?thesis
  proof (cases "byte c < 0x20")
    case True
    note row = control_table [rule_format, OF control_char [OF True]]
    have "hex4 ([CHR ''0'', CHR ''0'', digit (of_char c div 16), digit (of_char c mod 16)] @ d # rest) = Some (byte c)"
      using row by (simp add: hex4_def)
    moreover have "\<not> pair_follows (byte c) (d # rest)" using row by (simp add: pair_follows_def)
    ultimately show ?thesis using None True row by (simp add: escape_char_def byte_def)
  next
    case False
    with None plain show ?thesis by (simp add: escape_char_def)
  qed
qed

lemma scan_escaped:
  "scan_string begun acc (concat (map escape_char t) @ CHR 0x22 # rest) = Inr (rev acc @ t, rest)"
proof (induction t arbitrary: acc)
  case (Cons c t)
  obtain d u where du: "concat (map escape_char t) @ CHR 0x22 # rest = d # u"
    by (cases "concat (map escape_char t)") auto
  have "scan_string begun acc (concat (map escape_char (c # t)) @ CHR 0x22 # rest) =
      scan_string begun acc (escape_char c @ d # u)"
    by (simp add: du)
  also have "\<dots> = scan_string begun (c # acc) (d # u)" by (rule scan_escape)
  finally show ?case using Cons [of "c # acc"] by (simp add: du)
qed simp

lemma scan_quoted: "scan_string begun [] (tl (quoted t) @ rest) = Inr (t, rest)"
  using scan_escaped [of begun "[]" t rest] by (simp add: quoted_def)

section \<open>Integers\<close>

lemma takeWhile_digits:
  "\<forall>c \<in> set s. is_digit c \<Longrightarrow> rest = [] \<or> \<not> is_digit (hd rest) \<Longrightarrow> takeWhile is_digit (s @ rest) = s"
  by (cases rest) (simp_all add: takeWhile_append)

lemma show_pos_leading: "0 \<le> n \<Longrightarrow> hd (show_pos n) = CHR ''0'' \<longleftrightarrow> n = 0"
proof (induction n rule: show_pos.induct)
  case (1 n)
  have table: "\<forall>n \<in> {0, 1, 2, 3, 4, 5, 6, 7, 8, 9::int}. digit n = CHR ''0'' \<longleftrightarrow> n = 0" by code_simp
  show ?case
  proof (cases "n < 10")
    case True
    with "1.prems" have "n \<in> {0, 1, 2, 3, 4, 5, 6, 7, 8, 9::int}" by (intro digit_cases)
    with table have "digit n = CHR ''0'' \<longleftrightarrow> n = 0" by blast
    with True show ?thesis by (subst show_pos.simps) simp
  next
    case False
    then have "hd (show_pos n) = hd (show_pos (n div 10))"
      by (subst show_pos.simps) (simp add: show_pos_not_Nil)
    with False "1.IH" show ?thesis by simp
  qed
qed

text \<open>What may follow a value: the end, a comma or a closing bracket.\<close>

definition delimits :: "string \<Rightarrow> bool" where
  "delimits rest \<longleftrightarrow> rest = [] \<or> hd rest \<in> {CHR '','', CHR '']'', CHR ''}''}"

lemma delimits_digit: "delimits rest \<Longrightarrow> rest = [] \<or> \<not> is_digit (hd rest)"
  by (auto simp: delimits_def is_digit_def)

lemma whole_part_show_pos:
  assumes "0 \<le> n" "delimits rest"
  shows "whole_part (show_pos n @ rest) = show_pos n"
proof (cases "n = 0")
  case True
  then have "show_pos n = ''0''" by (simp add: show_pos.simps digit_def)
  then show ?thesis by (simp add: whole_part_def)
next
  case False
  with assms(1) show_pos_leading [of n] show_pos_not_Nil [of n]
  have "take 1 (show_pos n @ rest) \<noteq> ''0''" by (cases "show_pos n") auto
  then show ?thesis
    unfolding whole_part_def
    using takeWhile_digits [OF show_pos_digits [OF assms(1)] delimits_digit [OF assms(2)]] by simp
qed

lemma no_fraction: "delimits rest \<Longrightarrow> scan_fraction rest = (None, rest)"
  by (auto simp: delimits_def scan_fraction_def split: list.split)

lemma no_exponent: "delimits rest \<Longrightarrow> scan_exponent rest = (None, rest)"
  by (auto simp: delimits_def scan_exponent_def Let_def split: list.split)

lemma show_pos_start:
  assumes "0 \<le> n"
  obtains c t where "show_pos n = c # t" "is_digit c" "c \<noteq> CHR ''-''"
  using show_pos_digits [OF assms] show_pos_not_Nil [of n] by (cases "show_pos n") (auto simp: is_digit_def)

lemma scan_number_int:
  assumes "int (length (show_int \<bar>i\<bar>)) \<le> int_digits_limit" "delimits rest"
  shows "scan_number (show_int i @ rest) = Inr (PInt i, rest)"
proof -
  have lit: "int_literal (i < 0) (show_pos \<bar>i\<bar>) = Inr (PInt i)"
    using assms(1) by (auto simp: int_literal_def show_int_def read_dec_show_pos)
  obtain c t where first: "show_pos \<bar>i\<bar> = c # t" "is_digit c" "c \<noteq> CHR ''-''"
    using show_pos_start [of "\<bar>i\<bar>"] by auto
  have shape: "show_int i @ rest = (if i < 0 then ''-'' else []) @ show_pos \<bar>i\<bar> @ rest"
    by (simp add: show_int_def)
  have sign: "(take 1 (show_int i @ rest) = ''-'') \<longleftrightarrow> i < 0" using first by (simp add: shape)
  have unsigned: "(if i < 0 then tl (show_int i @ rest) else show_int i @ rest) = show_pos \<bar>i\<bar> @ rest"
    by (simp add: shape)
  show ?thesis
    unfolding scan_number_def sign unsigned Let_def
    using lit show_pos_not_Nil [of "\<bar>i\<bar>"] assms(2)
    by (simp add: whole_part_show_pos no_fraction no_exponent)
qed

lemma digit_starts: "is_digit c \<Longrightarrow> c \<notin> {CHR 0x22, CHR ''{'', CHR ''['', CHR ''n'', CHR ''t'', CHR ''f'', CHR ''N'', CHR ''I'', CHR ''-''}"
  by (auto simp: is_digit_def)

lemma scan_int:
  assumes "int (length (show_int \<bar>i\<bar>)) \<le> int_digits_limit" "delimits rest"
  shows "scan_once n (show_int i @ rest) = Inr (PInt i, rest)"
proof -
  obtain c t where first: "show_pos \<bar>i\<bar> = c # t" "is_digit c" "c \<noteq> CHR ''-''"
    using show_pos_start [of "\<bar>i\<bar>"] by auto
  have shape: "show_int i @ rest = (if i < 0 then ''-'' else []) @ c # t @ rest"
    using first by (auto simp: show_int_def)
  have "scan_value inner (show_int i @ rest) = scan_number (show_int i @ rest)" for inner
    using digit_starts [OF first(2)] by (simp add: shape scan_value_def scan_atom_def names_def)
  then show ?thesis using scan_number_int [OF assms] by (cases n) simp_all
qed

section \<open>Values\<close>

lemma skip_ws_plain: "s = [] \<or> hd s \<notin> {CHR '' '', CHR 0x09, CHR 0x0A, CHR 0x0D} \<Longrightarrow> skip_ws s = s"
  by (cases s) (auto simp: skip_ws_def)

lemma skip_ws_delimits: "delimits rest \<Longrightarrow> skip_ws rest = rest"
  by (intro skip_ws_plain) (auto simp: delimits_def)

definition starts_value :: "char \<Rightarrow> bool" where
  "starts_value c \<longleftrightarrow> c \<notin> {CHR '' '', CHR 0x09, CHR 0x0A, CHR 0x0D, CHR '']'', CHR ''}''}"

lemma json_text_start:
  assumes "fits n v"
  obtains c t where "json_text v = c # t" "starts_value c"
proof -
  have "\<exists>c t. json_text v = c # t \<and> starts_value c"
  proof (cases v)
    case (PInt i)
    obtain c t where "show_pos \<bar>i\<bar> = c # t" "is_digit c" "c \<noteq> CHR ''-''"
      using show_pos_start [of "\<bar>i\<bar>"] by auto
    then show ?thesis using PInt by (cases "i < 0") (auto simp: show_int_def starts_value_def is_digit_def)
  qed (use assms in \<open>auto simp: starts_value_def quoted_def\<close>)
  then show thesis using that by blast
qed

lemma value_keeps: "fits n v \<Longrightarrow> skip_ws (json_text v @ rest) = json_text v @ rest"
  by (erule json_text_start, intro skip_ws_plain) (simp add: starts_value_def)

text \<open>A scan that reads back every value of a list reads back the list.\<close>

definition reads_back :: "pyval scan \<Rightarrow> pyval \<Rightarrow> bool" where
  "reads_back scan v \<longleftrightarrow> (\<forall>rest. delimits rest \<longrightarrow> scan (json_text v @ rest) = Inr (v, rest))"

context value_scan
begin

lemma scan_items_text:
  "list_all (\<lambda>v. reads_back scan v \<and> (\<exists>n. fits n v)) (x # xs) \<Longrightarrow>
    scan_items scan acc (commas (map json_text (x # xs)) @ '']'' @ rest) = Inr (PList (rev acc @ x # xs), rest)"
proof (induction xs arbitrary: x acc)
  case Nil
  have "scan (json_text x @ '']'' @ rest) = Inr (x, '']'' @ rest)"
    using Nil by (simp add: reads_back_def delimits_def)
  moreover have "skip_ws ('']'' @ rest) = '']'' @ rest" by (simp add: skip_ws_plain)
  ultimately show ?case by (subst scan_items_step) simp
next
  case (Cons y ys)
  let ?more = "commas (map json_text (y # ys)) @ '']'' @ rest"
  have "scan (json_text x @ '','' @ ?more) = Inr (x, '','' @ ?more)"
    using Cons.prems by (simp add: reads_back_def delimits_def)
  moreover have "skip_ws ('','' @ ?more) = '','' @ ?more" by (simp add: skip_ws_plain)
  moreover have "after_comma ('','' @ ?more) = ?more"
  proof -
    obtain n where "fits n y" using Cons.prems by auto
    from value_keeps [OF this] show ?thesis by (cases ys) (simp_all add: after_comma_def)
  qed
  ultimately show ?case
    using Cons by (subst scan_items_step) simp
qed

end

lemma dict_set_new: "k \<notin> fst ` set d \<Longrightarrow> dict_set k v d = d @ [(k, v)]"
  by (induction d) auto

definition entry_text :: "string \<times> pyval \<Rightarrow> string" where
  "entry_text e = quoted (fst e) @ '':'' @ json_text (snd e)"

lemma scan_entry_text:
  assumes "reads_back scan (snd e)" "fits n (snd e)" "delimits rest"
  shows "scan_entry scan (entry_text e @ rest) = Inr (e, rest)"
proof -
  let ?more = "'':'' @ json_text (snd e) @ rest"
  have "scan_string s [] (tl (quoted (fst e)) @ ?more) = Inr (fst e, ?more)" for s by (rule scan_quoted)
  moreover have "tl (entry_text e @ rest) = tl (quoted (fst e)) @ ?more"
    by (simp add: entry_text_def quoted_def)
  moreover have "skip_ws ?more = ?more" by (simp add: skip_ws_plain)
  moreover have "skip_ws (json_text (snd e) @ rest) = json_text (snd e) @ rest" using assms(2) by (rule value_keeps)
  moreover have "take 1 (entry_text e @ rest) = [CHR 0x22]" by (simp add: entry_text_def quoted_def)
  ultimately show ?thesis
    using assms(1,3) by (cases e) (simp add: scan_entry_def reads_back_def)
qed

context value_scan
begin

lemma scan_entries_text:
  "list_all (\<lambda>e. reads_back scan (snd e) \<and> (\<exists>n. fits n (snd e))) (e # es) \<Longrightarrow>
    distinct (map fst (d @ e # es)) \<Longrightarrow>
    scan_entries scan d (commas (map entry_text (e # es)) @ ''}'' @ rest) = Inr (PDict (d @ e # es), rest)"
proof (induction es arbitrary: e d)
  case Nil
  obtain n where "fits n (snd e)" using Nil by auto
  with Nil have "scan_entry scan (entry_text e @ ''}'' @ rest) = Inr (e, ''}'' @ rest)"
    by (intro scan_entry_text) (simp_all add: delimits_def)
  moreover have "skip_ws (''}'' @ rest) = ''}'' @ rest" by (simp add: skip_ws_plain)
  moreover have "dict_set (fst e) (snd e) d = d @ [e]" using Nil by (subst dict_set_new) auto
  ultimately show ?case by (subst scan_entries_step) (auto split: prod.split)
next
  case (Cons y ys)
  let ?more = "commas (map entry_text (y # ys)) @ ''}'' @ rest"
  obtain n where "fits n (snd e)" using Cons.prems by auto
  with Cons.prems have "scan_entry scan (entry_text e @ '','' @ ?more) = Inr (e, '','' @ ?more)"
    by (intro scan_entry_text) (simp_all add: delimits_def)
  moreover have "skip_ws ('','' @ ?more) = '','' @ ?more" by (simp add: skip_ws_plain)
  moreover have "after_comma ('','' @ ?more) = ?more"
    by (cases ys) (simp_all add: after_comma_def skip_ws_plain entry_text_def quoted_def)
  moreover have "dict_set (fst e) (snd e) d = d @ [e]" using Cons.prems by (subst dict_set_new) auto
  ultimately show ?case
    using Cons.prems Cons.IH [of y "d @ [e]"] by (subst scan_entries_step) (auto split: prod.split)
qed

end

lemma scan_once_unfold: "\<exists>inner. scan_once n = scan_value inner"
  by (cases n) auto

lemma reads_back_atom:
  assumes "\<And>rest. scan_atom (json_text v @ rest) = Inr (v, rest)"
    and "hd (json_text v) \<notin> {CHR 0x22, CHR ''{'', CHR ''[''}" and "json_text v \<noteq> []"
  shows "reads_back (scan_once n) v"
proof -
  obtain inner where "scan_once n = scan_value inner" using scan_once_unfold by blast
  with assms show ?thesis by (cases "json_text v") (auto simp: reads_back_def scan_value_def)
qed

lemma reads_back_str: "reads_back (scan_once n) (PStr t)"
proof -
  obtain inner where "scan_once n = scan_value inner" using scan_once_unfold by blast
  moreover have "scan_value inner (quoted t @ rest) = Inr (PStr t, rest)" for rest
  proof -
    have "take 1 (quoted t @ rest) = [CHR 0x22]" "tl (quoted t @ rest) = tl (quoted t) @ rest"
      by (simp_all add: quoted_def)
    then show ?thesis by (simp add: scan_value_def scan_quoted)
  qed
  ultimately show ?thesis by (simp add: reads_back_def)
qed

lemma json_text_list: "json_text (PList xs) @ rest = CHR ''['' # commas (map json_text xs) @ '']'' @ rest"
  by simp

lemma json_text_dict: "json_text (PDict d) @ rest = CHR ''{'' # commas (map entry_text d) @ ''}'' @ rest"
  by (simp add: entry_text_def [abs_def])

lemma commas_start: "x \<noteq> [] \<Longrightarrow> \<exists>t. commas (x # xs) @ rest = hd x # t"
  by (cases x; cases xs) auto

lemma reads_back_list:
  assumes "list_all (\<lambda>v. reads_back (scan_once n) v \<and> fits n v) xs"
  shows "reads_back (scan_once (Suc n)) (PList xs)"
proof -
  have "scan_array (scan_once n) (commas (map json_text xs) @ '']'' @ rest) = Inr (PList xs, rest)" for rest
  proof (cases xs)
    case Nil
    then show ?thesis by (simp add: scan_array_def skip_ws_plain)
  next
    case (Cons x ys)
    let ?s = "commas (map json_text xs) @ '']'' @ rest"
    have "fits n x" using assms Cons by simp
    then obtain c u where c: "json_text x = c # u" "starts_value c" by (rule json_text_start)
    with commas_start [of "json_text x" "map json_text ys" "'']'' @ rest"] Cons obtain t where "?s = c # t" by auto
    with c(2) have "skip_ws ?s = ?s" "take 1 ?s \<noteq> '']''" by (auto simp: starts_value_def skip_ws_plain)
    moreover have "scan_items (scan_once n) [] ?s = Inr (PList xs, rest)"
      using once.scan_items_text [of n x ys "[]" rest] assms Cons by (auto simp: list_all_iff)
    ultimately show ?thesis by (simp add: scan_array_def)
  qed
  then show ?thesis unfolding reads_back_def json_text_list by (simp add: scan_value_def)
qed

lemma reads_back_dict:
  assumes "list_all (\<lambda>e. reads_back (scan_once n) (snd e) \<and> fits n (snd e)) d" and "distinct (map fst d)"
  shows "reads_back (scan_once (Suc n)) (PDict d)"
proof -
  have "scan_object (scan_once n) (commas (map entry_text d) @ ''}'' @ rest) = Inr (PDict d, rest)" for rest
  proof (cases d)
    case Nil
    then show ?thesis by (simp add: scan_object_def skip_ws_plain)
  next
    case (Cons e es)
    let ?s = "commas (map entry_text d) @ ''}'' @ rest"
    have "hd (entry_text e) = CHR 0x22" "entry_text e \<noteq> []" by (simp_all add: entry_text_def quoted_def)
    with commas_start [of "entry_text e" "map entry_text es" "''}'' @ rest"] Cons
    obtain t where "?s = CHR 0x22 # t" by auto
    then have "skip_ws ?s = ?s" "take 1 ?s \<noteq> ''}''" by (auto simp: skip_ws_plain)
    moreover have "scan_entries (scan_once n) [] ?s = Inr (PDict d, rest)"
      using once.scan_entries_text [of n e es "[]" rest] assms Cons by (auto simp: list_all_iff)
    ultimately show ?thesis by (simp add: scan_object_def)
  qed
  then show ?thesis unfolding reads_back_def json_text_dict by (simp add: scan_value_def)
qed

lemma reads_back_int: "int (length (show_int \<bar>i\<bar>)) \<le> int_digits_limit \<Longrightarrow> reads_back (scan_once n) (PInt i)"
  by (simp add: reads_back_def scan_int del: scan_once.simps)

lemma reads_back_names: "reads_back (scan_once n) PNone" "reads_back (scan_once n) (PBool b)"
  by (intro reads_back_atom; simp add: scan_atom_def names_def)+

lemma scan_once_text: "fits n v \<Longrightarrow> reads_back (scan_once n) v"
proof (induction n arbitrary: v)
  case 0
  then show ?case
    by (cases v) (simp_all add: reads_back_str reads_back_int reads_back_names del: scan_once.simps)
next
  case (Suc n)
  show ?case
  proof (cases v)
    case (PList xs)
    with Suc show ?thesis by (auto simp: list_all_iff simp del: scan_once.simps intro!: reads_back_list)
  next
    case (PDict d)
    with Suc show ?thesis by (auto simp: list_all_iff simp del: scan_once.simps intro!: reads_back_dict)
  qed (use Suc.prems in \<open>simp_all add: reads_back_str reads_back_int reads_back_names del: scan_once.simps\<close>)
qed

section \<open>The text of a value is valid text\<close>

lemma utf8_width_bounds: "utf8_width s \<le> length s \<and> utf8_width s \<le> 4"
proof -
  consider "s = []" | a where "s = [a]" | a b where "s = [a, b]" | a b c where "s = [a, b, c]"
    | a b c d t where "s = a # b # c # d # t" by (metis neq_Nil_conv)
  then show ?thesis by cases (simp_all add: utf8_width_def)
qed

lemma utf8_width_append: "utf8_width s \<noteq> 0 \<Longrightarrow> utf8_width (s @ t) = utf8_width s"
proof -
  assume w: "utf8_width s \<noteq> 0"
  consider "s = []" | a where "s = [a]" | a b where "s = [a, b]" | a b c where "s = [a, b, c]"
    | a b c d u where "s = a # b # c # d # u" by (metis neq_Nil_conv)
  then show ?thesis
  proof cases
    case 1
    with w show ?thesis by (simp add: utf8_width_def)
  qed (use w in \<open>cases t; force simp: utf8_width_def split: if_splits\<close>)+
qed

lemma valid_utf8_Nil [simp]: "valid_utf8 []"
  by (subst valid_utf8.simps) simp

lemma valid_utf8_first:
  "s \<noteq> [] \<Longrightarrow> valid_utf8 s \<longleftrightarrow> utf8_width s \<noteq> 0 \<and> valid_utf8 (drop (utf8_width s) s)"
  by (subst valid_utf8.simps) simp

lemma valid_utf8_append: "valid_utf8 s \<Longrightarrow> valid_utf8 (s @ t) \<longleftrightarrow> valid_utf8 t"
proof (induction "length s" arbitrary: s rule: less_induct)
  case less
  show ?case
  proof (cases "s = []")
    case False
    let ?w = "utf8_width s"
    have w: "?w \<noteq> 0" "valid_utf8 (drop ?w s)" using valid_utf8_first [OF False] less.prems by blast+
    have "valid_utf8 (s @ t) \<longleftrightarrow> valid_utf8 (drop ?w (s @ t))"
      using valid_utf8_first [of "s @ t"] False utf8_width_append [OF w(1)] w(1) by simp
    also have "drop ?w (s @ t) = drop ?w s @ t" using utf8_width_bounds [of s] by simp
    also have "valid_utf8 (drop ?w s @ t) \<longleftrightarrow> valid_utf8 t"
      using less.hyps [OF _ w(2)] w(1) False by simp
    finally show ?thesis .
  qed simp
qed

lemma valid_utf8_ascii: "byte c < 0x80 \<Longrightarrow> valid_utf8 (c # s) \<longleftrightarrow> valid_utf8 s"
  using valid_utf8_first [of "c # s"] by (simp add: utf8_width_def)

lemma ascii_table:
  "\<forall>c \<in> set (''0123456789abcdef-,:[]{}u'' @ [CHR 0x22, CHR 0x5C] @ map snd short_escapes @ ''nultrefas''). byte c < 0x80"
  by code_simp

lemma byte_digit: "is_digit c \<Longrightarrow> byte c < 0x80"
  using ascii_table by (auto simp: is_digit_def)

lemma valid_utf8_ascii_list: "\<forall>c \<in> set s. byte c < 0x80 \<Longrightarrow> valid_utf8 s"
  by (induction s) (simp_all add: valid_utf8_ascii)

lemma escape_char_ascii: "byte c < 0x80 \<Longrightarrow> \<forall>x \<in> set (escape_char c). byte x < 0x80"
proof -
  assume c: "byte c < 0x80"
  have table: "\<forall>c \<in> set (map char_of [0..<32::nat]).
      byte (digit (of_char c div 16)) < 0x80 \<and> byte (digit (of_char c mod 16)) < 0x80" by code_simp
  have digits: "byte (digit (of_char c div 16)) < 0x80 \<and> byte (digit (of_char c mod 16)) < 0x80" if "byte c < 0x20"
    using table [rule_format, OF control_char [OF that]] .
  show ?thesis
  proof (cases "map_of short_escapes c")
    case None
    with c digits ascii_table show ?thesis by (auto simp: escape_char_def)
  next
    case (Some e)
    then have "e \<in> snd ` set short_escapes" using map_of_SomeD by force
    with Some ascii_table show ?thesis by (auto simp: escape_char_def)
  qed
qed

lemma escape_char_other: "\<not> byte c < 0x80 \<Longrightarrow> escape_char c = [c]"
proof -
  assume c: "\<not> byte c < 0x80"
  have "\<forall>x \<in> fst ` set short_escapes. byte x < 0x80" by code_simp
  with c have "map_of short_escapes c = None" by (auto simp: map_of_eq_None_iff)
  with c show ?thesis by (simp add: escape_char_def)
qed

lemma utf8_width_multi:
  assumes "utf8_width s \<noteq> 0" "utf8_width s \<noteq> 1"
  shows "\<forall>c \<in> set (take (utf8_width s) s). \<not> byte c < 0x80"
proof -
  consider "s = []" | a where "s = [a]" | a b where "s = [a, b]" | a b c where "s = [a, b, c]"
    | a b c d u where "s = a # b # c # d # u" by (metis neq_Nil_conv)
  then show ?thesis by cases (use assms in \<open>auto simp: utf8_width_def continuation_def split: if_splits\<close>)
qed

lemma utf8_width_take: "utf8_width s \<noteq> 0 \<Longrightarrow> utf8_width (take (utf8_width s) s) = utf8_width s"
proof -
  assume w: "utf8_width s \<noteq> 0"
  consider "s = []" | a where "s = [a]" | a b where "s = [a, b]" | a b c where "s = [a, b, c]"
    | a b c d u where "s = a # b # c # d # u" by (metis neq_Nil_conv)
  then show ?thesis by cases (use w in \<open>auto simp: utf8_width_def split: if_splits\<close>)
qed

lemma valid_utf8_take: "utf8_width s \<noteq> 0 \<Longrightarrow> valid_utf8 (take (utf8_width s) s)"
  using valid_utf8_first [of "take (utf8_width s) s"] utf8_width_take [of s] utf8_width_bounds [of s]
  by (cases "s = []") auto

lemma utf8_width_one: "utf8_width s = 1 \<Longrightarrow> \<exists>c t. s = c # t \<and> byte c < 0x80"
  by (cases s) (auto simp: utf8_width_def split: if_splits)

lemma valid_utf8_escaped: "valid_utf8 s \<Longrightarrow> valid_utf8 (concat (map escape_char s))"
proof (induction "length s" arbitrary: s rule: less_induct)
  case less
  show ?case
  proof (cases "s = []")
    case False
    let ?w = "utf8_width s"
    have w: "?w \<noteq> 0" "valid_utf8 (drop ?w s)" using valid_utf8_first [OF False] less.prems by blast+
    have rest: "valid_utf8 (concat (map escape_char (drop ?w s)))" using less.hyps [OF _ w(2)] w(1) False by simp
    show ?thesis
    proof (cases "?w = 1")
      case True
      then obtain c t where c: "s = c # t" "byte c < 0x80" using utf8_width_one by blast
      with True rest have "valid_utf8 (concat (map escape_char t))" by simp
      with c show ?thesis
        using valid_utf8_append [OF valid_utf8_ascii_list [OF escape_char_ascii [OF c(2)]]] by simp
    next
      case False
      then have "map escape_char (take ?w s) = map (\<lambda>c. [c]) (take ?w s)"
        using utf8_width_multi [OF w(1)] escape_char_other by auto
      then have "concat (map escape_char s) = take ?w s @ concat (map escape_char (drop ?w s))"
      proof -
        have "concat (map escape_char s) =
            concat (map escape_char (take ?w s)) @ concat (map escape_char (drop ?w s))"
          by (simp flip: concat_append map_append)
        then show ?thesis
          unfolding \<open>map escape_char (take ?w s) = map (\<lambda>c. [c]) (take ?w s)\<close> by simp
      qed
      then show ?thesis using rest valid_utf8_append [OF valid_utf8_take [OF w(1)]] by simp
    qed
  qed simp
qed

lemma valid_utf8_quoted: "valid_utf8 s \<Longrightarrow> valid_utf8 (quoted s)"
proof -
  assume "valid_utf8 s"
  then have "valid_utf8 (concat (map escape_char s))" by (rule valid_utf8_escaped)
  moreover have "byte CHR 0x22 < 0x80" by code_simp
  ultimately show ?thesis by (simp add: quoted_def valid_utf8_ascii valid_utf8_append)
qed

lemma valid_utf8_commas: "\<forall>x \<in> set xs. valid_utf8 x \<Longrightarrow> valid_utf8 (commas xs)"
proof (induction xs rule: commas.induct)
  case (3 x y ys)
  moreover have "byte CHR '','' < 0x80" by code_simp
  ultimately show ?case by (simp add: valid_utf8_append valid_utf8_ascii)
qed simp_all

lemma valid_utf8_enclosed:
  "byte a < 0x80 \<Longrightarrow> byte b < 0x80 \<Longrightarrow> valid_utf8 s \<Longrightarrow> valid_utf8 (a # s @ [b])"
  by (simp add: valid_utf8_ascii valid_utf8_append)

lemma valid_utf8_show_int: "valid_utf8 (show_int i)"
proof (rule valid_utf8_ascii_list, intro ballI)
  fix c
  assume "c \<in> set (show_int i)"
  moreover have "byte CHR ''-'' < 0x80" by code_simp
  ultimately show "byte c < 0x80" using show_int_chars byte_digit by blast
qed

lemma valid_utf8_json_text: "fits n v \<Longrightarrow> valid_utf8 (json_text v)"
proof (induction n v rule: fits.induct)
  case (5 n xs)
  then have "valid_utf8 (commas (map json_text xs))" by (intro valid_utf8_commas) (auto simp: list_all_iff)
  moreover have "byte CHR ''['' < 0x80" "byte CHR '']'' < 0x80" by code_simp+
  ultimately show ?case using valid_utf8_enclosed by simp
next
  case (6 n d)
  have colon: "byte CHR '':'' < 0x80" "byte CHR ''{'' < 0x80" "byte CHR ''}'' < 0x80" by code_simp+
  have "valid_utf8 (entry_text e)" if "e \<in> set d" for e
    using "6" that colon(1) by (auto simp: list_all_iff entry_text_def valid_utf8_append valid_utf8_quoted valid_utf8_ascii)
  then have "valid_utf8 (commas (map entry_text d))" by (intro valid_utf8_commas) auto
  then show ?case using valid_utf8_enclosed [OF colon(2,3)] json_text_dict [of d "[]"] by simp
next
  case (1 n)
  have "valid_utf8 ''null''" by code_simp
  then show ?case by simp
next
  case (2 n b)
  have "valid_utf8 ''true''" "valid_utf8 ''false''" by code_simp+
  then show ?case by simp
qed (auto intro: valid_utf8_quoted valid_utf8_show_int)

section \<open>The round trip\<close>

lemma decode_json_text:
  assumes "fits n (PDict d)"
  shows "decode_payload (json_text (PDict d)) = Inr (json_text (PDict d))"
proof -
  have "\<exists>c t. json_text (PDict d) = CHR ''{'' # c # t \<and> c \<in> {CHR 0x22, CHR ''}''}"
  proof (cases d)
    case Nil
    then show ?thesis by simp
  next
    case (Cons e es)
    then show ?thesis
      using commas_start [of "entry_text e" "map entry_text es" "''}''"] json_text_dict [of d "[]"]
      by (auto simp: entry_text_def quoted_def)
  qed
  then obtain c t where "json_text (PDict d) = CHR ''{'' # c # t" "c \<in> {CHR 0x22, CHR ''}''}" by blast
  then show ?thesis
    using valid_utf8_json_text [OF assms] by (auto simp: decode_payload_def zero_at_def decode_utf8_def)
qed

lemma json_loads_text: "fits n (PDict d) \<Longrightarrow> json_loads n (json_text (PDict d)) = Inr (PDict d)"
  using decode_json_text [of n d] scan_once_text [of n "PDict d"] value_keeps [of n "PDict d" "[]"]
  by (simp add: json_loads_def reads_back_def delimits_def skip_ws_plain del: json_text.simps)

end
