(* ===== verification/Receiver.thy ===== *)
theory Receiver
  imports Worker JsonText
begin

text \<open>
  \<open>stripe_client.py\<close>, \<open>server.py\<close> and \<open>session_scope\<close> of \<open>db.py\<close>: the check of a
  webhook's signature, the idempotent insert of the event, and the response. One function
  is a parameter: \<open>construct_event\<close> is \<open>stripe.Webhook.construct_event\<close>, whose result the
  program drops. \<open>room\<close> is how many JSON containers the interpreter's recursion limit lets
  be open at once.
\<close>

type_synonym verifier = "string \<Rightarrow> string \<Rightarrow> string \<Rightarrow> exn + unit"

section \<open>stripe_client.py\<close>

fun construct_failure :: "exn \<Rightarrow> exn" where
  "construct_failure (SignatureVerificationError m) = InvalidWebhookSignature m"
| "construct_failure (ValueError v) =
     InvalidWebhookSignature (''Malformed webhook payload: '' @ exn_str (ValueError v))"
| "construct_failure e = e"

fun parse_failure :: "exn \<Rightarrow> exn" where
  "parse_failure (ValueError (JSONDecodeError m)) =
     InvalidWebhookSignature (''Malformed webhook payload: '' @ m)"
| "parse_failure e = e"

definition verify_and_parse_event ::
  "verifier \<Rightarrow> nat \<Rightarrow> string \<Rightarrow> string option \<Rightarrow> string \<Rightarrow> exn + pydict" where
  "verify_and_parse_event construct_event room raw_body header webhook_secret =
     (case (case header of None \<Rightarrow> [] | Some h \<Rightarrow> h) of
        [] \<Rightarrow> Inl (InvalidWebhookSignature ''Missing Stripe-Signature header.'')
      | c # cs \<Rightarrow>
          try_bind (map_error construct_failure (construct_event raw_body (c # cs) webhook_secret)) (\<lambda>_.
          try_bind (map_error parse_failure (json_loads room raw_body)) (\<lambda>result.
            case result of
              PDict event \<Rightarrow> Inr event
            | _ \<Rightarrow> Inl (InvalidWebhookSignature ''Webhook payload is not a JSON object.''))))"

section \<open>session_scope\<close>

text \<open>
  The body works on a copy of the committed database, which replaces it when the body
  ends normally and is dropped when it raises.
\<close>

definition session_scope :: "(db \<Rightarrow> (exn + 'a) \<times> db) \<Rightarrow> (exn, 'm world, 'a) act" where
  "session_scope body w =
     (case body (committed w) of
        (Inl exc, _) \<Rightarrow> (Inl exc, w)
      | (Inr x, d) \<Rightarrow> (Inr x, w\<lparr>committed := d\<rparr>))"

section \<open>server.py\<close>

text \<open>
  One request: its body and signature header, the recursion room while it is parsed,
  \<open>NOW()\<close> of the insert's transaction, and what the database raises on the statement or at the commit, if it fails.
\<close>

record webhook_request =
  raw_body :: string
  signature_header :: "string option"
  stack_room :: nat
  received_now :: datetime
  db_failure :: "exn option"

record json_response =
  status_code :: int
  content :: pydict

definition server_require_str :: "pyval \<Rightarrow> string \<Rightarrow> exn + string" where
  "server_require_str value field_name =
     (case nonempty_str value of
        None \<Rightarrow> Inl (HTTPException 400 (''Stripe event missing required field `'' @ field_name @ ''`.''))
      | Some s \<Rightarrow> Inr s)"

text \<open>The row of the \<open>INSERT\<close>, with the server defaults of \<open>models.py\<close>.\<close>

definition new_event_row :: "datetime \<Rightarrow> string \<Rightarrow> string \<Rightarrow> pydict \<Rightarrow> webhook_event" where
  "new_event_row now event_id ev_type event =
     \<lparr>stripe_event_id = event_id, event_type = ev_type, payload = event, status = STATUS_PENDING,
      attempts = 0, last_error = None, received_at = now, next_attempt_at = now, processed_at = None\<rparr>"

definition persist_event ::
  "webhook_request \<Rightarrow> string \<Rightarrow> string \<Rightarrow> pydict \<Rightarrow> (exn, 'm world, bool) act" where
  "persist_event req event_id ev_type event =
     session_scope (\<lambda>d.
       case db_failure req of
         Some exc \<Rightarrow> (Inl exc, d)
       | None \<Rightarrow>
           (case insert_event_or_nothing (new_event_row (received_now req) event_id ev_type event) d of
              (inserted, d') \<Rightarrow> (Inr inserted, d')))"

text \<open>The \<open>except InvalidWebhookSignature\<close> clause of the route.\<close>

fun reject_webhook :: "exn \<Rightarrow> (exn, 'm world, 'a) act" where
  "reject_webhook (InvalidWebhookSignature m) =
     bnd (modifies (world_log WARNING ''webhook_rejected''
            [(''event'', PStr ''webhook_rejected''), (''reason'', PStr ''invalid_signature''),
             (''detail'', PStr m)])) (\<lambda>_.
     raising (HTTPException 400 ''Invalid Stripe webhook signature.''))"
| "reject_webhook exc = raising exc"

definition stripe_webhook ::
  "verifier \<Rightarrow> settings \<Rightarrow> webhook_request \<Rightarrow> (exn, 'm world, json_response) act" where
  "stripe_webhook construct_event cfg req =
     try_except_else
       (lift (verify_and_parse_event construct_event (stack_room req) (raw_body req) (signature_header req)
          (stripe_webhook_secret cfg)))
       reject_webhook
       (\<lambda>event.
         bnd (lift (server_require_str (dict_get event ''id'') ''id'')) (\<lambda>event_id.
         bnd (lift (server_require_str (dict_get event ''type'') ''type'')) (\<lambda>ev_type.
         bnd (persist_event req event_id ev_type event) (\<lambda>inserted.
         bnd (modifies (world_log INFO ''webhook_received''
                [(''event'', PStr ''webhook_received''), (''stripe_event_id'', PStr event_id),
                 (''type'', PStr ev_type), (''persisted'', PBool inserted)])) (\<lambda>_.
         ret \<lparr>status_code = 200,
              content = [(''received'', PBool True), (''stripe_event_id'', PStr event_id)]\<rparr>)))))"

text \<open>\<open>GET /health\<close> touches nothing.\<close>

definition health :: "(exn, 'm world, pydict) act" where
  "health = ret [(''status'', PStr ''ok'')]"

text \<open>
  \<open>create_app\<close>: the two routes of the application; the pages that describe the API are
  switched off. \<open>answer\<close> is a request to it: the framework finds the route by method and
  path, and answers what matches none (\<open>unmatched\<close>).
\<close>

datatype endpoint = HealthEndpoint | StripeWebhookEndpoint

record app =
  app_title :: string
  app_version :: string
  docs_url :: "string option"
  redoc_url :: "string option"
  openapi_url :: "string option"
  routes :: "((string \<times> string) \<times> endpoint) list"

definition create_app :: app where
  "create_app =
     \<lparr>app_title = ''Stripe '' @ right_arrow @ '' Metronome Sidecar'', app_version = ''0.1.0'',
      docs_url = None, redoc_url = None, openapi_url = None,
      routes = [((''GET'', ''/health''), HealthEndpoint), ((''POST'', ''/webhooks/stripe''), StripeWebhookEndpoint)]\<rparr>"

definition answer ::
  "verifier \<Rightarrow> settings \<Rightarrow> (exn + json_response) \<Rightarrow> app \<Rightarrow> string \<times> string \<Rightarrow> webhook_request \<Rightarrow>
     (exn, 'm world, json_response) act" where
  "answer construct_event cfg unmatched application target req =
     (case map_of (routes application) target of
        None \<Rightarrow> lift unmatched
      | Some HealthEndpoint \<Rightarrow> bnd health (\<lambda>body. ret \<lparr>status_code = 200, content = body\<rparr>)
      | Some StripeWebhookEndpoint \<Rightarrow> stripe_webhook construct_event cfg req)"

lemma only_the_webhook_writes:
  assumes "answer construct_event cfg unmatched create_app target req w = (r, w')" and "w' \<noteq> w"
  shows "target = (''POST'', ''/webhooks/stripe'')"
  using assms by (auto simp: answer_def create_app_def health_def act_simps split: if_splits)

text \<open>
  The status code the client sees. The framework answers an \<open>HTTPException\<close> with its
  code and any other exception with 500.
\<close>

fun response_code :: "exn + json_response \<Rightarrow> int" where
  "response_code (Inr r) = status_code r"
| "response_code (Inl (HTTPException c _)) = c"
| "response_code (Inl _) = 500"

section \<open>The pieces, on their outcomes\<close>

lemma verify_Inr:
  "verify_and_parse_event construct_event room body header secret = Inr event \<longleftrightarrow>
     (\<exists>h. header = Some h \<and> h \<noteq> [] \<and> construct_event body h secret = Inr () \<and>
        json_loads room body = Inr (PDict event))"
proof -
  have dict: "(case x of PDict d \<Rightarrow> Inr d | _ \<Rightarrow> Inl e) = Inr event \<longleftrightarrow> x = PDict event"
    for x and e :: exn by (cases x) auto
  show ?thesis
    by (auto simp: verify_and_parse_event_def result_iffs dict neq_Nil_conv split: option.splits list.splits)
qed

lemma world_log_simps [simp]:
  "committed (world_log l m x w) = committed w" "server (world_log l m x w) = server w"
  "all_calls (world_log l m x w) = all_calls w"
  by (simp_all add: world_log_def)

lemma reject_webhook_frame:
  "reject_webhook exc w = (r, w') \<Longrightarrow>
     (\<exists>x. r = Inl x) \<and> committed w' = committed w \<and> server w' = server w \<and> all_calls w' = all_calls w"
  by (cases exc) (auto simp: act_simps)

lemma persist_event_Inr:
  "persist_event req i ty event w = (Inr inserted, w') \<longleftrightarrow>
     db_failure req = None \<and>
     (\<exists>d. insert_event_or_nothing (new_event_row (received_now req) i ty event) (committed w) = (inserted, d) \<and>
        w' = w\<lparr>committed := d\<rparr>)"
  by (auto simp: persist_event_def session_scope_def split: option.splits prod.splits)

lemma persist_event_Inl: "persist_event req i ty event w = (Inl exc, w') \<Longrightarrow> w' = w"
  by (auto simp: persist_event_def session_scope_def split: option.splits prod.splits)

lemma server_require_str_Inr [simp]: "server_require_str v f = Inr s \<longleftrightarrow> v = PStr s \<and> s \<noteq> []"
  by (auto simp: server_require_str_def nonempty_str_None split: option.splits)

lemma webhook_Inr:
  "stripe_webhook construct_event cfg req w = (Inr resp, w') \<longleftrightarrow>
     (\<exists>event i ty inserted d.
        verify_and_parse_event construct_event (stack_room req) (raw_body req) (signature_header req)
          (stripe_webhook_secret cfg) = Inr event \<and>
        dict_get event ''id'' = PStr i \<and> i \<noteq> [] \<and> dict_get event ''type'' = PStr ty \<and> ty \<noteq> [] \<and>
        db_failure req = None \<and>
        insert_event_or_nothing (new_event_row (received_now req) i ty event) (committed w) = (inserted, d) \<and>
        resp = \<lparr>status_code = 200, content = [(''received'', PBool True), (''stripe_event_id'', PStr i)]\<rparr> \<and>
        w' = world_log INFO ''webhook_received''
               [(''event'', PStr ''webhook_received''), (''stripe_event_id'', PStr i), (''type'', PStr ty),
                (''persisted'', PBool inserted)] (w\<lparr>committed := d\<rparr>))"
  using reject_webhook_frame [of _ w]
  by (auto simp: stripe_webhook_def try_except_else_def lift_def bnd_eq_Inr persist_event_Inr modifies_def ret_def
      split: sum.splits)

lemma webhook_Inl:
  "stripe_webhook construct_event cfg req w = (Inl exc, w') \<Longrightarrow>
     committed w' = committed w \<and> server w' = server w \<and> all_calls w' = all_calls w"
  using reject_webhook_frame [of _ w "Inl exc" w']
  by (auto simp: stripe_webhook_def try_except_else_def lift_def bnd_eq_Inl modifies_def ret_def
      split: sum.splits dest: persist_event_Inl)

lemma insert_event_cases:
  assumes "insert_event_or_nothing row d = (inserted, d')"
  shows "if event_row (stripe_event_id row) d = None
    then inserted \<and> event_row (stripe_event_id row) d' = Some row \<and>
      webhook_events d' = webhook_events d @ [row] \<and>
      (\<forall>k. k \<noteq> stripe_event_id row \<longrightarrow> event_row k d' = event_row k d) \<and>
      customer_mappings d' = customer_mappings d \<and> subscription_mappings d' = subscription_mappings d
    else \<not> inserted \<and> d' = d"
  using assms events.lookup_None_iff [of "stripe_event_id row" d]
  by (auto simp: insert_event_or_nothing_def event_row_def find_append split: if_splits option.splits)

section \<open>Properties\<close>

text \<open>Only verified events pass. \<open>verify_and_parse_event\<close> returns an event exactly when
  there is a non-empty signature header, \<open>construct_event\<close> accepts these bytes with this
  header and secret, and the same bytes are a JSON object, which is the event returned.\<close>

lemma verified_events:
  "verify_and_parse_event construct_event room body header secret = Inr event \<longleftrightarrow>
     (\<exists>h. header = Some h \<and> h \<noteq> [] \<and> construct_event body h secret = Inr () \<and>
        json_loads room body = Inr (PDict event))"
  by (rule verify_Inr)

text \<open>C11: what the receiver answers and what it stores. A 200 means that the verified event has
  a row: a new one, pending, due now and never attempted, if its id was unknown, and then
  every other row is as it was; otherwise the database is unchanged. Any other answer
  leaves the database unchanged. The receiver never calls Metronome.\<close>

theorem receiver_stores_before_answering:
  assumes "stripe_webhook construct_event cfg req w = (r, w')"
  shows "server w' = server w \<and> all_calls w' = all_calls w \<and>
    (case r of
       Inl exc \<Rightarrow> committed w' = committed w
     | Inr resp \<Rightarrow> status_code resp = 200 \<and>
         (\<exists>event i ty.
            verify_and_parse_event construct_event (stack_room req) (raw_body req) (signature_header req)
              (stripe_webhook_secret cfg) = Inr event \<and>
            dict_get event ''id'' = PStr i \<and> i \<noteq> [] \<and> dict_get event ''type'' = PStr ty \<and> ty \<noteq> [] \<and>
            (if event_row i (committed w) = None
             then event_row i (committed w') = Some (new_event_row (received_now req) i ty event) \<and>
               (\<forall>k. k \<noteq> i \<longrightarrow> event_row k (committed w') = event_row k (committed w)) \<and>
               customer_mappings (committed w') = customer_mappings (committed w) \<and>
               subscription_mappings (committed w') = subscription_mappings (committed w)
             else committed w' = committed w)))"
proof (cases r)
  case (Inl exc)
  with assms show ?thesis using webhook_Inl by fastforce
next
  case (Inr resp)
  with assms obtain event i ty inserted d where ev:
    "verify_and_parse_event construct_event (stack_room req) (raw_body req) (signature_header req)
       (stripe_webhook_secret cfg) = Inr event"
    "dict_get event ''id'' = PStr i" "i \<noteq> []" "dict_get event ''type'' = PStr ty" "ty \<noteq> []"
    and ins: "insert_event_or_nothing (new_event_row (received_now req) i ty event) (committed w) = (inserted, d)"
    and out: "status_code resp = 200" "committed w' = d" "server w' = server w" "all_calls w' = all_calls w"
    by (auto simp: webhook_Inr)
  have "stripe_event_id (new_event_row (received_now req) i ty event) = i" by (simp add: new_event_row_def)
  with insert_event_cases [OF ins] ev out Inr show ?thesis
    by (simp split: if_splits)
qed

text \<open>C12: a redelivery is harmless. Once an event was answered with a 200, a later request whose
  verified event has the same id is answered with the same 200 and changes no row, whatever
  the rest of its body and however the worker has moved the row on meanwhile, as long as the
  row is still there.\<close>

theorem redelivery_is_idempotent:
  assumes "stripe_webhook construct_event cfg req w = (Inr resp, w1)"
    and "verify_and_parse_event construct_event (stack_room req) (raw_body req) (signature_header req)
      (stripe_webhook_secret cfg) = Inr event"
    and "dict_get event ''id'' = PStr i"
    and "event_row i (committed u) \<noteq> None"
    and "verify_and_parse_event construct_event (stack_room req') (raw_body req') (signature_header req')
      (stripe_webhook_secret cfg) = Inr event'"
    and "dict_get event' ''id'' = PStr i" and "dict_get event' ''type'' = PStr ty" and "ty \<noteq> []"
    and "db_failure req' = None"
  shows "\<exists>u'. stripe_webhook construct_event cfg req' u = (Inr resp, u') \<and> committed u' = committed u"
proof -
  let ?row = "new_event_row (received_now req') i ty event'"
  have i: "i \<noteq> []" "content resp = [(''received'', PBool True), (''stripe_event_id'', PStr i)]" "status_code resp = 200"
    using assms(1-3) by (auto simp: webhook_Inr)
  obtain inserted d where ins: "insert_event_or_nothing ?row (committed u) = (inserted, d)"
    by (cases "insert_event_or_nothing ?row (committed u)")
  have "stripe_event_id ?row = i" by (simp add: new_event_row_def)
  with insert_event_cases [OF ins] assms(4) have "\<not> inserted" "d = committed u" by auto
  then show ?thesis using assms(5-9) i ins by (auto simp: webhook_Inr)
qed

text \<open>C26: a forged request is refused. Without a signature header, or when \<open>construct_event\<close>
  finds the signature wrong or the body malformed, the answer is a 400, the database is
  unchanged and exactly one warning is logged.\<close>

theorem forged_request_is_refused:
  assumes "signature_header req = None \<or> signature_header req = Some [] \<or>
    (\<exists>h exc. signature_header req = Some h \<and>
       construct_event (raw_body req) h (stripe_webhook_secret cfg) = Inl exc \<and>
       ((\<exists>m. exc = SignatureVerificationError m) \<or> (\<exists>v. exc = ValueError v)))"
  shows "\<exists>exc w' line. stripe_webhook construct_event cfg req w = (Inl exc, w') \<and>
    response_code (Inl exc) = 400 \<and> committed w' = committed w \<and>
    all_log w' = all_log w @ [line] \<and> log_record_level line = WARNING"
proof -
  have "\<exists>m. verify_and_parse_event construct_event (stack_room req) (raw_body req) (signature_header req)
      (stripe_webhook_secret cfg) = Inl (InvalidWebhookSignature m)"
    using assms by (auto simp: verify_and_parse_event_def split: list.split)
  then show ?thesis
    by (auto simp: stripe_webhook_def try_except_else_def act_simps world_log_def)
qed

definition sample_verifier :: verifier where
  "sample_verifier body h secret =
     (if h = ''good'' then Inr () else Inl (SignatureVerificationError ''No signatures found''))"

definition sample_payload :: pydict where
  "sample_payload = [(''id'', PStr ''evt_1''), (''type'', PStr ''customer.created'')] @ event_of sample_customer"

definition sample_request :: webhook_request where
  "sample_request =
     \<lparr>raw_body = json_text (PDict sample_payload), signature_header = Some ''good'', stack_room = 9,
      received_now = 7, db_failure = None\<rparr>"

definition idle_world :: "unit world" where
  "idle_world = \<lparr>committed = empty_db, server = (), all_calls = [], all_log = []\<rparr>"

definition sample_answer :: "(exn + json_response) \<times> unit world" where
  "sample_answer = stripe_webhook sample_verifier sample_settings sample_request idle_world"

lemma sample_answer_ok:
  "fst sample_answer = Inr \<lparr>status_code = 200, content = [(''received'', PBool True), (''stripe_event_id'', PStr ''evt_1'')]\<rparr>"
  "event_row ''evt_1'' (committed (snd sample_answer)) \<noteq> None"
  by code_simp+

lemma sample_verified:
  "verify_and_parse_event sample_verifier (stack_room sample_request) (raw_body sample_request) (signature_header sample_request)
     (stripe_webhook_secret sample_settings) =
   Inr sample_payload"
proof -
  have "fits 9 (PDict sample_payload)" by code_simp
  from json_loads_text [OF this] show ?thesis
    by (simp add: verify_Inr sample_request_def sample_verifier_def)
qed

lemma receiver_stores_before_answering_witness:
  "\<exists>row. event_row ''evt_1'' (committed (snd sample_answer)) = Some row \<and> status row = STATUS_PENDING"
proof -
  have "stripe_webhook sample_verifier sample_settings sample_request idle_world =
      (fst sample_answer, snd sample_answer)"
    by (simp add: sample_answer_def)
  from receiver_stores_before_answering [OF this] show ?thesis
    by (auto simp: sample_answer_ok sample_verified idle_world_def empty_db_def event_row_def new_event_row_def sample_payload_def)
qed

lemma redelivery_is_idempotent_witness:
  "committed (snd (stripe_webhook sample_verifier sample_settings sample_request (snd sample_answer))) =
     committed (snd sample_answer)"
proof -
  have "stripe_webhook sample_verifier sample_settings sample_request idle_world =
      (Inr \<lparr>status_code = 200, content = [(''received'', PBool True), (''stripe_event_id'', PStr ''evt_1'')]\<rparr>,
       snd sample_answer)"
    using sample_answer_ok(1) by (simp add: sample_answer_def prod_eq_iff)
  from redelivery_is_idempotent [OF this sample_verified _ sample_answer_ok(2) sample_verified, of "''customer.created''"]
  show ?thesis by (fastforce simp: sample_request_def sample_payload_def)
qed

lemma forged_request_is_refused_witness:
  "\<exists>exc. fst (stripe_webhook sample_verifier sample_settings
     (sample_request\<lparr>signature_header := Some ''bad''\<rparr>) idle_world) = Inl exc \<and> response_code (Inl exc) = 400"
proof -
  have "\<exists>exc w' line. stripe_webhook sample_verifier sample_settings
      (sample_request\<lparr>signature_header := Some ''bad''\<rparr>) idle_world = (Inl exc, w') \<and>
    response_code (Inl exc) = 400 \<and> committed w' = committed idle_world \<and>
    all_log w' = all_log idle_world @ [line] \<and> log_record_level line = WARNING"
    by (rule forged_request_is_refused) (simp add: sample_verifier_def)
  then show ?thesis by auto
qed

text \<open>C13: what Stripe signs is what is stored. For an event with an id and a type, printed as
  compact JSON within the interpreter's limits and signed, the receiver answers 200, and if
  the id is new its row holds exactly this event.\<close>

theorem signed_event_is_stored:
  assumes "fits (stack_room req) (PDict event)" and "raw_body req = json_text (PDict event)"
    and "signature_header req = Some h" and "h \<noteq> []"
    and "construct_event (raw_body req) h (stripe_webhook_secret cfg) = Inr ()"
    and "dict_get event ''id'' = PStr i" and "i \<noteq> []" and "dict_get event ''type'' = PStr ty" and "ty \<noteq> []"
    and "db_failure req = None" and "event_row i (committed w) = None"
  shows "\<exists>resp w'. stripe_webhook construct_event cfg req w = (Inr resp, w') \<and> status_code resp = 200 \<and>
    event_row i (committed w') = Some (new_event_row (received_now req) i ty event)"
proof -
  have verified: "verify_and_parse_event construct_event (stack_room req) (raw_body req) (signature_header req)
      (stripe_webhook_secret cfg) = Inr event"
    using assms(2-5) json_loads_text [OF assms(1)] by (simp add: verify_Inr)
  obtain inserted d where ins:
    "insert_event_or_nothing (new_event_row (received_now req) i ty event) (committed w) = (inserted, d)" by fastforce
  with verified assms(6-10) have "\<exists>resp w'. stripe_webhook construct_event cfg req w = (Inr resp, w') \<and>
      status_code resp = 200 \<and> committed w' = d"
    by (auto simp: webhook_Inr)
  with insert_event_cases [OF ins] assms(11) show ?thesis by (auto simp: new_event_row_def)
qed

lemma signed_event_is_stored_witness:
  "\<exists>w'. event_row ''evt_1'' (committed w') = Some (new_event_row 7 ''evt_1'' ''customer.created'' sample_payload) \<and>
     (\<exists>resp. stripe_webhook sample_verifier sample_settings sample_request idle_world = (Inr resp, w'))"
proof -
  have "fits (stack_room sample_request) (PDict sample_payload)" by code_simp
  from signed_event_is_stored [OF this, of "''good''" sample_verifier sample_settings "''evt_1''" "''customer.created''" idle_world]
  show ?thesis
    by (auto simp: sample_request_def sample_verifier_def sample_payload_def idle_world_def empty_db_def event_row_def)
qed

end
