(* ===== verification/Process.thy ===== *)
theory Process
  imports Receiver "HOL-Library.AList"
begin

text \<open>
  The processes the program runs in: the settings singleton of \<open>config\<close>, the engine and
  session factory singletons of \<open>db.py\<close>, the logging configuration of \<open>logging.py\<close>, and the
  entry points of the worker and of the receiver that set them up and tear them down. Library
  calls are parameters: \<open>bad_url\<close> is the exception \<open>create_async_engine\<close> raises for a database
  URL, if any, \<open>close_failure\<close> and \<open>dispose_failure\<close> are what closing the client and the pool
  raise, and \<open>super_add_fields\<close> is the method of the JSON formatter's base class.
\<close>

section \<open>State of a process\<close>

record engine =
  engine_id :: nat
  engine_url :: string
  engine_options :: pydict

record session_factory =
  bound_engine :: engine
  expire_on_commit :: bool

record metronome_client =
  bearer_token :: string
  client_base_url :: string
  timeout_seconds :: rat

datatype log_handler =
    StreamJsonHandler string string
  | ForeignHandler string

text \<open>
  \<open>engines_created\<close> counts the calls of \<open>create_async_engine\<close>, \<open>engines_disposed\<close> lists the
  engines whose pool was closed. Logger levels are numbers, the loggers not listed inherit.
\<close>

record process =
  cached_settings :: "settings option"
  current_engine :: "engine option"
  current_sessionmaker :: "session_factory option"
  engines_created :: nat
  engines_disposed :: "nat set"
  logging_configured :: bool
  root_handlers :: "log_handler list"
  root_level :: int
  logger_levels :: "(string \<times> int) list"
  metronome :: "metronome_client option"

type_synonym 'a process_act = "(exn, process, 'a) act"

definition fresh_process :: process where
  "fresh_process =
     \<lparr>cached_settings = None, current_engine = None, current_sessionmaker = None, engines_created = 0,
      engines_disposed = {}, logging_configured = False, root_handlers = [], root_level = 30, logger_levels = [],
      metronome = None\<rparr>"

section \<open>config: get_settings\<close>

text \<open>\<open>lru_cache\<close>: the environment is read until it makes valid settings, and not again.\<close>

definition get_settings :: "settings \<Rightarrow> settings process_act" where
  "get_settings environment =
     bnd (reads cached_settings) (\<lambda>cached.
       case cached of
         Some s \<Rightarrow> ret s
       | None \<Rightarrow>
           bnd (lift (load_settings environment)) (\<lambda>s.
           bnd (modifies (\<lambda>p. p\<lparr>cached_settings := Some s\<rparr>)) (\<lambda>_. ret s)))"

section \<open>db.py\<close>

definition create_async_engine :: "(string \<Rightarrow> exn option) \<Rightarrow> string \<Rightarrow> pydict \<Rightarrow> engine process_act" where
  "create_async_engine bad_url url options p =
     (case bad_url url of
        Some exc \<Rightarrow> (Inl exc, p)
      | None \<Rightarrow>
          (Inr \<lparr>engine_id = engines_created p, engine_url = url, engine_options = options\<rparr>,
           p\<lparr>engines_created := Suc (engines_created p)\<rparr>))"

definition get_engine :: "(string \<Rightarrow> exn option) \<Rightarrow> settings \<Rightarrow> engine process_act" where
  "get_engine bad_url environment =
     bnd (reads current_engine) (\<lambda>current.
       case current of
         Some engine \<Rightarrow> ret engine
       | None \<Rightarrow>
           bnd (get_settings environment) (\<lambda>settings.
           bnd (create_async_engine bad_url (database_url settings)
                 [(''pool_pre_ping'', PBool True), (''pool_size'', PInt 5), (''max_overflow'', PInt 10),
                  (''future'', PBool True)]) (\<lambda>engine.
           bnd (modifies (\<lambda>p. p\<lparr>current_engine := Some engine\<rparr>)) (\<lambda>_. ret engine))))"

definition get_sessionmaker :: "(string \<Rightarrow> exn option) \<Rightarrow> settings \<Rightarrow> session_factory process_act" where
  "get_sessionmaker bad_url environment =
     bnd (reads current_sessionmaker) (\<lambda>current.
       case current of
         Some sessionmaker \<Rightarrow> ret sessionmaker
       | None \<Rightarrow>
           bnd (get_engine bad_url environment) (\<lambda>engine.
           bnd (ret \<lparr>bound_engine = engine, expire_on_commit = False\<rparr>) (\<lambda>sessionmaker.
           bnd (modifies (\<lambda>p. p\<lparr>current_sessionmaker := Some sessionmaker\<rparr>)) (\<lambda>_. ret sessionmaker))))"

text \<open>\<open>engine.dispose()\<close> closes the pool, or raises \<open>failure\<close>.\<close>

definition dispose_pool :: "exn option \<Rightarrow> engine \<Rightarrow> unit process_act" where
  "dispose_pool failure engine =
     (case failure of
        Some exc \<Rightarrow> raising exc
      | None \<Rightarrow> modifies (\<lambda>p. p\<lparr>engines_disposed := insert (engine_id engine) (engines_disposed p)\<rparr>))"

definition dispose_engine :: "exn option \<Rightarrow> unit process_act" where
  "dispose_engine failure =
     bnd (reads current_engine) (\<lambda>current.
       case current of
         None \<Rightarrow> ret ()
       | Some engine \<Rightarrow>
           bnd (dispose_pool failure engine) (\<lambda>_.
           modifies (\<lambda>p. p\<lparr>current_engine := None, current_sessionmaker := None\<rparr>)))"

definition reset_engine_for_tests :: "(string \<Rightarrow> exn option) \<Rightarrow> string \<Rightarrow> pydict \<Rightarrow> engine process_act" where
  "reset_engine_for_tests bad_url url engine_kwargs =
     (if ''future'' \<in> fst ` set engine_kwargs
      then raising (OtherException ''TypeError''
        ''create_async_engine() got multiple values for the keyword argument future'')
      else
        bnd (create_async_engine bad_url url ((''future'', PBool True) # engine_kwargs)) (\<lambda>engine.
        bnd (modifies (\<lambda>p. p\<lparr>current_engine := Some engine\<rparr>)) (\<lambda>_.
        bnd (modifies (\<lambda>p. p\<lparr>current_sessionmaker := Some \<lparr>bound_engine = engine, expire_on_commit = False\<rparr>\<rparr>)) (\<lambda>_.
        ret engine))))"

section \<open>logging.py\<close>

text \<open>\<open>str.upper\<close> on the ASCII letters, and the levels \<open>setLevel\<close> knows by name.\<close>

definition char_upper :: "char \<Rightarrow> char" where
  "char_upper c =
     (case map_of (zip ''abcdefghijklmnopqrstuvwxyz'' ''ABCDEFGHIJKLMNOPQRSTUVWXYZ'') c of
        None \<Rightarrow> c | Some u \<Rightarrow> u)"

definition py_upper :: "string \<Rightarrow> string" where
  "py_upper s = map char_upper s"

definition level_names :: "(string \<times> int) list" where
  "level_names =
     [(''CRITICAL'', 50), (''FATAL'', 50), (''ERROR'', 40), (''WARN'', 30), (''WARNING'', 30), (''INFO'', 20),
      (''DEBUG'', 10), (''NOTSET'', 0)]"

definition check_level :: "string \<Rightarrow> exn + int" where
  "check_level level =
     (case map_of level_names level of
        None \<Rightarrow> Inl (ValueError (PlainValueError (''Unknown level: '' @ py_repr level)))
      | Some n \<Rightarrow> Inr n)"

definition set_root_level :: "string \<Rightarrow> unit process_act" where
  "set_root_level level =
     bnd (lift (check_level level)) (\<lambda>n. modifies (\<lambda>p. p\<lparr>root_level := n\<rparr>))"

definition set_logger_level :: "string \<Rightarrow> int \<Rightarrow> process \<Rightarrow> process" where
  "set_logger_level name n p = p\<lparr>logger_levels := AList.update name n (logger_levels p)\<rparr>"

definition sidecar_handler :: log_handler where
  "sidecar_handler =
     StreamJsonHandler ''%(timestamp)s %(level)s %(logger)s %(message)s'' ''%Y-%m-%dT%H:%M:%S.%fZ''"

definition configure_logging :: "string \<Rightarrow> unit process_act" where
  "configure_logging level =
     bnd (reads logging_configured) (\<lambda>configured.
       if configured then set_root_level (py_upper level)
       else
         bnd (modifies (\<lambda>p. p\<lparr>root_handlers := [sidecar_handler]\<rparr>)) (\<lambda>_.
         bnd (set_root_level (py_upper level)) (\<lambda>_.
         bnd (modifies (fold (\<lambda>noisy. set_logger_level noisy 30) [''uvicorn.access'', ''httpx'', ''httpcore''])) (\<lambda>_.
         modifies (\<lambda>p. p\<lparr>logging_configured := True\<rparr>)))))"

text \<open>
  \<open>add_fields\<close>, for a record with its logger's name, its level's name and the formatted
  time: what the base class has put into the line, with the three fields of the sidecar.
\<close>

definition add_fields ::
  "(pydict \<Rightarrow> log_record \<Rightarrow> pydict \<Rightarrow> pydict) \<Rightarrow> string \<Rightarrow> string \<Rightarrow> string \<Rightarrow>
     pydict \<Rightarrow> log_record \<Rightarrow> pydict \<Rightarrow> pydict" where
  "add_fields super_add_fields formatted_time level_name logger_name line line_record message_dict =
     (let line = super_add_fields line line_record message_dict;
          line = (if ''timestamp'' \<in> fst ` set line then line else dict_set ''timestamp'' (PStr formatted_time) line);
          line = dict_set ''level'' (PStr (py_lower level_name)) line
      in dict_set ''logger'' (PStr logger_name) line)"

section \<open>metronome\_client.py: the client object\<close>

definition open_client :: "string \<Rightarrow> string \<Rightarrow> unit process_act" where
  "open_client api_key base_url =
     modifies (\<lambda>p. p\<lparr>metronome := Some \<lparr>bearer_token = api_key, client_base_url = base_url, timeout_seconds = 30\<rparr>\<rparr>)"

text \<open>The SDK's \<open>close()\<close> releases the connections, or raises \<open>failure\<close>.\<close>

definition aclose :: "exn option \<Rightarrow> unit process_act" where
  "aclose failure =
     (case failure of Some exc \<Rightarrow> raising exc | None \<Rightarrow> modifies (\<lambda>p. p\<lparr>metronome := None\<rparr>))"

section \<open>The entry points\<close>

text \<open>A process together with the database, Metronome and the log it works on.\<close>

record 'm host =
  proc :: process
  world :: "'m world"

definition in_process :: "'a process_act \<Rightarrow> (exn, 'm host, 'a) act" where
  "in_process m h = (case m (proc h) of (r, p) \<Rightarrow> (r, h\<lparr>proc := p\<rparr>))"

definition in_world :: "(exn, 'm world, 'a) act \<Rightarrow> (exn, 'm host, 'a) act" where
  "in_world m h = (case m (world h) of (r, w) \<Rightarrow> (r, h\<lparr>world := w\<rparr>))"

text \<open>
  The worker's iteration and loop in the process: \<open>_process_one\<close> takes its session from the
  session factory, and what that raises is caught in the loop as well.
\<close>

definition hosted_iteration ::
  "(string \<Rightarrow> exn option) \<Rightarrow> settings \<Rightarrow> settings \<Rightarrow> 'm sdk \<Rightarrow> env \<Rightarrow> string set \<Rightarrow> 'm host \<Rightarrow> bool \<times> 'm host" where
  "hosted_iteration bad_url environment cfg sdk e locked h =
     (case bnd (in_process (get_sessionmaker bad_url environment)) (\<lambda>_. in_world (process_one e cfg sdk locked)) h of
        (Inr processed, h') \<Rightarrow> (processed, h')
      | (Inl exc, h') \<Rightarrow>
          (False, h'\<lparr>world := world_log ERROR ''worker_loop_unhandled_exception''
             [(''event'', PStr ''worker_loop_unhandled_exception'')] (world h')\<rparr>))"

fun hosted_loop ::
  "(string \<Rightarrow> exn option) \<Rightarrow> settings \<Rightarrow> settings \<Rightarrow> 'm sdk \<Rightarrow> (bool \<times> env \<times> string set) list \<Rightarrow> 'm host \<Rightarrow> bool \<times> 'm host" where
  "hosted_loop bad_url environment cfg sdk [] h = (False, h)"
| "hosted_loop bad_url environment cfg sdk ((stop, e, locked) # rest) h =
     (if stop
      then (True, h\<lparr>world := world_log INFO ''worker_stopped'' [(''event'', PStr ''worker_stopped'')] (world h)\<rparr>)
      else hosted_loop bad_url environment cfg sdk rest (snd (hosted_iteration bad_url environment cfg sdk e locked h)))"

text \<open>
  \<open>run\<close> catches every \<open>Exception\<close>; what ends it otherwise is a \<open>BaseException\<close>, a cancellation
  of the task, that reaches it in the wait after the last of its readings: \<open>interrupt\<close>.
\<close>

definition hosted_run ::
  "(string \<Rightarrow> exn option) \<Rightarrow> settings \<Rightarrow> exn option \<Rightarrow> settings \<Rightarrow> 'm sdk \<Rightarrow> (bool \<times> env \<times> string set) list \<Rightarrow>
     (exn, 'm host, bool) act" where
  "hosted_run bad_url environment interrupt cfg sdk readings h =
     (case hosted_loop bad_url environment cfg sdk readings
             (h\<lparr>world := world_log INFO ''worker_started''
                [(''event'', PStr ''worker_started''),
                 (''poll_interval_s'', PFloat (worker_poll_interval_seconds cfg)),
                 (''max_attempts'', PInt (worker_max_attempts cfg))] (world h)\<rparr>) of
        (ended, h') \<Rightarrow>
          (if ended then Inr True else case interrupt of None \<Rightarrow> Inr False | Some exc \<Rightarrow> Inl exc, h'))"

text \<open>\<open>_amain\<close> of the worker; the result says whether its loop has ended.\<close>

definition amain ::
  "(string \<Rightarrow> exn option) \<Rightarrow> settings \<Rightarrow> exn option \<Rightarrow> exn option \<Rightarrow> exn option \<Rightarrow> 'm sdk \<Rightarrow>
     (bool \<times> env \<times> string set) list \<Rightarrow> (exn, 'm host, bool) act" where
  "amain bad_url environment interrupt close_failure dispose_failure sdk readings =
     bnd (in_process (get_settings environment)) (\<lambda>settings.
     bnd (in_process (configure_logging (log_level settings))) (\<lambda>_.
     bnd (in_process (open_client (metronome_api_key settings) (metronome_base_url settings))) (\<lambda>_.
     finally_do (hosted_run bad_url environment interrupt settings sdk readings)
       (bnd (in_process (aclose close_failure)) (\<lambda>_. in_process (dispose_engine dispose_failure))))))"

text \<open>The receiver's lifespan around whatever it serves.\<close>

definition log_in_world :: "log_level \<Rightarrow> string \<Rightarrow> pydict \<Rightarrow> (exn, 'm host, unit) act" where
  "log_in_world level message extra = in_world (modifies (world_log level message extra))"

definition lifespan :: "settings \<Rightarrow> exn option \<Rightarrow> (exn, 'm host, unit) act \<Rightarrow> (exn, 'm host, unit) act" where
  "lifespan environment dispose_failure serve =
     bnd (in_process (get_settings environment)) (\<lambda>settings.
     bnd (in_process (configure_logging (log_level settings))) (\<lambda>_.
     bnd (log_in_world INFO ''server_started'' [(''event'', PStr ''server_started''), (''port'', PInt (port settings))]) (\<lambda>_.
     finally_do serve
       (bnd (in_process (dispose_engine dispose_failure)) (\<lambda>_.
        log_in_world INFO ''server_stopped'' [(''event'', PStr ''server_stopped'')])))))"

section \<open>The singletons\<close>

datatype pool_call = CallGetEngine settings | CallGetSessionmaker settings | CallDispose "exn option"

fun pool_call_act :: "(string \<Rightarrow> exn option) \<Rightarrow> pool_call \<Rightarrow> unit process_act" where
  "pool_call_act bad_url (CallGetEngine environment) = bnd (get_engine bad_url environment) (\<lambda>_. ret ())"
| "pool_call_act bad_url (CallGetSessionmaker environment) = bnd (get_sessionmaker bad_url environment) (\<lambda>_. ret ())"
| "pool_call_act bad_url (CallDispose failure) = dispose_engine failure"

text \<open>Any calls in any order; one that raises leaves its state to the next.\<close>

fun pool_calls :: "(string \<Rightarrow> exn option) \<Rightarrow> pool_call list \<Rightarrow> process \<Rightarrow> process" where
  "pool_calls bad_url [] p = p"
| "pool_calls bad_url (c # cs) p = pool_calls bad_url cs (snd (pool_call_act bad_url c p))"

definition live_engines :: "process \<Rightarrow> nat set" where
  "live_engines p = {i. i < engines_created p \<and> i \<notin> engines_disposed p}"

definition pool_ok :: "process \<Rightarrow> bool" where
  "pool_ok p \<longleftrightarrow>
     live_engines p = (case current_engine p of None \<Rightarrow> {} | Some e \<Rightarrow> {engine_id e}) \<and>
     engines_disposed p \<subseteq> {..<engines_created p} \<and>
     (\<forall>m. current_sessionmaker p = Some m \<longrightarrow> current_engine p = Some (bound_engine m))"

lemma get_settings_eq:
  "get_settings environment p =
     (case cached_settings p of
        Some s \<Rightarrow> (Inr s, p)
      | None \<Rightarrow>
          (case load_settings environment of
             Inl exc \<Rightarrow> (Inl exc, p) | Inr s \<Rightarrow> (Inr s, p\<lparr>cached_settings := Some s\<rparr>)))"
  by (simp add: get_settings_def bnd_def reads_def ret_def lift_def modifies_def split: option.split sum.split)

lemma get_settings_pool: "get_settings environment p = (r, q) \<Longrightarrow> \<exists>c. q = p\<lparr>cached_settings := c\<rparr>"
  by (auto simp: get_settings_eq split: option.splits sum.splits) (metis process.surjective process.update_convs(1))+

definition production_options :: pydict where
  "production_options =
     [(''pool_pre_ping'', PBool True), (''pool_size'', PInt 5), (''max_overflow'', PInt 10), (''future'', PBool True)]"

lemma get_engine_cases:
  assumes "get_engine bad_url environment p = (r, q)"
  obtains (current) e where "current_engine p = Some e" "r = Inr e" "q = p"
  | (failed) exc c where "current_engine p = None" "r = Inl exc" "q = p\<lparr>cached_settings := c\<rparr>"
  | (created) e c where "current_engine p = None" "r = Inr e" "engine_id e = engines_created p"
      "engine_options e = production_options"
      "q = p\<lparr>cached_settings := c, engines_created := Suc (engines_created p), current_engine := Some e\<rparr>"
proof (cases "current_engine p")
  case (Some e)
  with assms show thesis by (intro current [OF Some]) (auto simp: get_engine_def bnd_def reads_def ret_def)
next
  case None
  obtain x t where x: "get_settings environment p = (x, t)" by fastforce
  then obtain c where t: "t = p\<lparr>cached_settings := c\<rparr>" using get_settings_pool by blast
  from None x t assms show thesis
    by (auto simp: get_engine_def bnd_def reads_def ret_def modifies_def create_async_engine_def production_options_def
        split: sum.splits option.splits intro: failed created)
qed

lemma pool_ok_fresh: "pool_ok fresh_process"
  by (simp add: pool_ok_def fresh_process_def live_engines_def)

lemma get_engine_pool_ok: "get_engine bad_url environment p = (r, q) \<Longrightarrow> pool_ok p \<Longrightarrow> pool_ok q"
proof -
  assume run: "get_engine bad_url environment p = (r, q)" and ok: "pool_ok p"
  from run show ?thesis
  proof (cases rule: get_engine_cases)
    case current
    with ok show ?thesis by simp
  next
    case failed
    with ok show ?thesis by (simp add: pool_ok_def live_engines_def)
  next
    case (created e c)
    then have "live_engines q = insert (engines_created p) (live_engines p)"
      using ok by (auto simp: live_engines_def pool_ok_def less_Suc_eq)
    with created ok show ?thesis by (auto simp: pool_ok_def)
  qed
qed

lemma get_sessionmaker_eq:
  "get_sessionmaker bad_url environment p =
     (case current_sessionmaker p of
        Some m \<Rightarrow> (Inr m, p)
      | None \<Rightarrow>
          (case get_engine bad_url environment p of
             (Inl exc, q) \<Rightarrow> (Inl exc, q)
           | (Inr e, q) \<Rightarrow>
               (Inr \<lparr>bound_engine = e, expire_on_commit = False\<rparr>,
                q\<lparr>current_sessionmaker := Some \<lparr>bound_engine = e, expire_on_commit = False\<rparr>\<rparr>)))"
  by (simp add: get_sessionmaker_def bnd_def reads_def ret_def modifies_def split: option.split sum.split prod.split)

lemma get_engine_current: "get_engine bad_url environment p = (Inr e, q) \<Longrightarrow> current_engine q = Some e"
  by (erule get_engine_cases) simp_all

lemma get_sessionmaker_pool_ok: "get_sessionmaker bad_url environment p = (r, q) \<Longrightarrow> pool_ok p \<Longrightarrow> pool_ok q"
proof -
  assume run: "get_sessionmaker bad_url environment p = (r, q)" and ok: "pool_ok p"
  obtain x t where x: "get_engine bad_url environment p = (x, t)" by fastforce
  note t = get_engine_pool_ok [OF x ok]
  show ?thesis
  proof (cases "current_sessionmaker p")
    case (Some m)
    with run ok show ?thesis by (simp add: get_sessionmaker_eq)
  next
    case None
    show ?thesis
    proof (cases x)
      case (Inl exc)
      with None run x t show ?thesis by (simp add: get_sessionmaker_eq)
    next
      case (Inr e)
      with None run x t get_engine_current [of bad_url environment p e t] show ?thesis
        by (auto simp: get_sessionmaker_eq pool_ok_def live_engines_def)
    qed
  qed
qed

lemma get_sessionmaker_client: "get_sessionmaker bad_url environment p = (r, q) \<Longrightarrow> metronome q = metronome p"
  by (auto simp: get_sessionmaker_eq split: option.splits prod.splits sum.splits elim!: get_engine_cases)

lemma dispose_engine_eq:
  "dispose_engine failure p =
     (case (current_engine p, failure) of
        (None, _) \<Rightarrow> (Inr (), p)
      | (Some e, Some exc) \<Rightarrow> (Inl exc, p)
      | (Some e, None) \<Rightarrow>
          (Inr (), p\<lparr>engines_disposed := insert (engine_id e) (engines_disposed p), current_engine := None,
             current_sessionmaker := None\<rparr>))"
  by (simp add: dispose_engine_def dispose_pool_def bnd_def reads_def ret_def modifies_def raising_def split: option.split)

lemma dispose_engine_pool_ok:
  assumes "pool_ok p" "dispose_engine failure p = (r, q)"
  shows "pool_ok q" and "r = Inr () \<Longrightarrow> live_engines q = {} \<and> current_engine q = None"
proof -
  have "pool_ok q \<and> (r = Inr () \<longrightarrow> live_engines q = {} \<and> current_engine q = None)"
  proof (cases "current_engine p")
    case None
    with assms show ?thesis by (simp add: dispose_engine_eq pool_ok_def)
  next
    case (Some e)
    with assms(1) have live: "live_engines p = {engine_id e}" "engines_disposed p \<subseteq> {..<engines_created p}"
      by (simp_all add: pool_ok_def)
    then have "engine_id e < engines_created p" unfolding live_engines_def by blast
    with Some live assms show ?thesis
      by (cases failure) (auto simp: dispose_engine_eq pool_ok_def live_engines_def)
  qed
  then show "pool_ok q" "r = Inr () \<Longrightarrow> live_engines q = {} \<and> current_engine q = None" by blast+
qed

lemma pool_call_ok: "pool_ok p \<Longrightarrow> pool_ok (snd (pool_call_act bad_url c p))"
proof (cases c)
  case (CallDispose failure)
  assume "pool_ok p"
  then show ?thesis using CallDispose dispose_engine_pool_ok(1) [of p failure] by (metis pool_call_act.simps(3) prod.collapse)
qed (auto simp: bnd_def ret_def split: prod.splits sum.splits intro: get_engine_pool_ok get_sessionmaker_pool_ok)

lemma pool_calls_ok: "pool_ok p \<Longrightarrow> pool_ok (pool_calls bad_url cs p)"
  by (induction cs arbitrary: p) (simp_all add: pool_call_ok)

section \<open>Logging\<close>

definition noisy_loggers :: "string list" where
  "noisy_loggers = [''uvicorn.access'', ''httpx'', ''httpcore'']"

definition logging_ok :: "process \<Rightarrow> bool" where
  "logging_ok p \<longleftrightarrow>
     (logging_configured p \<longrightarrow>
        root_handlers p = [sidecar_handler] \<and> (\<forall>name \<in> set noisy_loggers. map_of (logger_levels p) name = Some 30))"

lemma set_logger_level_simps:
  "map_of (logger_levels (set_logger_level name n p)) = (map_of (logger_levels p))(name \<mapsto> n)"
  "root_handlers (set_logger_level name n p) = root_handlers p" "root_level (set_logger_level name n p) = root_level p"
  by (simp_all add: set_logger_level_def update_conv')

lemma configure_logging_eq:
  "configure_logging level p =
     (let q = (if logging_configured p then p else p\<lparr>root_handlers := [sidecar_handler]\<rparr>) in
      case check_level (py_upper level) of
        Inl exc \<Rightarrow> (Inl exc, q)
      | Inr n \<Rightarrow>
          (Inr (),
           if logging_configured p then q\<lparr>root_level := n\<rparr>
           else (fold (\<lambda>noisy. set_logger_level noisy 30) noisy_loggers (q\<lparr>root_level := n\<rparr>))\<lparr>logging_configured := True\<rparr>))"
  by (simp add: configure_logging_def set_root_level_def bnd_def reads_def lift_def modifies_def noisy_loggers_def
      Let_def split: sum.split)

section \<open>The worker process\<close>

lemma in_process_eq: "m (proc h) = (r, p) \<Longrightarrow> in_process m h = (r, h\<lparr>proc := p\<rparr>)"
  by (simp add: in_process_def)

definition engine_ready :: "(string \<Rightarrow> exn option) \<Rightarrow> settings \<Rightarrow> process \<Rightarrow> bool" where
  "engine_ready bad_url cfg p \<longleftrightarrow> cached_settings p = Some cfg \<and> bad_url (database_url cfg) = None"

lemma get_sessionmaker_ready:
  assumes "engine_ready bad_url cfg p"
  obtains m q where "get_sessionmaker bad_url environment p = (Inr m, q)" "engine_ready bad_url cfg q"
proof -
  have engine: "\<exists>e q. get_engine bad_url environment p = (Inr e, q) \<and> engine_ready bad_url cfg q"
    using assms
    by (auto simp: engine_ready_def get_engine_def bnd_def reads_def ret_def modifies_def get_settings_eq
        create_async_engine_def split: option.split)
  then show thesis using that assms
    by (cases "current_sessionmaker p") (auto simp: get_sessionmaker_eq engine_ready_def)
qed

lemma hosted_iteration_eq:
  assumes "engine_ready bad_url cfg (proc h)" and "pool_ok (proc h)"
  obtains b h' where "hosted_iteration bad_url environment cfg sdk e locked h = (b, h')"
    "iteration e cfg sdk locked (world h) = (b, world h')" "engine_ready bad_url cfg (proc h')" "pool_ok (proc h')"
    "current_engine (proc h') \<noteq> None" "metronome (proc h') = metronome (proc h)"
proof -
  obtain m q where m: "get_sessionmaker bad_url environment (proc h) = (Inr m, q)" and q: "engine_ready bad_url cfg q"
    using get_sessionmaker_ready [OF assms(1)] by blast
  have ok: "pool_ok q" using get_sessionmaker_pool_ok [OF m assms(2)] .
  moreover have "current_sessionmaker q = Some m"
    using m by (auto simp: get_sessionmaker_eq split: option.splits prod.splits sum.splits)
  ultimately have engine: "current_engine q \<noteq> None" by (simp add: pool_ok_def)
  have client: "metronome q = metronome (proc h)" using get_sessionmaker_client [OF m] .
  obtain r w where one: "process_one e cfg sdk locked (world h) = (r, w)" by fastforce
  show thesis
    using m q ok one engine client
    by (cases r) (auto simp: hosted_iteration_def bnd_def in_process_def in_world_def iteration_def intro!: that)
qed

text \<open>The loop has had an engine made for it once it has worked.\<close>

definition worked :: "(bool \<times> env \<times> string set) list \<Rightarrow> bool" where
  "worked readings \<longleftrightarrow> (case readings of [] \<Rightarrow> False | (stop, _) # _ \<Rightarrow> \<not> stop)"

lemma hosted_loop_eq:
  assumes "engine_ready bad_url cfg (proc h)" "pool_ok (proc h)"
  obtains h' where "hosted_loop bad_url environment cfg sdk readings h = (fst (run_loop cfg sdk readings (world h)), h')"
    "world h' = snd (run_loop cfg sdk readings (world h))" "pool_ok (proc h')"
    "current_engine (proc h') \<noteq> None \<longleftrightarrow> current_engine (proc h) \<noteq> None \<or> worked readings"
    "metronome (proc h') = metronome (proc h)"
  using assms
proof (induction readings arbitrary: h thesis)
  case Nil
  then show ?case by (simp add: worked_def)
next
  case (Cons x readings)
  obtain stop e locked where x: "x = (stop, e, locked)" by (cases x)
  show ?case
  proof (cases stop)
    case True
    with Cons.prems x show ?thesis by (simp add: worked_def)
  next
    case False
    obtain b h1 where one: "hosted_iteration bad_url environment cfg sdk e locked h = (b, h1)"
      "iteration e cfg sdk locked (world h) = (b, world h1)" "engine_ready bad_url cfg (proc h1)" "pool_ok (proc h1)"
      "current_engine (proc h1) \<noteq> None" "metronome (proc h1) = metronome (proc h)"
      using hosted_iteration_eq [OF Cons.prems(2,3)] .
    show ?thesis
    proof (rule Cons.IH [OF _ one(3,4)])
      fix h'
      assume "hosted_loop bad_url environment cfg sdk readings h1 = (fst (run_loop cfg sdk readings (world h1)), h')"
        "world h' = snd (run_loop cfg sdk readings (world h1))" "pool_ok (proc h')"
        "current_engine (proc h') \<noteq> None \<longleftrightarrow> current_engine (proc h1) \<noteq> None \<or> worked readings"
        "metronome (proc h') = metronome (proc h1)"
      with one x False show ?thesis by (intro Cons.prems(1) [of h']) (simp_all add: worked_def)
    qed
  qed
qed

text \<open>How the loop ends: the stop flag, readings used up, or an interrupt.\<close>

definition loop_end :: "bool \<Rightarrow> exn option \<Rightarrow> exn + bool" where
  "loop_end ended interrupt =
     (if ended then Inr True else case interrupt of None \<Rightarrow> Inr False | Some exc \<Rightarrow> Inl exc)"

lemma hosted_run_eq:
  assumes "engine_ready bad_url cfg (proc h)" "pool_ok (proc h)"
  obtains h' where "hosted_run bad_url environment interrupt cfg sdk readings h =
      (loop_end (fst (run cfg sdk readings (world h))) interrupt, h')"
    "world h' = snd (run cfg sdk readings (world h))" "pool_ok (proc h')"
    "current_engine (proc h') \<noteq> None \<longleftrightarrow> current_engine (proc h) \<noteq> None \<or> worked readings"
    "metronome (proc h') = metronome (proc h)"
proof -
  let ?h = "h\<lparr>world := world_log INFO ''worker_started''
      [(''event'', PStr ''worker_started''), (''poll_interval_s'', PFloat (worker_poll_interval_seconds cfg)),
       (''max_attempts'', PInt (worker_max_attempts cfg))] (world h)\<rparr>"
  obtain h' where "hosted_loop bad_url environment cfg sdk readings ?h = (fst (run_loop cfg sdk readings (world ?h)), h')"
    "world h' = snd (run_loop cfg sdk readings (world ?h))" "pool_ok (proc h')"
    "current_engine (proc h') \<noteq> None \<longleftrightarrow> current_engine (proc ?h) \<noteq> None \<or> worked readings"
    "metronome (proc h') = metronome (proc ?h)"
    by (rule hosted_loop_eq [of bad_url cfg ?h]) (use assms in simp_all)
  then show thesis by (intro that [of h']) (simp_all add: hosted_run_def run_def loop_end_def)
qed

text \<open>Setting up the process: the settings, the logging and the client.\<close>

lemma startup:
  assumes "load_settings environment = Inr environment"
    and "check_level (py_upper (log_level environment)) = Inr n"
  obtains p where "get_settings environment fresh_process = (Inr environment, fresh_process\<lparr>cached_settings := Some environment\<rparr>)"
    "configure_logging (log_level environment) (fresh_process\<lparr>cached_settings := Some environment\<rparr>) = (Inr (), p)"
    "cached_settings p = Some environment" "pool_ok p" "current_engine p = None"
proof -
  let ?p = "fresh_process\<lparr>cached_settings := Some environment\<rparr>"
  obtain r p where p: "configure_logging (log_level environment) ?p = (r, p)" by fastforce
  then have "r = Inr () \<and> cached_settings p = Some environment \<and> pool_ok p \<and> current_engine p = None"
    using assms(2)
    by (auto simp: configure_logging_eq Let_def fresh_process_def noisy_loggers_def set_logger_level_def
        pool_ok_def live_engines_def)
  with p show thesis
    using assms(1) by (intro that [of p]) (simp_all add: get_settings_eq fresh_process_def)
qed

text \<open>The clean-up of \<open>_amain\<close>, after whatever the loop did.\<close>

lemma amain_cleanup:
  fixes t :: "'m host"
  assumes "pool_ok (proc t)"
  shows "\<exists>h'. bnd (in_process (aclose close_failure)) (\<lambda>_. in_process (dispose_engine dispose_failure)) t =
      ((case close_failure of
          Some exc \<Rightarrow> Inl exc
        | None \<Rightarrow> (case dispose_failure of
            Some exc \<Rightarrow> if current_engine (proc t) = None then Inr () else Inl exc | None \<Rightarrow> Inr ())), h') \<and>
    world h' = world t \<and>
    metronome (proc h') = (if close_failure = None then None else metronome (proc t)) \<and>
    (live_engines (proc h') = {} \<longleftrightarrow>
       close_failure = None \<and> dispose_failure = None \<or> current_engine (proc t) = None)"
proof (cases close_failure)
  case (Some exc)
  with assms show ?thesis
    by (auto simp: bnd_def in_process_def aclose_def raising_def pool_ok_def split: option.splits)
next
  case None
  let ?q = "(proc t)\<lparr>metronome := None\<rparr>"
  obtain r p where d: "dispose_engine dispose_failure ?q = (r, p)" by fastforce
  have ok: "pool_ok ?q" using assms by (simp add: pool_ok_def live_engines_def)
  note pool = dispose_engine_pool_ok [OF ok d]
  have "bnd (in_process (aclose close_failure)) (\<lambda>_. in_process (dispose_engine dispose_failure)) t = (r, t\<lparr>proc := p\<rparr>)"
    using None d by (simp add: bnd_def in_process_def aclose_def modifies_def)
  moreover have "r = (case dispose_failure of
      Some exc \<Rightarrow> if current_engine (proc t) = None then Inr () else Inl exc | None \<Rightarrow> Inr ())"
    "metronome p = None"
    using d by (auto simp: dispose_engine_eq split: option.splits)
  moreover have "live_engines p = {} \<longleftrightarrow> dispose_failure = None \<or> current_engine (proc t) = None"
    using pool d assms
    by (cases "current_engine (proc t)"; cases dispose_failure)
      (auto simp: dispose_engine_eq pool_ok_def live_engines_def)
  ultimately show ?thesis using None by simp
qed

lemma amain_post:
  fixes h :: "'m host"
  assumes "proc h = fresh_process" and "load_settings environment = Inr environment"
    and "check_level (py_upper (log_level environment)) = Inr n" and "bad_url (database_url environment) = None"
  shows "\<exists>h'. amain bad_url environment interrupt close_failure dispose_failure sdk readings h =
      ((case close_failure of
          Some exc \<Rightarrow> Inl exc
        | None \<Rightarrow> if dispose_failure \<noteq> None \<and> worked readings then Inl (the dispose_failure)
            else loop_end (fst (run environment sdk readings (world h))) interrupt), h') \<and>
    world h' = snd (run environment sdk readings (world h)) \<and>
    (metronome (proc h') = None \<longleftrightarrow> close_failure = None) \<and>
    (live_engines (proc h') = {} \<longleftrightarrow> close_failure = None \<and> dispose_failure = None \<or> \<not> worked readings)"
proof -
  obtain p where p: "get_settings environment fresh_process =
      (Inr environment, fresh_process\<lparr>cached_settings := Some environment\<rparr>)"
    "configure_logging (log_level environment) (fresh_process\<lparr>cached_settings := Some environment\<rparr>) = (Inr (), p)"
    "cached_settings p = Some environment" "pool_ok p" "current_engine p = None"
    using startup [OF assms(2,3)] .
  let ?p = "p\<lparr>metronome := Some \<lparr>bearer_token = metronome_api_key environment,
      client_base_url = metronome_base_url environment, timeout_seconds = 30\<rparr>\<rparr>"
  have "engine_ready bad_url environment (proc (h\<lparr>proc := ?p\<rparr>))" "pool_ok (proc (h\<lparr>proc := ?p\<rparr>))"
    using p(3,4) assms(4) by (simp_all add: engine_ready_def pool_ok_def live_engines_def)
  from hosted_run_eq [OF this, where environment = environment and interrupt = interrupt and sdk = sdk and readings = readings]
  obtain t where run: "hosted_run bad_url environment interrupt environment sdk readings (h\<lparr>proc := ?p\<rparr>) =
      (loop_end (fst (run environment sdk readings (world (h\<lparr>proc := ?p\<rparr>)))) interrupt, t)"
    "world t = snd (run environment sdk readings (world (h\<lparr>proc := ?p\<rparr>)))" "pool_ok (proc t)"
    "current_engine (proc t) \<noteq> None \<longleftrightarrow> current_engine (proc (h\<lparr>proc := ?p\<rparr>)) \<noteq> None \<or> worked readings"
    "metronome (proc t) = metronome (proc (h\<lparr>proc := ?p\<rparr>))" .
  then have t: "hosted_run bad_url environment interrupt environment sdk readings (h\<lparr>proc := ?p\<rparr>) =
      (loop_end (fst (run environment sdk readings (world h))) interrupt, t)"
    "world t = snd (run environment sdk readings (world h))" "pool_ok (proc t)"
    "current_engine (proc t) \<noteq> None \<longleftrightarrow> worked readings" "metronome (proc t) \<noteq> None"
    using p(5) by simp_all
  obtain h' where clean: "bnd (in_process (aclose close_failure)) (\<lambda>_. in_process (dispose_engine dispose_failure)) t =
      ((case close_failure of
          Some exc \<Rightarrow> Inl exc
        | None \<Rightarrow> (case dispose_failure of
            Some exc \<Rightarrow> if current_engine (proc t) = None then Inr () else Inl exc | None \<Rightarrow> Inr ())), h')"
    and h': "world h' = world t" "metronome (proc h') = (if close_failure = None then None else metronome (proc t))"
      "live_engines (proc h') = {} \<longleftrightarrow> close_failure = None \<and> dispose_failure = None \<or> current_engine (proc t) = None"
    using amain_cleanup [OF t(3), of close_failure dispose_failure] by (elim exE conjE) (rule that)
  have "amain bad_url environment interrupt close_failure dispose_failure sdk readings h =
      finally_do (hosted_run bad_url environment interrupt environment sdk readings)
        (bnd (in_process (aclose close_failure)) (\<lambda>_. in_process (dispose_engine dispose_failure))) (h\<lparr>proc := ?p\<rparr>)"
    using p assms(1) by (simp add: amain_def bnd_def in_process_def open_client_def modifies_def)
  moreover have "finally_do (hosted_run bad_url environment interrupt environment sdk readings)
      (bnd (in_process (aclose close_failure)) (\<lambda>_. in_process (dispose_engine dispose_failure))) (h\<lparr>proc := ?p\<rparr>) =
    ((case close_failure of
        Some exc \<Rightarrow> Inl exc
      | None \<Rightarrow> if dispose_failure \<noteq> None \<and> worked readings then Inl (the dispose_failure)
          else loop_end (fst (run environment sdk readings (world h))) interrupt), h')"
    unfolding finally_do_def t(1) prod.case clean using t(4) by (auto split: option.split)
  moreover have "metronome (proc h') = None \<longleftrightarrow> close_failure = None" using h'(2) t(5) by auto
  moreover have "live_engines (proc h') = {} \<longleftrightarrow> close_failure = None \<and> dispose_failure = None \<or> \<not> worked readings"
    using h'(3) t(4) by blast
  ultimately show ?thesis using h'(1) t(2) by simp
qed

text \<open>The receiver's process: whatever it serves, as long as it uses the engine through \<open>db.py\<close>.\<close>

lemma lifespan_cleans_up:
  assumes "proc h = fresh_process" and "load_settings environment = Inr environment"
    and "check_level (py_upper (log_level environment)) = Inr n"
    and serve: "\<And>g. pool_ok (proc g) \<Longrightarrow> pool_ok (proc (snd (serve g)))"
  shows "\<exists>r h'. lifespan environment None serve h = (r, h') \<and> live_engines (proc h') = {} \<and> current_engine (proc h') = None"
proof -
  obtain p where p: "get_settings environment fresh_process =
      (Inr environment, fresh_process\<lparr>cached_settings := Some environment\<rparr>)"
    "configure_logging (log_level environment) (fresh_process\<lparr>cached_settings := Some environment\<rparr>) = (Inr (), p)"
    "cached_settings p = Some environment" "pool_ok p"
    using startup [OF assms(2,3)] .
  let ?g = "h\<lparr>proc := p, world := world_log INFO ''server_started''
      [(''event'', PStr ''server_started''), (''port'', PInt (port environment))] (world h)\<rparr>"
  obtain r t where t: "serve ?g = (r, t)" by fastforce
  have "pool_ok (proc t)" using serve [of ?g] p(4) t by simp
  moreover obtain q where q: "dispose_engine None (proc t) = (Inr (), q)"
    by (cases "current_engine (proc t)") (simp_all add: dispose_engine_eq)
  ultimately have "live_engines q = {} \<and> current_engine q = None" using dispose_engine_pool_ok(2) by blast
  then show ?thesis using p t assms(1) q
    by (simp add: lifespan_def bnd_def in_process_def in_world_def log_in_world_def modifies_def finally_do_def)
qed

text \<open>\<open>reset_engine_for_tests\<close>, meant for tests only, drops the engine it replaces without closing it.\<close>

lemma reset_leaves_the_old_engine:
  assumes "pool_ok p" and "current_engine p = Some old" and "reset_engine_for_tests bad_url url kwargs p = (Inr new, q)"
  shows "live_engines q = {engine_id old, engine_id new} \<and> current_engine q = Some new \<and> engine_id new \<noteq> engine_id old"
proof -
  have live: "live_engines p = {engine_id old}" using assms(1,2) by (simp add: pool_ok_def)
  have q: "engine_id new = engines_created p" "engines_created q = Suc (engines_created p)"
    "engines_disposed q = engines_disposed p" "current_engine q = Some new"
    using assms(3) by (auto simp: reset_engine_for_tests_def bnd_def raising_def create_async_engine_def modifies_def ret_def
        split: if_splits option.splits)
  have "live_engines q = insert (engine_id new) (live_engines p)"
    using assms(1) q by (auto simp: live_engines_def pool_ok_def less_Suc_eq)
  moreover have "engine_id old < engines_created p" using live unfolding live_engines_def by blast
  ultimately show ?thesis using live q by auto
qed

section \<open>Properties\<close>

text \<open>C36: at most one connection pool. Whatever calls of \<open>get_engine\<close>, \<open>get_sessionmaker\<close> and
  \<open>dispose_engine\<close> a process makes, whatever some of them raise, the closing of the pool
  included: no engine is left open but the current one, the session factory is bound to it,
  and as long as it is there every further call returns it. (The fourth function,
  \<open>reset_engine_for_tests\<close>, is not among the calls.)\<close>

theorem one_engine_per_process:
  "pool_ok (pool_calls bad_url cs fresh_process) \<and>
   (case get_sessionmaker bad_url environment (pool_calls bad_url cs fresh_process) of
      (Inl exc, q) \<Rightarrow> pool_ok q
    | (Inr m, q) \<Rightarrow> live_engines q = {engine_id (bound_engine m)} \<and>
        get_engine bad_url other q = (Inr (bound_engine m), q) \<and> get_sessionmaker bad_url other q = (Inr m, q))"
proof
  show ok: "pool_ok (pool_calls bad_url cs fresh_process)" by (rule pool_calls_ok [OF pool_ok_fresh])
  obtain r q where run: "get_sessionmaker bad_url environment (pool_calls bad_url cs fresh_process) = (r, q)"
    by fastforce
  note q = get_sessionmaker_pool_ok [OF run ok]
  have m: "current_sessionmaker q = Some m" if "r = Inr m" for m
    using run that by (auto simp: get_sessionmaker_eq split: option.splits prod.splits sum.splits)
  show "case get_sessionmaker bad_url environment (pool_calls bad_url cs fresh_process) of
      (Inl exc, q) \<Rightarrow> pool_ok q
    | (Inr m, q) \<Rightarrow> live_engines q = {engine_id (bound_engine m)} \<and>
        get_engine bad_url other q = (Inr (bound_engine m), q) \<and> get_sessionmaker bad_url other q = (Inr m, q)"
    using q m run
    by (cases r) (auto simp: pool_ok_def get_engine_def get_sessionmaker_def bnd_def reads_def ret_def)
qed

text \<open>Logging is configured once. In a process whose logging was set up by
  \<open>configure_logging\<close> or not at all, a call leaves exactly the sidecar's handler on the root
  logger, however often it was called before; with a known level it sets this level and
  leaves the noisy loggers at \<open>WARNING\<close>, with an unknown one it raises \<open>ValueError\<close> and
  leaves the level as it was.\<close>

lemma logging_is_configured_once:
  assumes "logging_ok p" and "configure_logging level p = (r, q)"
  shows "logging_ok q \<and> root_handlers q = [sidecar_handler] \<and>
    (case map_of level_names (py_upper level) of
       None \<Rightarrow> (\<exists>m. r = Inl (ValueError (PlainValueError m))) \<and> root_level q = root_level p
     | Some n \<Rightarrow> r = Inr () \<and> root_level q = n \<and>
         (\<forall>name \<in> set noisy_loggers. map_of (logger_levels q) name = Some 30))"
proof (cases "map_of level_names (py_upper level)")
  case None
  with assms show ?thesis
    by (auto simp: configure_logging_eq check_level_def logging_ok_def Let_def split: if_splits)
next
  case (Some n)
  with assms show ?thesis
    by (auto simp: configure_logging_eq check_level_def logging_ok_def Let_def noisy_loggers_def set_logger_level_simps
        split: if_splits)
qed

lemma logging_is_configured_once_example:
  "root_handlers (snd (configure_logging ''debug'' (snd (configure_logging ''info'' fresh_process)))) = [sidecar_handler]"
proof -
  have "logging_ok (snd (configure_logging ''info'' fresh_process))" by code_simp
  moreover obtain r q where run: "configure_logging ''debug'' (snd (configure_logging ''info'' fresh_process)) = (r, q)"
    by fastforce
  ultimately have "root_handlers q = [sidecar_handler]" using logging_is_configured_once by blast
  with run show ?thesis by simp
qed

text \<open>C33: the worker process. With settings that pass their checks, a log level that exists and a
  database URL the engine accepts, \<open>_amain\<close> in a fresh process does to the database and to
  Metronome what \<open>Worker.run\<close> does. However the loop ends, an interrupt included, the clean-up
  runs: the Metronome client is closed unless closing it fails, and then no engine is left
  open, unless closing that one fails. If the client cannot be closed, the engine of a loop
  that has worked is left open. What the clean-up raises is raised in place of what the
  loop raised, and else the process ends as the loop did.\<close>

theorem worker_process_cleans_up:
  fixes h :: "'m host"
  assumes "proc h = fresh_process" and "load_settings environment = Inr environment"
    and "check_level (py_upper (log_level environment)) = Inr n" and "bad_url (database_url environment) = None"
  shows "\<exists>h'. amain bad_url environment interrupt close_failure dispose_failure sdk readings h =
      ((case close_failure of
          Some exc \<Rightarrow> Inl exc
        | None \<Rightarrow> if dispose_failure \<noteq> None \<and> worked readings then Inl (the dispose_failure)
            else loop_end (fst (run environment sdk readings (world h))) interrupt), h') \<and>
    world h' = snd (run environment sdk readings (world h)) \<and>
    (metronome (proc h') = None \<longleftrightarrow> close_failure = None) \<and>
    (live_engines (proc h') = {} \<longleftrightarrow> close_failure = None \<and> dispose_failure = None \<or> \<not> worked readings)"
  using assms by (rule amain_post)

lemma worker_process_cleans_up_witness:
  "\<exists>h'. amain (\<lambda>_. None) sample_settings (Some (OtherException ''CancelledError'' [])) None None (answering_sdk ''m_1'')
      [(False, sample_env, {})] \<lparr>proc = fresh_process, world = idle_world\<rparr> = (Inl (OtherException ''CancelledError'' []), h') \<and>
    live_engines (proc h') = {}"
proof -
  have settings: "load_settings sample_settings = Inr sample_settings"
    unfolding load_settings_ok by (intro conjI) (simp add: sample_settings_def, code_simp+)
  have level: "check_level (py_upper (log_level sample_settings)) = Inr 20" by code_simp
  have ended: "\<not> fst (run sample_settings (answering_sdk ''m_1'') [(False, sample_env, {})] idle_world)"
    by (simp add: run_def)
  show ?thesis
    using worker_process_cleans_up [of "\<lparr>proc = fresh_process, world = idle_world\<rparr>" sample_settings 20 "\<lambda>_. None"
        "Some (OtherException ''CancelledError'' [])" None None "answering_sdk ''m_1''" "[(False, sample_env, {})]"]
      settings level ended
    by (auto simp: loop_end_def)
qed

text \<open>The fields of a log line. Whatever the base class has put into the line, it carries the
  level in lower case and the logger's name, and every other field as the base class left it;
  the time is added only if the base class has entered no \<open>timestamp\<close>, so one it entered as
  \<open>None\<close>, because the format string asks for the field, stays \<open>None\<close>.\<close>

lemma log_line_fields:
  "let base = super_add_fields line line_record message_dict;
       out = add_fields super_add_fields formatted_time level_name logger_name line line_record message_dict
   in dict_get out ''level'' = PStr (py_lower level_name) \<and> dict_get out ''logger'' = PStr logger_name \<and>
      dict_get out ''timestamp'' =
        (if ''timestamp'' \<in> fst ` set base then dict_get base ''timestamp'' else PStr formatted_time) \<and>
      (\<forall>k. k \<notin> {''level'', ''logger'', ''timestamp''} \<longrightarrow> dict_get out k = dict_get base k)"
  by (simp add: add_fields_def Let_def dict_get_set)

lemma log_line_fields_example:
  "dict_get (add_fields (\<lambda>_ _ _. [(''timestamp'', PNone)]) ''2024-01-01T00:00:00'' ''INFO'' ''sidecar'' []
     \<lparr>log_record_level = INFO, log_record_message = [], log_record_extra = []\<rparr> []) ''timestamp'' = PNone"
  using log_line_fields [of "\<lambda>_ _ _. [(''timestamp'', PNone)]" "[]"
      "\<lparr>log_record_level = INFO, log_record_message = [], log_record_extra = []\<rparr>" "[]" "''2024-01-01T00:00:00''"
      "''INFO''" "''sidecar''"] by (simp add: Let_def)

end
