(* ===== verification/System.thy ===== *)
theory System
  imports Receiver
begin

text \<open>
  The receiver, the workers, Metronome and the operator together. \<open>system_step\<close> lets each of
  them act in any order; a worker may be killed before its commit. \<open>lifecycle\<close> is the state
  machine of \<open>docs/architecture.md\<close> on the database alone: what the whole system may do
  to it. The steps refine the machine, and the guarantees of the system are proved on the
  machine.
\<close>

section \<open>The steps of the system\<close>

text \<open>
  The statement the documentation gives the operator for a failed event:
  \<open>UPDATE webhook_events SET status='pending', attempts=0, next_attempt_at=NOW(),
  last_error=NULL, processed_at=NULL WHERE stripe_event_id = ...\<close>.
\<close>

definition replayed_row :: "datetime \<Rightarrow> webhook_event \<Rightarrow> webhook_event" where
  "replayed_row now row =
     row\<lparr>status := STATUS_PENDING, attempts := 0, next_attempt_at := now, last_error := None,
         processed_at := None\<rparr>"

text \<open>
  \<open>polls\<close> is one iteration of a worker's loop, with the rows other workers hold; \<open>killed\<close> a
  worker that dies with its transaction open, after the handler has called Metronome;
  \<open>elsewhere\<close> whatever Metronome does by itself.
\<close>

inductive system_step ::
  "verifier \<Rightarrow> settings \<Rightarrow> 'm sdk \<Rightarrow> 'm world \<Rightarrow> 'm world \<Rightarrow> bool"
  for construct_event :: verifier and cfg :: settings and sdk :: "'m sdk" where
  receives: "stripe_webhook construct_event cfg req w = (r, w') \<Longrightarrow>
    system_step construct_event cfg sdk w w'"
| polls: "iteration e cfg sdk locked w = (b, w') \<Longrightarrow> system_step construct_event cfg sdk w w'"
| killed: "claim_next_event e locked (committed w) = Some row \<Longrightarrow>
    handle_event e cfg sdk row (begin_session w) = (r, s) \<Longrightarrow>
    system_step construct_event cfg sdk w (rollback w s)"
| elsewhere: "system_step construct_event cfg sdk w (w\<lparr>server := m\<rparr>)"
| replays: "row \<in> set (webhook_events (committed w)) \<Longrightarrow> status row = STATUS_FAILED \<Longrightarrow>
    system_step construct_event cfg sdk w
      (w\<lparr>committed := save_event (replayed_row now row) (committed w)\<rparr>)"

section \<open>The lifecycle of the stored events\<close>

text \<open>What a processed event has brought about.\<close>

definition takes_effect :: "webhook_event \<Rightarrow> db \<Rightarrow> bool" where
  "takes_effect row d \<longleftrightarrow>
     (event_type row \<in> {''customer.created'', ''customer.updated''} \<longrightarrow>
        (\<exists>obj cid. extract_customer_object (payload row) = Inr obj \<and> dict_get obj ''id'' = PStr cid \<and>
           customer_row cid d \<noteq> None)) \<and>
     (event_type row = ''customer.subscription.created'' \<longrightarrow>
        (\<exists>obj sid cid srow. subscription_event (payload row) obj sid cid \<and> subscription_row sid d = Some srow \<and>
           customer_row (sm_stripe_customer_id srow) d \<noteq> None))"

inductive lifecycle :: "settings \<Rightarrow> db \<Rightarrow> db \<Rightarrow> bool" for cfg :: settings and d :: db where
  unchanged: "lifecycle cfg d d"
| stored: "i \<notin> stripe_event_id ` set (webhook_events d) \<Longrightarrow>
    lifecycle cfg d (d\<lparr>webhook_events := webhook_events d @ [new_event_row now i ty event]\<rparr>)"
| attempted: "row \<in> set (webhook_events d) \<Longrightarrow> claimable e locked row \<Longrightarrow> attempt_step e cfg row row' \<Longrightarrow>
    webhook_events d' = replace_event row' (webhook_events d) \<Longrightarrow>
    db_grows d (d'\<lparr>webhook_events := webhook_events d\<rparr>) \<Longrightarrow> (db_ok d \<longrightarrow> db_ok d') \<Longrightarrow>
    (if status row' = STATUS_PROCESSED then db_ok d \<longrightarrow> takes_effect row' d'
     else customer_mappings d' = customer_mappings d \<and> subscription_mappings d' = subscription_mappings d) \<Longrightarrow>
    lifecycle cfg d d'"
| replayed: "row \<in> set (webhook_events d) \<Longrightarrow> status row = STATUS_FAILED \<Longrightarrow>
    lifecycle cfg d (save_event (replayed_row now row) d)"

inductive_cases lifecycleE: "lifecycle cfg d d'"

section \<open>The steps refine the lifecycle\<close>

lemma handler_takes_effect:
  fixes sdk :: "'m sdk"
  assumes h: "map_of HANDLERS (event_type row) = Some h"
    and run: "h e cfg sdk (stripe_event_id row) (payload row) s = (Inr (), t)" and ok: "db_ok (tx s)"
  shows "takes_effect row (tx t)"
proof -
  have customer: "\<exists>obj cid. extract_customer_object (payload row) = Inr obj \<and> dict_get obj ''id'' = PStr cid \<and>
      customer_row cid (tx t) \<noteq> None"
    if "event_type row \<in> {''customer.created'', ''customer.updated''}"
  proof -
    from that have "\<exists>r. handle_customer_event (event_type row) e sdk (stripe_event_id row) (payload row) s = (Inr r, t)"
      using h run
      by (elim insertE emptyE)
        (auto simp: HANDLERS_def discard_def bnd_eq_Inr ret_def handle_customer_created_def handle_customer_updated_def)
    then obtain r where
      "handle_customer_event (event_type row) e sdk (stripe_event_id row) (payload row) s = (Inr r, t)" ..
    from customer_event_post [OF this ok] show ?thesis by blast
  qed
  have subscription: "\<exists>obj sid cid srow. subscription_event (payload row) obj sid cid \<and>
      subscription_row sid (tx t) = Some srow \<and> customer_row (sm_stripe_customer_id srow) (tx t) \<noteq> None"
    if "event_type row = ''customer.subscription.created''"
  proof -
    from that have "\<exists>r. handle_subscription_created e cfg sdk (stripe_event_id row) (payload row) s = (Inr r, t)"
      using h run by (auto simp: HANDLERS_def discard_def bnd_eq_Inr ret_def)
    then obtain r where
      "handle_subscription_created e cfg sdk (stripe_event_id row) (payload row) s = (Inr r, t)" ..
    from subscription_created_post [OF this] show ?thesis by blast
  qed
  show ?thesis unfolding takes_effect_def using customer subscription by blast
qed

lemma unregistered_takes_effect:
  "map_of (HANDLERS :: (string \<times> 'm handler_fn) list) (event_type row) = None \<Longrightarrow> takes_effect row d"
  by (auto simp: takes_effect_def HANDLERS_def)

lemma handle_event_effect:
  fixes sdk :: "'m sdk"
  assumes "handle_event e cfg sdk row s = (Inr row', t)" and "db_ok (tx s)" and "status row' = STATUS_PROCESSED"
  shows "takes_effect row (tx t)"
  using assms(1)
proof (cases rule: handle_event_Inr)
  case ignored
  then show ?thesis by (simp add: unregistered_takes_effect)
next
  case (handled h)
  then show ?thesis using handler_takes_effect assms(2) by blast
next
  case (failed h exc u)
  from failed(3) assms(3) show ?thesis
    by (cases rule: attempt_failed_Inr) (auto simp: mark_failed_def dest!: schedule_retry_Inr)
qed

lemma takes_effect_content:
  "event_type row' = event_type row \<Longrightarrow> payload row' = payload row \<Longrightarrow> takes_effect row' d = takes_effect row d"
  by (simp add: takes_effect_def)

lemma takes_effect_tables:
  "customer_mappings d' = customer_mappings d \<Longrightarrow> subscription_mappings d' = subscription_mappings d \<Longrightarrow>
     takes_effect row d' = takes_effect row d"
  by (simp add: takes_effect_def customer_row_def subscription_row_def)

lemma process_one_lifecycle_step:
  assumes "process_one e cfg sdk locked w = (r, w')"
  shows "lifecycle cfg (committed w) (committed w')"
proof -
  consider (exc) x where "r = Inl x" | (none) "r = Inr False" | (some) "r = Inr True"
    by (metis (full_types) sum.exhaust)
  then show ?thesis
  proof cases
    case exc
    with assms show ?thesis using process_one_Inl by (metis unchanged)
  next
    case none
    with assms show ?thesis by (simp add: process_one_False unchanged)
  next
    case some
    show ?thesis
    proof (rule process_one_True [OF assms [unfolded some]])
      fix row row' s
      assume claim: "claim_next_event e locked (committed w) = Some row"
        and run: "handle_event e cfg sdk row (begin_session w) = (Inr row', s)"
        and step: "attempt_step e cfg row row'" and w': "w' = commit row' s"
      have grows: "db_grows (committed w) (tx s)" using handle_event_db(1) [OF run] by simp
      then have rows: "webhook_events (tx s) = webhook_events (committed w)" by (simp add: db_grows_def)
      have effect: "takes_effect row' (committed w')" if "status row' = STATUS_PROCESSED" "db_ok (committed w)"
        using handle_event_effect [OF run _ that(1)] that(2) attempt_step_content [OF step] w'
        by (simp add: commit_def takes_effect_content [of row' row] takes_effect_tables [of "save_event row' (tx s)" "tx s"])
      show ?thesis
      proof (rule attempted [OF _ _ step])
        show "row \<in> set (webhook_events (committed w))" "claimable e locked row"
          using claim_Some [OF claim] by blast+
        show "webhook_events (committed w') = replace_event row' (webhook_events (committed w))"
          using rows by (simp add: w' commit_def save_event_rows)
        show "db_grows (committed w) ((committed w')\<lparr>webhook_events := webhook_events (committed w)\<rparr>)"
          using grows by (simp add: w' commit_def db_grows_def)
        show "db_ok (committed w) \<longrightarrow> db_ok (committed w')" using process_one_ok [OF assms] by blast
        show "if status row' = STATUS_PROCESSED then db_ok (committed w) \<longrightarrow> takes_effect row' (committed w')
            else customer_mappings (committed w') = customer_mappings (committed w) \<and>
              subscription_mappings (committed w') = subscription_mappings (committed w)"
          using effect handle_event_db(3) [OF run] by (simp add: w' commit_def)
      qed
    qed
  qed
qed

lemma webhook_lifecycle_step:
  assumes "stripe_webhook construct_event cfg req w = (r, w')"
  shows "lifecycle cfg (committed w) (committed w')"
proof (cases r)
  case (Inl exc)
  with assms show ?thesis using webhook_Inl by (metis unchanged)
next
  case (Inr resp)
  with assms obtain event i ty inserted d where
    ins: "insert_event_or_nothing (new_event_row (received_now req) i ty event) (committed w) = (inserted, d)"
    and w': "committed w' = d"
    by (auto simp: webhook_Inr)
  have "stripe_event_id (new_event_row (received_now req) i ty event) = i" by (simp add: new_event_row_def)
  then consider "committed w' = committed w"
    | "i \<notin> stripe_event_id ` set (webhook_events (committed w))"
      "committed w' = (committed w)\<lparr>webhook_events := webhook_events (committed w) @
         [new_event_row (received_now req) i ty event]\<rparr>"
    using ins w' by (auto simp: insert_event_or_nothing_def split: if_splits)
  then show ?thesis by cases (simp_all add: unchanged stored)
qed

lemma system_step_lifecycle:
  "system_step construct_event cfg sdk w w' \<Longrightarrow> lifecycle cfg (committed w) (committed w')"
proof (induction rule: system_step.induct)
  case (receives req w r w')
  then show ?case by (rule webhook_lifecycle_step)
next
  case (polls e locked w b w')
  then show ?case using iteration_committed process_one_lifecycle_step by metis
next
  case (killed e locked w row r s)
  show ?case by (simp add: rollback_def unchanged)
next
  case (elsewhere w m)
  show ?case by (simp add: unchanged)
next
  case (replays row w now)
  then show ?case by (simp add: replayed)
qed

section \<open>What every reachable database satisfies\<close>

text \<open>
  A stored event is pending with attempts left, processed, or failed with a reason; the
  status \<open>processing\<close> never occurs.
\<close>

definition row_ok :: "settings \<Rightarrow> webhook_event \<Rightarrow> bool" where
  "row_ok cfg r \<longleftrightarrow> 0 \<le> attempts r \<and> attempts r \<le> worker_max_attempts cfg \<and>
     (if status r = STATUS_PENDING
      then processed_at r = None \<and> attempts r < worker_max_attempts cfg \<and> (last_error r = None \<longleftrightarrow> attempts r = 0)
      else if status r = STATUS_PROCESSED
      then processed_at r \<noteq> None \<and> 1 \<le> attempts r \<and> last_error r = None
      else status r = STATUS_FAILED \<and> processed_at r \<noteq> None \<and> 1 \<le> attempts r \<and>
        (\<exists>m. last_error r = Some (''PERMANENT: '' @ m) \<or>
           attempts r = worker_max_attempts cfg \<and> last_error r = Some (''EXHAUSTED RETRIES: '' @ m)))"

definition system_ok :: "settings \<Rightarrow> db \<Rightarrow> bool" where
  "system_ok cfg d \<longleftrightarrow> db_ok d \<and>
     (\<forall>r \<in> set (webhook_events d). row_ok cfg r \<and> (status r = STATUS_PROCESSED \<longrightarrow> takes_effect r d))"

text \<open>What no step takes away.\<close>

definition persists :: "db \<Rightarrow> db \<Rightarrow> bool" where
  "persists d d' \<longleftrightarrow>
     (\<forall>i r. event_row i d = Some r \<longrightarrow>
        (\<exists>r'. event_row i d' = Some r' \<and> event_type r' = event_type r \<and> payload r' = payload r \<and>
           received_at r' = received_at r \<and> (status r = STATUS_PROCESSED \<longrightarrow> r' = r))) \<and>
     (\<forall>k r. customer_row k d = Some r \<longrightarrow>
        (\<exists>r'. customer_row k d' = Some r' \<and> cm_metronome_customer_id r' = cm_metronome_customer_id r)) \<and>
     (\<forall>k r. subscription_row k d = Some r \<longrightarrow> subscription_row k d' = Some r)"

lemma persistsD:
  assumes "persists d d'"
  shows "event_row i d = Some r \<Longrightarrow>
      \<exists>r'. event_row i d' = Some r' \<and> event_type r' = event_type r \<and> payload r' = payload r \<and>
        received_at r' = received_at r \<and> (status r = STATUS_PROCESSED \<longrightarrow> r' = r)"
    and "customer_row k d = Some c \<Longrightarrow>
      \<exists>c'. customer_row k d' = Some c' \<and> cm_metronome_customer_id c' = cm_metronome_customer_id c"
    and "subscription_row k d = Some q \<Longrightarrow> subscription_row k d' = Some q"
  using assms unfolding persists_def by blast+

lemma persists_refl: "persists d d"
  by (simp add: persists_def)

lemma persists_trans: "persists a b \<Longrightarrow> persists b c \<Longrightarrow> persists a c"
proof -
  assume p: "persists a b" "persists b c"
  show "persists a c"
    unfolding persists_def
  proof (intro conjI allI impI)
    fix i r
    assume "event_row i a = Some r"
    from persistsD(1) [OF p(1) this] obtain r' where "event_row i b = Some r'" "event_type r' = event_type r"
      "payload r' = payload r" "received_at r' = received_at r" "status r = STATUS_PROCESSED \<longrightarrow> r' = r"
      by blast
    with persistsD(1) [OF p(2) this(1)]
    show "\<exists>r'. event_row i c = Some r' \<and> event_type r' = event_type r \<and> payload r' = payload r \<and>
        received_at r' = received_at r \<and> (status r = STATUS_PROCESSED \<longrightarrow> r' = r)" by auto
  next
    fix k r
    assume "customer_row k a = Some r"
    from persistsD(2) [OF p(1) this] persistsD(2) [OF p(2)]
    show "\<exists>r'. customer_row k c = Some r' \<and> cm_metronome_customer_id r' = cm_metronome_customer_id r" by metis
  qed (use persistsD(3) p in blast)
qed

lemma empty_system_ok: "system_ok cfg empty_db"
  by (simp add: system_ok_def db_ok_def empty_db_def)

lemma db_grows_persists:
  assumes "db_grows d (d'\<lparr>webhook_events := webhook_events d\<rparr>)"
  shows "customer_row k d = Some r \<Longrightarrow>
      \<exists>r'. customer_row k d' = Some r' \<and> cm_metronome_customer_id r' = cm_metronome_customer_id r"
    and "subscription_row k d = Some q \<Longrightarrow> subscription_row k d' = Some q"
proof -
  show "subscription_row k d = Some q \<Longrightarrow> subscription_row k d' = Some q"
    using db_grows_subscription [OF assms, of k q] by (simp add: subscription_row_def)
  assume "customer_row k d = Some r"
  then obtain r' where "customer_row k (d'\<lparr>webhook_events := webhook_events d\<rparr>) = Some r'" "cm_ids r' = cm_ids r"
    using db_grows_customer [OF assms] by blast
  then show "\<exists>r'. customer_row k d' = Some r' \<and> cm_metronome_customer_id r' = cm_metronome_customer_id r"
    by (auto simp: customer_row_def cm_ids_def)
qed

lemma takes_effectD:
  "takes_effect r d \<Longrightarrow> event_type r \<in> {''customer.created'', ''customer.updated''} \<Longrightarrow>
     \<exists>obj cid. extract_customer_object (payload r) = Inr obj \<and> dict_get obj ''id'' = PStr cid \<and> customer_row cid d \<noteq> None"
  "takes_effect r d \<Longrightarrow> event_type r = ''customer.subscription.created'' \<Longrightarrow>
     \<exists>obj sid cid srow. subscription_event (payload r) obj sid cid \<and> subscription_row sid d = Some srow \<and>
       customer_row (sm_stripe_customer_id srow) d \<noteq> None"
  unfolding takes_effect_def by (drule conjunct1, erule (1) mp) (drule conjunct2, erule (1) mp)

lemma takes_effect_mono:
  assumes "takes_effect r d"
    and mapped: "\<And>k. customer_row k d \<noteq> None \<Longrightarrow> customer_row k d' \<noteq> None"
    and kept: "\<And>k q. subscription_row k d = Some q \<Longrightarrow> subscription_row k d' = Some q"
  shows "takes_effect r d'"
  unfolding takes_effect_def
proof (intro conjI impI)
  assume "event_type r \<in> {''customer.created'', ''customer.updated''}"
  from takes_effectD(1) [OF assms(1) this] obtain obj cid where ev: "extract_customer_object (payload r) = Inr obj"
    "dict_get obj ''id'' = PStr cid" and row: "customer_row cid d \<noteq> None" by (elim exE conjE)
  show "\<exists>obj cid. extract_customer_object (payload r) = Inr obj \<and> dict_get obj ''id'' = PStr cid \<and>
      customer_row cid d' \<noteq> None"
    by (rule exI, rule exI, rule conjI [OF ev(1) conjI [OF ev(2) mapped [OF row]]])
next
  assume "event_type r = ''customer.subscription.created''"
  from takes_effectD(2) [OF assms(1) this] obtain obj sid cid srow where ev: "subscription_event (payload r) obj sid cid"
    and srow: "subscription_row sid d = Some srow" and row: "customer_row (sm_stripe_customer_id srow) d \<noteq> None"
    by (elim exE conjE)
  show "\<exists>obj sid cid srow. subscription_event (payload r) obj sid cid \<and>
      subscription_row sid d' = Some srow \<and> customer_row (sm_stripe_customer_id srow) d' \<noteq> None"
    by (rule exI, rule exI, rule exI, rule exI, rule conjI [OF ev conjI [OF kept [OF srow] mapped [OF row]]])
qed

lemma takes_effect_persists:
  assumes "persists d d'" "takes_effect r d"
  shows "takes_effect r d'"
proof (rule takes_effect_mono [OF assms(2)])
  show "customer_row k d' \<noteq> None" if "customer_row k d \<noteq> None" for k using that persistsD(2) [OF assms(1)] by blast
qed (rule persistsD(3) [OF assms(1)])

lemma new_event_row_simps [simp]:
  "stripe_event_id (new_event_row now i ty event) = i" "event_type (new_event_row now i ty event) = ty"
  "payload (new_event_row now i ty event) = event" "status (new_event_row now i ty event) = STATUS_PENDING"
  "attempts (new_event_row now i ty event) = 0" "received_at (new_event_row now i ty event) = now"
  by (simp_all add: new_event_row_def)

lemma event_row_save:
  "event_row i (save_event row d) =
     (if i = stripe_event_id row \<and> i \<in> stripe_event_id ` set (webhook_events d) then Some row else event_row i d)"
  by (auto simp: event_row_def save_event_rows event_row_replace)

lemma event_row_member: "db_ok d \<Longrightarrow> row \<in> set (webhook_events d) \<Longrightarrow> event_row (stripe_event_id row) d = Some row"
  using events.lookup_Some_iff [of d "stripe_event_id row" row] by (simp add: db_ok_def)

lemma lifecycle_persists:
  assumes "lifecycle cfg d d'" and "db_ok d"
  shows "persists d d'"
  using assms(1)
proof (cases rule: lifecycle.cases)
  case unchanged
  then show ?thesis by (simp add: persists_refl)
next
  case (stored i now ty event)
  then show ?thesis
    by (auto simp: persists_def event_row_def customer_row_def subscription_row_def find_append find_eq_None)
next
  case (attempted row e locked row')
  have "event_row i d' = (if i = stripe_event_id row then Some row' else event_row i d)" for i
    using attempted(1,4) attempt_step_id [OF attempted(3)] by (auto simp: event_row_def event_row_replace)
  moreover have "event_row (stripe_event_id row) d = Some row" using event_row_member assms(2) attempted(1) .
  moreover have "status row \<noteq> STATUS_PROCESSED" using attempted(2) by (simp add: claimable_def)
  ultimately have "\<exists>r'. event_row i d' = Some r' \<and> event_type r' = event_type r \<and> payload r' = payload r \<and>
      received_at r' = received_at r \<and> (status r = STATUS_PROCESSED \<longrightarrow> r' = r)" if "event_row i d = Some r" for i r
    using that attempt_step_content [OF attempted(3)] by auto
  then show ?thesis
    unfolding persists_def using db_grows_persists [OF attempted(5)] by blast
next
  case (replayed row now)
  have "event_row (stripe_event_id row) d = Some row" using event_row_member assms(2) replayed(2) .
  then show ?thesis using replayed
    by (auto simp: persists_def event_row_save replayed_row_def customer_row_def subscription_row_def)
qed

lemma attempt_step_row_ok:
  "attempt_step e cfg row row' \<Longrightarrow> status row = STATUS_PENDING \<Longrightarrow> row_ok cfg row \<Longrightarrow> row_ok cfg row'"
  by (auto simp: row_ok_def elim!: attempt_stepE)

lemma replace_event_member:
  "r \<in> set (replace_event row rows) \<Longrightarrow> r = row \<or> r \<in> set rows"
  by (auto simp: replace_event_def split: if_splits)

lemma lifecycle_ok:
  assumes "lifecycle cfg d d'" and "system_ok cfg d" and "1 \<le> worker_max_attempts cfg"
  shows "system_ok cfg d'"
proof -
  have ok: "db_ok d" and rows: "\<And>r. r \<in> set (webhook_events d) \<Longrightarrow> row_ok cfg r"
    and effects: "\<And>r. r \<in> set (webhook_events d) \<Longrightarrow> status r = STATUS_PROCESSED \<Longrightarrow> takes_effect r d"
    using assms(2) by (auto simp: system_ok_def)
  note keeps = takes_effect_persists [OF lifecycle_persists [OF assms(1) ok]]
  show ?thesis
    using assms(1)
  proof (cases rule: lifecycle.cases)
    case unchanged
    with assms(2) show ?thesis by simp
  next
    case (stored i now ty event)
    have "row_ok cfg (new_event_row now i ty event)" using assms(3) by (simp add: row_ok_def new_event_row_def)
    moreover have "db_ok d'" using ok stored by (simp add: db_ok_def)
    ultimately show ?thesis using stored rows effects keeps by (auto simp: system_ok_def)
  next
    case (attempted row e locked row')
    have "status row = STATUS_PENDING" using attempted(2) by (simp add: claimable_def)
    then have "row_ok cfg row'" using attempt_step_row_ok attempted(3) rows attempted(1) by blast
    moreover have "takes_effect row' d'" if "status row' = STATUS_PROCESSED" using attempted(7) that ok by simp
    ultimately show ?thesis
      using attempted(4,6) ok rows effects keeps by (auto simp: system_ok_def dest!: replace_event_member)
  next
    case (replayed row now)
    have "row_ok cfg (replayed_row now row)" using assms(3) by (simp add: row_ok_def replayed_row_def)
    moreover have "status (replayed_row now row) = STATUS_PENDING" by (simp add: replayed_row_def)
    ultimately show ?thesis
      using replayed(1) ok rows effects keeps save_event_ok
      by (auto simp: system_ok_def save_event_rows dest!: replace_event_member)
  qed
qed

lemma system_steps_sound:
  assumes "(system_step construct_event cfg sdk)\<^sup>*\<^sup>* w w'"
    and "system_ok cfg (committed w)" and "1 \<le> worker_max_attempts cfg"
  shows "system_ok cfg (committed w') \<and> persists (committed w) (committed w')"
  using assms(1)
proof (induction rule: rtranclp_induct)
  case base
  show ?case using assms(2) by (simp add: persists_refl)
next
  case (step u v)
  from step.hyps(2) have "lifecycle cfg (committed u) (committed v)" by (rule system_step_lifecycle)
  moreover have "system_ok cfg (committed u)" "db_ok (committed u)" using step.IH by (auto simp: system_ok_def)
  ultimately show ?case
    using step.IH lifecycle_ok [OF _ _ assms(3)] lifecycle_persists persists_trans by blast
qed

section \<open>Draining the queue\<close>

text \<open>
  One worker alone, iteration after iteration: the results of its transactions, and the
  state after them.
\<close>

fun drain :: "settings \<Rightarrow> 'm sdk \<Rightarrow> env list \<Rightarrow> 'm world \<Rightarrow> (exn + bool) list \<times> 'm world" where
  "drain cfg sdk [] w = ([], w)"
| "drain cfg sdk (e # es) w =
     (case process_one e cfg sdk {} w of (r, u) \<Rightarrow>
        (case drain cfg sdk es (snd (iteration e cfg sdk {} w)) of (rs, w') \<Rightarrow> (r # rs, w')))"

lemma drain_is_run_loop: "snd (run_loop cfg sdk (map (\<lambda>e. (False, e, {})) es) w) = snd (drain cfg sdk es w)"
  by (induction es arbitrary: w) (auto split: prod.split)

definition settled :: "db \<Rightarrow> bool" where
  "settled d \<longleftrightarrow> (\<forall>r \<in> set (webhook_events d). status r \<in> {STATUS_PROCESSED, STATUS_FAILED})"

definition all_due :: "datetime \<Rightarrow> db \<Rightarrow> bool" where
  "all_due now d \<longleftrightarrow> (\<forall>r \<in> set (webhook_events d). status r = STATUS_PENDING \<longrightarrow> next_attempt_at r \<le> now)"

text \<open>
  The readings of iterations that are far enough apart: when the worker looks again, the
  longest delay it may have scheduled is over.
\<close>

fun spaced :: "settings \<Rightarrow> env list \<Rightarrow> bool" where
  "spaced cfg (e # f # es) =
     (0 \<le> draw e \<and> draw e \<le> 1 \<and> claim_now e \<le> claim_now f \<and>
      finish_now e + \<lceil>max 1 (worker_retry_cap_seconds cfg) * 1000000\<rceil> \<le> claim_now f \<and> spaced cfg (f # es))"
| "spaced cfg _ = True"

definition statuses_ok :: "db \<Rightarrow> bool" where
  "statuses_ok d \<longleftrightarrow> (\<forall>r \<in> set (webhook_events d). status r \<in> {STATUS_PENDING, STATUS_PROCESSED, STATUS_FAILED})"

lemma attempts_left_0:
  assumes "statuses_ok d" "attempts_left cfg d = 0"
  shows "settled d"
  unfolding settled_def
proof
  fix r
  assume r: "r \<in> set (webhook_events d)"
  then have "row_budget cfg r = 0" using assms(2) by (simp add: attempts_left_def)
  then have "status r \<noteq> STATUS_PENDING" by (auto simp: row_budget_def split: if_splits)
  with r assms(1) show "status r \<in> {STATUS_PROCESSED, STATUS_FAILED}" by (auto simp: statuses_ok_def)
qed

lemma settled_keeps: "settled (committed w) \<Longrightarrow> process_one e cfg sdk {} w = (Inr False, w)"
  by (auto simp: process_one_False claim_None settled_def claimable_def)

lemma pending_claimed:
  assumes "all_due (claim_now e) d" "\<not> settled d" "statuses_ok d"
  shows "claim_next_event e {} d \<noteq> None"
  using assms by (auto simp: claim_None all_due_def settled_def statuses_ok_def claimable_def)

lemma attempt_step_due:
  assumes "attempt_step e cfg row row'" "0 \<le> draw e" "draw e \<le> 1"
    "finish_now e + \<lceil>max 1 (worker_retry_cap_seconds cfg) * 1000000\<rceil> \<le> now" "status row' = STATUS_PENDING"
  shows "next_attempt_at row' \<le> now"
  using assms by (auto elim!: attempt_stepE)

lemma process_one_due:
  assumes "process_one e cfg sdk locked w = (Inr True, w')" "all_due (claim_now e) (committed w)"
    and "spaced cfg (e # f # es)"
  shows "all_due (claim_now f) (committed w')"
proof (rule process_one_db [OF assms(1)])
  fix row row'
  assume step: "attempt_step e cfg row row'"
    and rows: "webhook_events (committed w') = replace_event row' (webhook_events (committed w))"
  have "status row' = STATUS_PENDING \<Longrightarrow> next_attempt_at row' \<le> claim_now f"
    using attempt_step_due [OF step] assms(3) by simp
  with assms(2,3) show ?thesis
    by (fastforce simp: all_due_def rows dest!: replace_event_member)
qed

lemma process_one_statuses:
  assumes "process_one e cfg sdk locked w = (Inr True, w')" "statuses_ok (committed w)"
  shows "statuses_ok (committed w')"
proof (rule process_one_db [OF assms(1)])
  fix row row'
  assume "attempt_step e cfg row row'"
    and "webhook_events (committed w') = replace_event row' (webhook_events (committed w))"
  with assms(2) attempt_step_status show ?thesis
    by (fastforce simp: statuses_ok_def dest!: replace_event_member)
qed

lemma iteration_Inr: "process_one e cfg sdk locked w = (Inr b, u) \<Longrightarrow> iteration e cfg sdk locked w = (b, u)"
  by (simp add: iteration_def)

lemma drain_settled: "settled (committed w) \<Longrightarrow> snd (drain cfg sdk es w) = w"
proof (induction es)
  case (Cons e es)
  note none = settled_keeps [OF Cons.prems]
  from Cons show ?case by (simp add: none iteration_Inr [OF none] case_prod_beta)
qed simp

lemma drain_settles:
  assumes "drain cfg sdk es w = (rs, w')" "\<forall>r \<in> set rs. \<exists>b. r = Inr b"
    and "db_ok (committed w)" "statuses_ok (committed w)" "spaced cfg es"
    and "es \<noteq> [] \<Longrightarrow> all_due (claim_now (hd es)) (committed w)"
    and "attempts_left cfg (committed w) \<le> length es"
  shows "settled (committed w')"
  using assms
proof (induction es arbitrary: w rs)
  case Nil
  then show ?case by (auto intro: attempts_left_0)
next
  case (Cons e es)
  obtain b u where one: "process_one e cfg sdk {} w = (Inr b, u)"
    using Cons.prems(1,2) by (auto split: prod.splits)
  note it = iteration_Inr [OF one]
  obtain qs where rest: "drain cfg sdk es u = (qs, w')" "\<forall>r \<in> set qs. \<exists>b. r = Inr b"
    using Cons.prems(1,2) one it by (auto split: prod.splits)
  have spaced: "spaced cfg es" using Cons.prems(5) by (cases es) auto
  have due: "all_due (claim_now e) (committed w)" using Cons.prems(6) by simp
  have ok: "db_ok (committed u)" using process_one_ok [OF one Cons.prems(3)] .
  show ?case
  proof (cases b)
    case True
    with one have one: "process_one e cfg sdk {} w = (Inr True, u)" by simp
    have "attempts_left cfg (committed u) \<le> length es"
      using process_one_budget [OF one Cons.prems(3)] Cons.prems(7) by simp
    moreover have "all_due (claim_now (hd es)) (committed u)" if "es \<noteq> []"
      using process_one_due [OF one due] Cons.prems(5) that by (cases es) auto
    ultimately show ?thesis
      using Cons.IH [OF rest ok process_one_statuses [OF one Cons.prems(4)] spaced] by blast
  next
    case False
    with one have none: "claim_next_event e {} (committed w) = None" "u = w" by (simp_all add: process_one_False)
    with pending_claimed [OF due _ Cons.prems(4)] have "settled (committed w)" by blast
    from drain_settled [OF this] rest(1) none(2) have "w' = w" by (metis snd_conv)
    with \<open>settled (committed w)\<close> show ?thesis by simp
  qed
qed

lemma drain_ok:
  "drain cfg sdk es w = (rs, w') \<Longrightarrow> system_ok cfg (committed w) \<Longrightarrow> 1 \<le> worker_max_attempts cfg \<Longrightarrow>
     system_ok cfg (committed w')"
proof (induction es arbitrary: w rs)
  case (Cons e es)
  obtain b u where it: "iteration e cfg sdk {} w = (b, u)" by fastforce
  obtain qs where "drain cfg sdk es u = (qs, w')" using Cons.prems(1) it by (auto split: prod.splits)
  moreover have "lifecycle cfg (committed w) (committed u)"
    using iteration_committed [OF it] process_one_lifecycle_step by metis
  ultimately show ?case using Cons.IH lifecycle_ok Cons.prems(2,3) by blast
qed simp

lemma system_ok_statuses: "system_ok cfg d \<Longrightarrow> statuses_ok d"
  by (fastforce simp: system_ok_def statuses_ok_def row_ok_def split: if_splits)

section \<open>Properties\<close>

text \<open>C14: the system implements the lifecycle of its events. Every step, of the receiver, of a
  worker that commits, fails or is killed, of Metronome or of the operator, is on the
  database a step of the documented state machine: it stores a fresh pending event, makes
  one attempt on a pending one that is due, re-queues a failed one, or changes nothing.\<close>

theorem system_refines_lifecycle:
  assumes "system_step construct_event cfg sdk w w'"
  shows "lifecycle cfg (committed w) (committed w')"
  using assms by (rule system_step_lifecycle)

definition after_first_poll :: "unit world" where
  "after_first_poll = snd (iteration sample_env sample_settings (answering_sdk ''m_1'') {} (snd sample_answer))"

lemma sample_steps:
  "system_step sample_verifier sample_settings (answering_sdk ''m_1'') idle_world (snd sample_answer)"
  "system_step sample_verifier sample_settings (answering_sdk ''m_1'') (snd sample_answer) after_first_poll"
proof -
  show "system_step sample_verifier sample_settings (answering_sdk ''m_1'') idle_world (snd sample_answer)"
    by (rule receives [of _ _ sample_request _ "fst sample_answer"]) (simp add: sample_answer_def)
  show "system_step sample_verifier sample_settings (answering_sdk ''m_1'') (snd sample_answer) after_first_poll"
    by (rule polls [of sample_env _ _ "{}" _
        "fst (iteration sample_env sample_settings (answering_sdk ''m_1'') {} (snd sample_answer))"])
      (simp add: after_first_poll_def)
qed

lemma system_refines_lifecycle_witness:
  "lifecycle sample_settings (committed (snd sample_answer)) (committed after_first_poll)"
  using system_refines_lifecycle [OF sample_steps(2)] .

text \<open>Every reachable database is sound. From an empty database, or any sound one, and with
  settings that pass their checks, whatever the receiver, the workers, Metronome and the
  operator do in whatever order: the constraints hold; every event is pending with attempts
  left, processed, or failed with a reason; and a processed customer event has its customer
  mapped, a processed subscription event its contract and its customer.\<close>

lemma reachable_databases_are_sound:
  assumes "(system_step construct_event cfg sdk)\<^sup>*\<^sup>* w w'"
    and "committed w = empty_db \<or> system_ok cfg (committed w)" and "load_settings cfg = Inr cfg"
  shows "system_ok cfg (committed w')"
proof -
  have "1 \<le> worker_max_attempts cfg" using assms(3) by (simp add: load_settings_ok)
  moreover have "system_ok cfg (committed w)" using assms(2) empty_system_ok by metis
  ultimately show ?thesis using system_steps_sound [OF assms(1)] by blast
qed

lemma sample_settings_load: "load_settings sample_settings = Inr sample_settings"
  unfolding load_settings_ok by (intro conjI) (simp add: sample_settings_def, code_simp+)

lemma reachable_databases_are_sound_example:
  "system_ok sample_settings (committed after_first_poll) \<and>
     map status (webhook_events (committed after_first_poll)) = [''processed'']"
proof
  have "(system_step sample_verifier sample_settings (answering_sdk ''m_1''))\<^sup>*\<^sup>* idle_world after_first_poll"
    using sample_steps by (meson r_into_rtranclp rtranclp.rtrancl_into_rtrancl)
  then show "system_ok sample_settings (committed after_first_poll)"
    by (rule reachable_databases_are_sound) (simp_all add: idle_world_def sample_settings_load)
  show "map status (webhook_events (committed after_first_poll)) = [''processed'']" by code_simp
qed

text \<open>C4: nothing acknowledged is lost. Once the receiver has answered 200, whatever happens
  next: the event has a row with the type and the payload it was first received with, a row
  that is processed stays as it is, and no customer or subscription that is mapped loses its
  mapping or gets another Metronome id.\<close>

theorem acknowledged_events_are_kept:
  assumes "stripe_webhook construct_event cfg req w = (Inr resp, w1)"
    and "(system_step construct_event cfg sdk)\<^sup>*\<^sup>* w1 w2"
    and "system_ok cfg (committed w)" and "load_settings cfg = Inr cfg"
  shows "(\<exists>event i ty row. verify_and_parse_event construct_event (stack_room req) (raw_body req)
        (signature_header req) (stripe_webhook_secret cfg) = Inr event \<and>
      dict_get event ''id'' = PStr i \<and> dict_get event ''type'' = PStr ty \<and> event_row i (committed w2) = Some row \<and>
      (event_row i (committed w) = None \<longrightarrow> event_type row = ty \<and> payload row = event)) \<and>
    persists (committed w1) (committed w2)"
proof -
  have max: "1 \<le> worker_max_attempts cfg" using assms(4) by (simp add: load_settings_ok)
  have "lifecycle cfg (committed w) (committed w1)" using webhook_lifecycle_step assms(1) .
  with assms(3) max have "system_ok cfg (committed w1)" using lifecycle_ok by blast
  then have keeps: "persists (committed w1) (committed w2)" using system_steps_sound [OF assms(2) _ max] by blast
  obtain event i ty inserted d where ev: "verify_and_parse_event construct_event (stack_room req) (raw_body req)
      (signature_header req) (stripe_webhook_secret cfg) = Inr event"
    "dict_get event ''id'' = PStr i" "dict_get event ''type'' = PStr ty"
    and ins: "insert_event_or_nothing (new_event_row (received_now req) i ty event) (committed w) = (inserted, d)"
    and w1: "committed w1 = d"
    using assms(1) by (auto simp: webhook_Inr)
  from insert_event_cases [OF ins] w1 obtain row where row: "event_row i (committed w1) = Some row"
    "event_row i (committed w) = None \<longrightarrow> event_type row = ty \<and> payload row = event"
    by (cases "event_row i (committed w)") auto
  from persistsD(1) [OF keeps row(1)] obtain row' where "event_row i (committed w2) = Some row'"
    "event_type row' = event_type row" "payload row' = payload row" by blast
  with row(2) ev keeps show ?thesis by metis
qed

lemma acknowledged_events_are_kept_witness:
  "persists (committed (snd sample_answer)) (committed after_first_poll) \<and>
     event_row ''evt_1'' (committed after_first_poll) \<noteq> None"
proof -
  have answer: "stripe_webhook sample_verifier sample_settings sample_request idle_world =
      (Inr \<lparr>status_code = 200, content = [(''received'', PBool True), (''stripe_event_id'', PStr ''evt_1'')]\<rparr>,
       snd sample_answer)"
    using sample_answer_ok(1) by (simp add: sample_answer_def prod_eq_iff)
  have steps: "(system_step sample_verifier sample_settings (answering_sdk ''m_1''))\<^sup>*\<^sup>* (snd sample_answer) after_first_poll"
    by (rule r_into_rtranclp) (rule sample_steps(2))
  have "system_ok sample_settings (committed idle_world)" by (simp add: idle_world_def empty_system_ok)
  from acknowledged_events_are_kept [OF answer steps this sample_settings_load]
  show ?thesis by (auto simp: sample_verified sample_payload_def)
qed

text \<open>C5: the queue drains. Let one worker poll, no transaction raising an exception, at least as
  often as there are attempts left, from a sound database whose pending events are due, each
  time after the longest delay it may have scheduled before. Then the polling loop leaves no
  event pending: every one is processed, with its mapping in place, or failed with a reason.\<close>

theorem queue_drains:
  assumes "drain cfg sdk es w = (rs, w')" and "\<forall>r \<in> set rs. \<exists>b. r = Inr b"
    and "system_ok cfg (committed w)" and "load_settings cfg = Inr cfg"
    and "spaced cfg es" and "es \<noteq> [] \<Longrightarrow> all_due (claim_now (hd es)) (committed w)"
    and "attempts_left cfg (committed w) \<le> length es"
  shows "snd (run_loop cfg sdk (map (\<lambda>e. (False, e, {})) es) w) = w' \<and>
    settled (committed w') \<and> system_ok cfg (committed w')"
proof (intro conjI)
  show "snd (run_loop cfg sdk (map (\<lambda>e. (False, e, {})) es) w) = w'" using assms(1) by (simp add: drain_is_run_loop)
  show "settled (committed w')"
    using drain_settles [OF assms(1,2) _ _ assms(5-7)] system_ok_statuses [OF assms(3)] assms(3)
    by (auto simp: system_ok_def)
  show "system_ok cfg (committed w')" using drain_ok [OF assms(1,3)] assms(4) by (simp add: load_settings_ok)
qed

definition sample_readings :: "env list" where
  "sample_readings =
     [sample_env, sample_env\<lparr>claim_now := 4000000000, finish_now := 4000000001\<rparr>,
      sample_env\<lparr>claim_now := 8000000000, finish_now := 8000000001\<rparr>]"

lemma queue_drains_witness:
  "\<exists>w'. snd (run_loop sample_settings (failing_sdk (APIConnectionError ''down''))
        (map (\<lambda>e. (False, e, {})) sample_readings)
        (queued_world empty_db [sample_event ''customer.created'' sample_customer])) = w' \<and> settled (committed w')"
proof -
  let ?sdk = "failing_sdk (APIConnectionError ''down'')"
  let ?w = "queued_world empty_db [sample_event ''customer.created'' sample_customer]"
  have "fst (drain sample_settings ?sdk sample_readings ?w) = [Inr True, Inr True, Inr True]" by code_simp
  then have run: "drain sample_settings ?sdk sample_readings ?w =
      ([Inr True, Inr True, Inr True], snd (drain sample_settings ?sdk sample_readings ?w))"
    by (simp add: prod_eq_iff)
  have "system_ok sample_settings (committed ?w)"
    by (simp add: system_ok_def db_ok_def queued_world_def empty_db_def row_ok_def sample_event_def sample_settings_def)
  moreover have "spaced sample_settings sample_readings" by code_simp
  moreover have "all_due (claim_now (hd sample_readings)) (committed ?w)"
    by (simp add: all_due_def queued_world_def sample_event_def sample_readings_def sample_env_def)
  moreover have "attempts_left sample_settings (committed ?w) \<le> length sample_readings" by code_simp
  moreover have "\<forall>r \<in> set [Inr True, Inr True, Inr True :: exn + bool]. \<exists>b. r = Inr b" by auto
  ultimately show ?thesis
    using queue_drains [OF run _ _ sample_settings_load] by blast
qed

end
