(* ===== verification/Transactions.thy ===== *)
theory Transactions
  imports System
begin

text \<open>
  What a transaction of the worker writes, as a change of the committed tables that can be
  made later than the transaction has read them: \<open>replay\<close> makes the writes on the tables of
  the moment of the commit, with the constraints checked there. On the tables the
  transaction has read it gives the transaction's own version (\<open>replay_alone\<close>); of two
  transactions that insert the same customer the second is refused
  (\<open>second_insert_conflicts\<close>).
\<close>

section \<open>The writes of a transaction\<close>

text \<open>
  What a handler wrote is the difference between the tables it saw and its own version of
  them: the rows it added and the customer rows it touched. \<open>replay\<close> makes these writes on
  the committed tables. An \<open>INSERT\<close> whose key another transaction has just inserted waits
  for that transaction to end, and is then refused if the other has committed.
\<close>

fun insert_all :: "('r \<Rightarrow> db \<Rightarrow> exn + db) \<Rightarrow> 'r list \<Rightarrow> db \<Rightarrow> exn + db" where
  "insert_all ins [] d = Inr d"
| "insert_all ins (r # rs) d = try_bind (ins r d) (insert_all ins rs)"

definition touched :: "db \<Rightarrow> db \<Rightarrow> (string \<times> datetime) list" where
  "touched before own =
     map (\<lambda>(r, r'). (cm_stripe_customer_id r', cm_updated_at r'))
       (filter (\<lambda>(r, r'). r' \<noteq> r) (zip (customer_mappings before) (customer_mappings own)))"

fun touch_all :: "(string \<times> datetime) list \<Rightarrow> db \<Rightarrow> db" where
  "touch_all [] d = d"
| "touch_all ((k, t) # ts) d = touch_all ts (set_customer_updated_at k t d)"

definition replay :: "db \<Rightarrow> db \<Rightarrow> db \<Rightarrow> exn + db" where
  "replay before own d =
     try_bind (insert_all insert_customer_mapping
       (drop (length (customer_mappings before)) (customer_mappings own)) d) (\<lambda>d1.
     try_bind (insert_all insert_subscription_mapping
       (drop (length (subscription_mappings before)) (subscription_mappings own)) d1) (\<lambda>d2.
     Inr (touch_all (touched before own) d2)))"

lemma insert_customers:
  "insert_all insert_customer_mapping rs d = Inr d' \<Longrightarrow>
     customer_mappings d' = customer_mappings d @ rs \<and> webhook_events d' = webhook_events d \<and>
     subscription_mappings d' = subscription_mappings d \<and> (db_ok d \<longrightarrow> db_ok d')"
proof (induction rs arbitrary: d)
  case (Cons r rs)
  then obtain d1 where "insert_customer_mapping r d = Inr d1" "insert_all insert_customer_mapping rs d1 = Inr d'"
    by (auto simp: result_iffs)
  then show ?case using Cons.IH [of d1] by (simp add: insert_customer_frame) (blast intro: insert_customer_ok)
qed simp

lemma insert_subscriptions:
  "insert_all insert_subscription_mapping rs d = Inr d' \<Longrightarrow>
     subscription_mappings d' = subscription_mappings d @ rs \<and> webhook_events d' = webhook_events d \<and>
     customer_mappings d' = customer_mappings d \<and> (db_ok d \<longrightarrow> db_ok d')"
proof (induction rs arbitrary: d)
  case (Cons r rs)
  then obtain d1 where "insert_subscription_mapping r d = Inr d1" "insert_all insert_subscription_mapping rs d1 = Inr d'"
    by (auto simp: result_iffs)
  then show ?case using Cons.IH [of d1] by (simp add: insert_subscription_frame) (blast intro: insert_subscription_ok)
qed simp

lemma touch_all_frame:
  "webhook_events (touch_all ts d) = webhook_events d"
  "subscription_mappings (touch_all ts d) = subscription_mappings d"
  "map cm_ids (customer_mappings (touch_all ts d)) = map cm_ids (customer_mappings d)"
  "db_ok d \<Longrightarrow> db_ok (touch_all ts d)"
  by (induction ts d rule: touch_all.induct) (simp_all add: set_customer_updated_at_ok)

lemma replay_Inr:
  assumes "replay before own d = Inr d'"
  shows "webhook_events d' = webhook_events d"
    and "map cm_ids (customer_mappings d') = map cm_ids (customer_mappings d) @
      map cm_ids (drop (length (customer_mappings before)) (customer_mappings own))"
    and "subscription_mappings d' = subscription_mappings d @
      drop (length (subscription_mappings before)) (subscription_mappings own)"
    and "db_ok d \<Longrightarrow> db_ok d'"
  using assms by (auto simp: replay_def result_iffs touch_all_frame dest!: insert_customers insert_subscriptions)

lemma replay_grows: "replay before own d = Inr d' \<Longrightarrow> db_grows d d'"
  unfolding db_grows_def using replay_Inr(1-3) by blast

lemma touched_same: "touched d d = []"
proof -
  have "r' = r" if "(r, r') \<in> set (zip xs xs)" for r r' :: customer_mapping and xs
    using that by (induction xs) auto
  then show ?thesis by (auto simp: touched_def filter_empty_conv)
qed

lemma replay_nothing: "replay d d d' = Inr d'"
  by (simp add: replay_def touched_same)

text \<open>\<open>tables_grow\<close>: a later state of the mapping tables, which only ever gain rows.\<close>

definition tables_grow :: "db \<Rightarrow> db \<Rightarrow> bool" where
  "tables_grow d d' \<longleftrightarrow>
     (\<exists>xs. map cm_ids (customer_mappings d') = map cm_ids (customer_mappings d) @ xs) \<and>
     (\<exists>ys. subscription_mappings d' = subscription_mappings d @ ys)"

lemma tables_grow_refl: "tables_grow d d"
  by (simp add: tables_grow_def)

lemma tables_grow_trans: "tables_grow a b \<Longrightarrow> tables_grow b c \<Longrightarrow> tables_grow a c"
  unfolding tables_grow_def by (metis append.assoc)

lemma db_grows_tables: "db_grows d d' \<Longrightarrow> tables_grow d d'"
  by (simp add: db_grows_def tables_grow_def)

lemma lifecycle_tables: "lifecycle cfg d d' \<Longrightarrow> tables_grow d d'"
  by (erule lifecycleE) (auto simp: tables_grow_def db_grows_def)

lemma customer_row_iff: "customer_row k d \<noteq> None \<longleftrightarrow> k \<in> fst ` set (map cm_ids (customer_mappings d))"
  using customers.lookup_None_iff [of k d] by (force simp: cm_ids_def)

lemma tables_grow_drop:
  assumes "tables_grow before own"
  shows "map cm_ids (customer_mappings own) =
      map cm_ids (customer_mappings before) @ map cm_ids (drop (length (customer_mappings before)) (customer_mappings own))"
    and "subscription_mappings own =
      subscription_mappings before @ drop (length (subscription_mappings before)) (subscription_mappings own)"
proof -
  obtain xs ys where xs: "map cm_ids (customer_mappings own) = map cm_ids (customer_mappings before) @ xs"
    and ys: "subscription_mappings own = subscription_mappings before @ ys"
    using assms by (auto simp: tables_grow_def)
  have "map cm_ids (drop (length (customer_mappings before)) (customer_mappings own)) = xs"
    unfolding drop_map [symmetric] xs by simp
  with xs show "map cm_ids (customer_mappings own) =
      map cm_ids (customer_mappings before) @ map cm_ids (drop (length (customer_mappings before)) (customer_mappings own))"
    by simp
  from ys show "subscription_mappings own =
      subscription_mappings before @ drop (length (subscription_mappings before)) (subscription_mappings own)" by simp
qed

text \<open>What a transaction sees in its own version of the tables is there after its commit.\<close>

lemma replay_visible:
  assumes "replay before own d = Inr d'" and "tables_grow before own" and "tables_grow before d" and "db_ok d"
  shows "customer_row k own \<noteq> None \<Longrightarrow> customer_row k d' \<noteq> None"
    and "subscription_row sid own = Some srow \<Longrightarrow> subscription_row sid d' = Some srow"
proof -
  note own = tables_grow_drop [OF assms(2)] and now = tables_grow_drop [OF assms(3)]
  have "set (map cm_ids (customer_mappings own)) \<subseteq> set (map cm_ids (customer_mappings d'))"
    unfolding replay_Inr(2) [OF assms(1)] by (subst own(1), subst now(1)) auto
  then show "customer_row k own \<noteq> None \<Longrightarrow> customer_row k d' \<noteq> None"
    unfolding customer_row_iff by (meson image_mono subsetD)
  assume "subscription_row sid own = Some srow"
  then have "srow \<in> set (subscription_mappings own)" "sm_stripe_subscription_id srow = sid"
    using subscriptions.lookup_hit by blast+
  moreover have "set (subscription_mappings own) \<subseteq> set (subscription_mappings d')"
    unfolding replay_Inr(3) [OF assms(1)] by (subst own(2), subst now(2)) auto
  moreover have "db_ok d'" using replay_Inr(4) [OF assms(1,4)] .
  ultimately show "subscription_row sid d' = Some srow"
    using subscriptions.lookup_Some_iff [of d' sid srow] by (auto simp: db_ok_def)
qed

lemma replay_takes_effect:
  assumes "replay before own d = Inr d'" "tables_grow before own" "tables_grow before d" "db_ok d" "takes_effect r own"
  shows "takes_effect r d'"
  by (rule takes_effect_mono [OF assms(5)]) (rule replay_visible [OF assms(1-4)], assumption)+

section \<open>A transaction that runs alone\<close>

text \<open>On the tables the transaction has read, replaying its writes gives its own version of them.\<close>

fun touch_rows :: "(string \<times> datetime) list \<Rightarrow> customer_mapping list \<Rightarrow> customer_mapping list" where
  "touch_rows [] rs = rs"
| "touch_rows ((k, t) # ts) rs =
     touch_rows ts (map (\<lambda>r. if cm_stripe_customer_id r = k then r\<lparr>cm_updated_at := t\<rparr> else r) rs)"

lemma touch_all_rows: "touch_all ts d = d\<lparr>customer_mappings := touch_rows ts (customer_mappings d)\<rparr>"
  by (induction ts d rule: touch_all.induct) (simp_all add: set_customer_updated_at_def)

lemma touch_rows_miss:
  "cm_stripe_customer_id r \<notin> fst ` set ts \<Longrightarrow> touch_rows ts (r # rs) = r # touch_rows ts rs"
  by (induction ts rs rule: touch_rows.induct) auto

lemma touch_rows_untouched: "\<forall>r \<in> set rs. cm_stripe_customer_id r \<notin> fst ` set ts \<Longrightarrow> touch_rows ts rs = rs"
proof (induction rs)
  case Nil
  show ?case by (induction ts) auto
qed (simp add: touch_rows_miss)

definition changed :: "customer_mapping list \<Rightarrow> customer_mapping list \<Rightarrow> (string \<times> datetime) list" where
  "changed rs rs' =
     map (\<lambda>(r, r'). (cm_stripe_customer_id r', cm_updated_at r')) (filter (\<lambda>(r, r'). r' \<noteq> r) (zip rs rs'))"

lemma changed_keys: "fst ` set (changed rs rs') \<subseteq> cm_stripe_customer_id ` set rs'"
  by (auto simp: changed_def dest: set_zip_rightD)

lemma same_ids_update: "cm_ids r = cm_ids r' \<Longrightarrow> r\<lparr>cm_updated_at := cm_updated_at r'\<rparr> = r'"
  by (simp add: cm_ids_def)

lemma touch_changed:
  "map cm_ids rs = map cm_ids rs' \<Longrightarrow> distinct (map cm_stripe_customer_id (rs @ xs)) \<Longrightarrow>
     touch_rows (changed rs rs') (rs @ xs) = rs' @ xs"
proof (induction rs arbitrary: rs')
  case Nil
  then show ?case by (simp add: changed_def)
next
  case (Cons r rs)
  then obtain r' rs'' where rs': "rs' = r' # rs''" and ids: "cm_ids r = cm_ids r'" "map cm_ids rs = map cm_ids rs''"
    by (cases rs') auto
  have key: "cm_stripe_customer_id r' = cm_stripe_customer_id r" using ids(1) by (simp add: cm_ids_def)
  have "map cm_stripe_customer_id rs = map fst (map cm_ids rs)" by (simp add: cm_ids_def)
  then have keys: "map cm_stripe_customer_id rs'' = map cm_stripe_customer_id rs" using ids(2) by (simp add: cm_ids_def)
  have fresh: "cm_stripe_customer_id r \<notin> cm_stripe_customer_id ` set (rs @ xs)" using Cons.prems(2) by auto
  then have miss: "cm_stripe_customer_id r' \<notin> fst ` set (changed rs rs'')"
    using changed_keys [of rs rs''] key arg_cong [OF keys, of set] by auto
  have rest: "touch_rows (changed rs rs'') (rs @ xs) = rs'' @ xs" using Cons.IH [OF ids(2)] Cons.prems(2) by simp
  have same: "map (\<lambda>x. if cm_stripe_customer_id x = cm_stripe_customer_id r then x\<lparr>cm_updated_at := t\<rparr> else x) (rs @ xs) = rs @ xs"
    for t using fresh by (intro map_idI) (metis (no_types, lifting) image_eqI)
  show ?case
  proof (cases "r' = r")
    case True
    then show ?thesis using miss rest rs' by (simp add: changed_def touch_rows_miss)
  next
    case False
    then have "changed (r # rs) rs' = (cm_stripe_customer_id r, cm_updated_at r') # changed rs rs''"
      by (simp add: changed_def rs' key)
    then show ?thesis using same same_ids_update [OF ids(1)] touch_rows_miss [OF miss] rest rs' by simp
  qed
qed

lemma insert_customers_fresh:
  "distinct (map cm_stripe_customer_id (customer_mappings d @ rs)) \<Longrightarrow>
   distinct (map cm_metronome_customer_id (customer_mappings d @ rs)) \<Longrightarrow>
     insert_all insert_customer_mapping rs d = Inr (d\<lparr>customer_mappings := customer_mappings d @ rs\<rparr>)"
  by (induction rs arbitrary: d) (auto simp: insert_customer_mapping_def)

lemma insert_subscriptions_fresh:
  "distinct (map sm_stripe_subscription_id (subscription_mappings d @ rs)) \<Longrightarrow>
   distinct (map sm_metronome_contract_id (subscription_mappings d @ rs)) \<Longrightarrow>
   \<forall>r \<in> set rs. sm_stripe_customer_id r \<in> cm_stripe_customer_id ` set (customer_mappings d) \<Longrightarrow>
     insert_all insert_subscription_mapping rs d = Inr (d\<lparr>subscription_mappings := subscription_mappings d @ rs\<rparr>)"
  by (induction rs arbitrary: d) (auto simp: insert_subscription_mapping_def)

lemma replay_alone:
  assumes "db_grows d own" and "db_ok own"
  shows "replay d own d = Inr own"
proof -
  let ?n = "length (customer_mappings d)" and ?m = "length (subscription_mappings d)"
  let ?rs = "take ?n (customer_mappings own)" and ?xs = "drop ?n (customer_mappings own)"
    and ?ys = "drop ?m (subscription_mappings own)"
  note grow = tables_grow_drop [OF db_grows_tables [OF assms(1)]]
  have subs: "subscription_mappings own = subscription_mappings d @ ?ys" using grow(2) .
  have "map cm_ids ?rs @ map cm_ids ?xs = map cm_ids (customer_mappings d) @ map cm_ids ?xs"
    using grow(1) by (metis append_take_drop_id map_append)
  then have ids: "map cm_ids (customer_mappings d) = map cm_ids ?rs" by simp
  have keys: "map f (customer_mappings d @ ?xs) = map f (customer_mappings own)"
    if "\<And>r. f r = g (cm_ids r)" for f and g :: "string \<times> string \<times> datetime \<Rightarrow> string"
  proof -
    have "map f (customer_mappings d @ ?xs) = map g (map cm_ids (customer_mappings d) @ map cm_ids ?xs)"
      using that by simp
    also have "\<dots> = map f (customer_mappings own)" using that by (simp flip: grow(1))
    finally show ?thesis .
  qed
  have stripe: "map cm_stripe_customer_id (customer_mappings d @ ?xs) = map cm_stripe_customer_id (customer_mappings own)"
    by (rule keys [where g = fst]) (simp add: cm_ids_def)
  have metronome: "map cm_metronome_customer_id (customer_mappings d @ ?xs) = map cm_metronome_customer_id (customer_mappings own)"
    by (rule keys [where g = "fst \<circ> snd"]) (simp add: cm_ids_def)
  have ok: "distinct (map cm_stripe_customer_id (customer_mappings d @ ?xs))"
    "distinct (map cm_metronome_customer_id (customer_mappings d @ ?xs))"
    using assms(2) unfolding stripe metronome by (simp_all add: db_ok_def)
  let ?d1 = "d\<lparr>customer_mappings := customer_mappings d @ ?xs\<rparr>"
  have "insert_all insert_subscription_mapping ?ys ?d1 =
      Inr (?d1\<lparr>subscription_mappings := subscription_mappings ?d1 @ ?ys\<rparr>)"
  proof (rule insert_subscriptions_fresh)
    show "distinct (map sm_stripe_subscription_id (subscription_mappings ?d1 @ ?ys))"
      "distinct (map sm_metronome_contract_id (subscription_mappings ?d1 @ ?ys))"
      using assms(2) subs by (simp_all add: db_ok_def)
    have "cm_stripe_customer_id ` set (customer_mappings ?d1) = cm_stripe_customer_id ` set (customer_mappings own)"
      using arg_cong [OF stripe, of set] by (simp add: image_Un)
    then show "\<forall>r \<in> set ?ys. sm_stripe_customer_id r \<in> cm_stripe_customer_id ` set (customer_mappings ?d1)"
      using assms(2) by (auto simp: db_ok_def dest: in_set_dropD)
  qed
  moreover have "touched d own = changed (customer_mappings d) ?rs"
    using take_zip [of ?n "customer_mappings d" "customer_mappings own"] by (simp add: touched_def changed_def)
  moreover have "touch_rows (changed (customer_mappings d) ?rs) (customer_mappings d @ ?xs) = customer_mappings own"
    using touch_changed [OF ids ok(1)] by simp
  ultimately show ?thesis
    using insert_customers_fresh [OF ok] assms(1) subs
    by (simp add: replay_def touch_all_rows db_grows_def)
qed

section \<open>Two transactions on one customer\<close>

lemma insert_taken:
  assumes "k \<in> cm_stripe_customer_id ` set rs" and "k \<in> cm_stripe_customer_id ` set (customer_mappings d)"
  shows "\<exists>exc. insert_all insert_customer_mapping rs d = Inl exc"
proof (cases "insert_all insert_customer_mapping rs d")
  case (Inr d')
  have "\<not> k \<in> cm_stripe_customer_id ` set (customer_mappings d)"
    using Inr assms(1)
  proof (induction rs arbitrary: d)
    case (Cons r rs)
    then obtain d1 where d1: "insert_customer_mapping r d = Inr d1" "insert_all insert_customer_mapping rs d1 = Inr d'"
      by (auto simp: result_iffs)
    have new: "cm_stripe_customer_id r \<notin> cm_stripe_customer_id ` set (customer_mappings d)"
      "customer_mappings d1 = customer_mappings d @ [r]" using customers.insert_rows [OF d1(1)] by blast+
    from Cons.prems(2) Cons.IH [OF d1(2)] new show ?case by (cases "k = cm_stripe_customer_id r") simp_all
  qed simp
  with assms(2) show ?thesis by blast
qed blast

lemma second_insert_conflicts:
  assumes "tables_grow before own" and "customer_row k before = None" and "customer_row k own \<noteq> None"
    and "customer_row k d \<noteq> None"
  shows "\<exists>exc. replay before own d = Inl exc"
proof -
  let ?xs = "drop (length (customer_mappings before)) (customer_mappings own)"
  have "k \<notin> fst ` set (map cm_ids (customer_mappings before))" using assms(2) customer_row_iff by blast
  moreover have "k \<in> fst ` set (map cm_ids (customer_mappings before) @ map cm_ids ?xs)"
    using assms(3) unfolding customer_row_iff tables_grow_drop(1) [OF assms(1)] .
  ultimately have "k \<in> cm_stripe_customer_id ` set ?xs" by (force simp: cm_ids_def)
  moreover have "k \<in> cm_stripe_customer_id ` set (customer_mappings d)"
    using assms(4) by (simp add: customers.lookup_None_iff)
  ultimately obtain exc where "insert_all insert_customer_mapping ?xs d = Inl exc" using insert_taken by blast
  then show ?thesis by (simp add: replay_def)
qed

end
