(* ===== verification/Concurrency.thy ===== *)
theory Concurrency
  imports Transactions
begin

text \<open>
  Several workers at once, as \<open>docs/architecture.md\<close> allows (\<open>scale to N replicas safely\<close>):
  their transactions overlap on one PostgreSQL database at its default isolation level,
  \<open>READ COMMITTED\<close>. A transaction holds the lock of the row it claimed until it ends; each
  of its reads sees what is committed at that moment; its writes become visible when it
  commits, and are checked against what is committed then.
\<close>

section \<open>Overlapping transactions\<close>

text \<open>
  A transaction that holds its row, with the tables as it has read them so far; and one
  whose handler has run, with the row as it will be and its own version of the tables.
\<close>

datatype transaction =
    is_reading: Reading (txn_env: env) (txn_row: webhook_event) (seen: db)
  | Writing (txn_env: env) (txn_row: webhook_event) (seen: db) (new_row: webhook_event) (written: db)

record 'm cluster =
  shared :: db
  metronome_state :: 'm
  requests :: "sdk_call list"
  open_txn :: "nat \<Rightarrow> transaction option"

definition held :: "'m cluster \<Rightarrow> string set" where
  "held c = {stripe_event_id (txn_row t) | i t. open_txn c i = Some t}"

definition world_of :: "'m cluster \<Rightarrow> 'm world" where
  "world_of c = \<lparr>committed = shared c, server = metronome_state c, all_calls = requests c, all_log = []\<rparr>"

definition close_txn :: "nat \<Rightarrow> 'm cluster \<Rightarrow> 'm cluster" where
  "close_txn i c = c\<lparr>open_txn := (open_txn c)(i := None)\<rparr>"

definition after_calls :: "'m ctx \<Rightarrow> 'm cluster \<Rightarrow> 'm cluster" where
  "after_calls s c = c\<lparr>metronome_state := api s, requests := calls s\<rparr>"

text \<open>The session of a transaction that has read the tables \<open>d\<close>.\<close>

definition session_on :: "db \<Rightarrow> 'm cluster \<Rightarrow> 'm ctx" where
  "session_on d c = (begin_session (world_of c))\<lparr>tx := d\<rparr>"

text \<open>
  Each worker \<open>i\<close> steps on its own. \<open>claims\<close> is \<open>FOR UPDATE SKIP LOCKED\<close>: it passes over
  the rows that are locked while the statement runs, at least those other transactions hold
  now. \<open>reads_subscriptions\<close> and \<open>reads_customers\<close> renew what the transaction has seen: the
  handlers read at most one row of each table, the subscription before its customer.
  \<open>handles\<close> is the handler's run on what it has read, with its calls to Metronome;
  \<open>raises\<close> is a run that loses the transaction. \<open>commits\<close> and \<open>conflicts\<close> end it, the
  latter by the database refusing an \<open>INSERT\<close>: the session is then deactivated and the
  whole transaction rolled back. \<open>dies\<close> is a worker killed at any moment.
\<close>

inductive cluster_step ::
  "verifier \<Rightarrow> settings \<Rightarrow> 'm sdk \<Rightarrow> 'm cluster \<Rightarrow> 'm cluster \<Rightarrow> bool"
  for construct_event :: verifier and cfg :: settings and sdk :: "'m sdk" where
  receives: "stripe_webhook construct_event cfg req (world_of c) = (r, w') \<Longrightarrow>
    cluster_step construct_event cfg sdk c (c\<lparr>shared := committed w'\<rparr>)"
| claims: "open_txn c i = None \<Longrightarrow> held c \<subseteq> locked \<Longrightarrow>
    claim_next_event e locked (shared c) = Some row \<Longrightarrow>
    cluster_step construct_event cfg sdk c
      (c\<lparr>open_txn := (open_txn c)(i \<mapsto> Reading e row (shared c))\<rparr>)"
| reads_subscriptions: "open_txn c i = Some (Reading e row d) \<Longrightarrow>
    cluster_step construct_event cfg sdk c
      (c\<lparr>open_txn := (open_txn c)(i \<mapsto> Reading e row (shared c))\<rparr>)"
| reads_customers: "open_txn c i = Some (Reading e row d) \<Longrightarrow>
    cluster_step construct_event cfg sdk c
      (c\<lparr>open_txn := (open_txn c)(i \<mapsto> Reading e row (d\<lparr>customer_mappings := customer_mappings (shared c)\<rparr>))\<rparr>)"
| handles: "open_txn c i = Some (Reading e row d) \<Longrightarrow>
    handle_event e cfg sdk row (session_on d c) = (Inr row', s) \<Longrightarrow> \<not> deactivated s \<Longrightarrow>
    cluster_step construct_event cfg sdk c
      ((after_calls s c)\<lparr>open_txn := (open_txn c)(i \<mapsto> Writing e row d row' (tx s))\<rparr>)"
| raises: "open_txn c i = Some (Reading e row d) \<Longrightarrow>
    handle_event e cfg sdk row (session_on d c) = (r, s) \<Longrightarrow> isl r \<or> deactivated s \<Longrightarrow>
    cluster_step construct_event cfg sdk c (close_txn i (after_calls s c))"
| commits: "open_txn c i = Some (Writing e row d row' own) \<Longrightarrow> replay d own (shared c) = Inr d' \<Longrightarrow>
    cluster_step construct_event cfg sdk c (close_txn i (c\<lparr>shared := save_event row' d'\<rparr>))"
| conflicts: "open_txn c i = Some (Writing e row d row' own) \<Longrightarrow> replay d own (shared c) = Inl exc \<Longrightarrow>
    cluster_step construct_event cfg sdk c (close_txn i c)"
| dies: "open_txn c i = Some t \<Longrightarrow> cluster_step construct_event cfg sdk c (close_txn i c)"
| elsewhere: "cluster_step construct_event cfg sdk c (c\<lparr>metronome_state := m\<rparr>)"
| replays: "row \<in> set (webhook_events (shared c)) \<Longrightarrow> status row = STATUS_FAILED \<Longrightarrow>
    cluster_step construct_event cfg sdk c
      (c\<lparr>shared := save_event (replayed_row now row) (shared c)\<rparr>)"

section \<open>The invariant of the open transactions\<close>

text \<open>
  The row of an open transaction is still in the table as it was claimed, because its lock
  keeps every other writer away; and what the transaction has read is an earlier state of
  the tables, which only gain rows.
\<close>

fun txn_ok :: "settings \<Rightarrow> db \<Rightarrow> transaction \<Rightarrow> bool" where
  "txn_ok cfg d (Reading e row before) \<longleftrightarrow>
     row \<in> set (webhook_events d) \<and> claimable e {} row \<and> tables_grow before d \<and> db_ok before"
| "txn_ok cfg d (Writing e row before row' own) \<longleftrightarrow>
     row \<in> set (webhook_events d) \<and> claimable e {} row \<and> tables_grow before d \<and>
     attempt_step e cfg row row' \<and> tables_grow before own \<and>
     (if status row' = STATUS_PROCESSED then takes_effect row' own else own = before)"

definition cluster_ok :: "settings \<Rightarrow> 'm cluster \<Rightarrow> bool" where
  "cluster_ok cfg c \<longleftrightarrow> db_ok (shared c) \<and>
     (\<forall>i t. open_txn c i = Some t \<longrightarrow> txn_ok cfg (shared c) t) \<and>
     (\<forall>i j t u. open_txn c i = Some t \<longrightarrow> open_txn c j = Some u \<longrightarrow>
        stripe_event_id (txn_row t) = stripe_event_id (txn_row u) \<longrightarrow> i = j)"

lemma cluster_okD:
  assumes "cluster_ok cfg c"
  shows "db_ok (shared c)"
    and "open_txn c i = Some t \<Longrightarrow> txn_ok cfg (shared c) t"
    and "open_txn c i = Some t \<Longrightarrow> open_txn c j = Some u \<Longrightarrow>
      stripe_event_id (txn_row t) = stripe_event_id (txn_row u) \<Longrightarrow> i = j"
  using assms unfolding cluster_ok_def by blast+

lemma txn_ok_row: "txn_ok cfg d t \<Longrightarrow> txn_row t \<in> set (webhook_events d) \<and> claimable (txn_env t) {} (txn_row t)"
  by (cases t) auto

lemma txn_ok_mono:
  assumes "txn_ok cfg d t" and "txn_row t \<in> set (webhook_events d')" and "tables_grow d d'"
  shows "txn_ok cfg d' t"
  using assms by (cases t) (auto intro: tables_grow_trans)

lemma renewed_customers_ok:
  assumes "db_ok d" "db_ok before" "tables_grow before d"
  shows "db_ok (before\<lparr>customer_mappings := customer_mappings d\<rparr>)"
    and "tables_grow (before\<lparr>customer_mappings := customer_mappings d\<rparr>) d"
proof -
  have "k \<in> cm_stripe_customer_id ` set (customer_mappings d)"
    if "k \<in> cm_stripe_customer_id ` set (customer_mappings before)" for k
  proof -
    have "customer_row k before \<noteq> None" using that by (simp add: customers.lookup_None_iff)
    moreover have "set (map cm_ids (customer_mappings before)) \<subseteq> set (map cm_ids (customer_mappings d))"
      using assms(3) unfolding tables_grow_def by (metis set_append Un_upper1)
    ultimately have "customer_row k d \<noteq> None" unfolding customer_row_iff by (meson image_mono subsetD)
    then show ?thesis by (simp add: customers.lookup_None_iff)
  qed
  with assms(1,2) show "db_ok (before\<lparr>customer_mappings := customer_mappings d\<rparr>)"
    by (auto simp: db_ok_def)
  show "tables_grow (before\<lparr>customer_mappings := customer_mappings d\<rparr>) d"
    using assms(3) by (auto simp: tables_grow_def)
qed

text \<open>A step that leaves the rows of the open transactions alone keeps the invariant.\<close>

lemma cluster_ok_shared:
  assumes "cluster_ok cfg c" and "open_txn c' = open_txn c" and "db_ok (shared c')"
    and "tables_grow (shared c) (shared c')"
    and "\<And>i t. open_txn c i = Some t \<Longrightarrow> txn_row t \<in> set (webhook_events (shared c'))"
  shows "cluster_ok cfg c'"
proof -
  have "txn_ok cfg (shared c') t" if "open_txn c' i = Some t" for i t
    using that assms(1,2) txn_ok_mono [OF _ assms(5,4)] by (auto simp: cluster_ok_def)
  with assms(1-3) show ?thesis by (auto simp: cluster_ok_def)
qed

text \<open>A transaction that moves on with the same row keeps the invariant, and so does one that ends.\<close>

lemma cluster_ok_moves:
  assumes "cluster_ok cfg c" and "open_txn c i = Some t" and "txn_row u = txn_row t" and "txn_ok cfg (shared c) u"
    and "open_txn c' = (open_txn c)(i \<mapsto> u)" and "shared c' = shared c"
  shows "cluster_ok cfg c'"
  using assms unfolding cluster_ok_def by (auto split: if_splits)

lemma close_txn_simps [simp]:
  "shared (close_txn i c) = shared c" "open_txn (close_txn i c) = (open_txn c)(i := None)"
  "metronome_state (close_txn i c) = metronome_state c" "requests (close_txn i c) = requests c"
  "shared (after_calls s c) = shared c" "open_txn (after_calls s c) = open_txn c"
  "metronome_state (after_calls s c) = api s" "requests (after_calls s c) = calls s"
  by (simp_all add: close_txn_def after_calls_def)

lemma cluster_ok_closes:
  assumes "cluster_ok cfg c" and "open_txn c' = (open_txn c)(i := None)" and "shared c' = shared c"
  shows "cluster_ok cfg c'"
  using assms unfolding cluster_ok_def by (auto split: if_splits)

lemma session_on_simps [simp]:
  "tx (session_on d c) = d" "deactivated (session_on d c) = False"
  "calls (session_on d c) = requests c" "api (session_on d c) = metronome_state c"
  by (simp_all add: session_on_def world_of_def)

lemma txn_ok_handled:
  assumes "txn_ok cfg d (Reading e row before)"
    and "handle_event e cfg sdk row (session_on before c) = (Inr row', s)"
  shows "txn_ok cfg d (Writing e row before row' (tx s))"
proof -
  note effect = handle_event_effect [OF assms(2)] and db = handle_event_db [OF assms(2)]
  have step: "attempt_step e cfg row row'" using handle_event_step [OF assms(2)] .
  have "takes_effect row' (tx s)" if "status row' = STATUS_PROCESSED"
    using effect assms(1) that attempt_step_content [OF step] by (simp add: takes_effect_content [of row' row])
  then show ?thesis using assms(1) step db by (auto dest: db_grows_tables)
qed

lemma claimed_txn_ok:
  assumes "claim_next_event e locked d = Some row" and "db_ok d"
  shows "txn_ok cfg d (Reading e row d)" and "stripe_event_id row \<notin> locked"
  using claim_Some [OF assms(1)] assms(2) by (auto simp: claimable_def tables_grow_refl)

section \<open>Every step of the workers is a step of the lifecycle\<close>

lemma save_event_member:
  "x \<in> set (webhook_events d) \<Longrightarrow> stripe_event_id x \<noteq> stripe_event_id row \<Longrightarrow>
     x \<in> set (webhook_events (save_event row d))"
  by (force simp: save_event_def)

lemma same_id_same_row:
  "db_ok d \<Longrightarrow> x \<in> set (webhook_events d) \<Longrightarrow> y \<in> set (webhook_events d) \<Longrightarrow>
     stripe_event_id x = stripe_event_id y \<Longrightarrow> x = y"
  by (metis event_row_member option.inject)

lemma commit_lifecycle:
  assumes "txn_ok cfg d (Writing e row before row' own)" and "replay before own d = Inr d'" and "db_ok d"
  shows "lifecycle cfg d (save_event row' d')"
proof -
  from assms(1) have row: "row \<in> set (webhook_events d)" "claimable e {} row"
    and step: "attempt_step e cfg row row'" and grow: "tables_grow before d" "tables_grow before own"
    and effect: "if status row' = STATUS_PROCESSED then takes_effect row' own else own = before" by simp_all
  have events: "webhook_events d' = webhook_events d" and ok: "db_ok d'"
    using replay_Inr(1,4) [OF assms(2)] assms(3) by blast+
  show ?thesis
  proof (rule attempted [OF row step])
    show "webhook_events (save_event row' d') = replace_event row' (webhook_events d)"
      by (simp add: save_event_rows events)
    show "db_grows d ((save_event row' d')\<lparr>webhook_events := webhook_events d\<rparr>)"
      using replay_grows [OF assms(2)] by (simp add: db_grows_def)
    show "db_ok d \<longrightarrow> db_ok (save_event row' d')" using save_event_ok [OF ok] by blast
    show "if status row' = STATUS_PROCESSED then db_ok d \<longrightarrow> takes_effect row' (save_event row' d')
        else customer_mappings (save_event row' d') = customer_mappings d \<and>
          subscription_mappings (save_event row' d') = subscription_mappings d"
    proof (cases "status row' = STATUS_PROCESSED")
      case True
      with effect have "takes_effect row' own" by simp
      from replay_takes_effect [OF assms(2) grow(2,1) assms(3) this] True
      show ?thesis by (simp add: takes_effect_tables [of "save_event row' d'" d'])
    next
      case False
      with effect assms(2) show ?thesis by (simp add: replay_nothing)
    qed
  qed
qed

lemma commit_keeps:
  assumes "cluster_ok cfg c" and "open_txn c i = Some (Writing e row before row' own)"
    and "replay before own (shared c) = Inr d'"
  shows "cluster_ok cfg (close_txn i (c\<lparr>shared := save_event row' d'\<rparr>))"
proof -
  have txn: "txn_ok cfg (shared c) (Writing e row before row' own)" and ok: "db_ok (shared c)"
    using cluster_okD(1,2) [OF assms(1)] assms(2) by blast+
  then have life: "lifecycle cfg (shared c) (save_event row' d')" using commit_lifecycle assms(3) by blast
  have id: "stripe_event_id row' = stripe_event_id row" using txn by (auto intro: attempt_step_id)
  have "cluster_ok cfg (close_txn i c)" using assms(1) by (rule cluster_ok_closes) simp_all
  then show ?thesis
  proof (rule cluster_ok_shared)
    show "db_ok (shared (close_txn i (c\<lparr>shared := save_event row' d'\<rparr>)))"
      using replay_Inr(4) [OF assms(3) ok] by (simp add: save_event_ok)
    show "tables_grow (shared (close_txn i c)) (shared (close_txn i (c\<lparr>shared := save_event row' d'\<rparr>)))"
      using lifecycle_tables [OF life] by simp
    fix j u
    assume "open_txn (close_txn i c) j = Some u"
    then have u: "open_txn c j = Some u" "j \<noteq> i" by (auto split: if_splits)
    have "stripe_event_id (txn_row u) \<noteq> stripe_event_id row"
      using cluster_okD(3) [OF assms(1) u(1) assms(2)] u(2) by auto
    moreover have "txn_row u \<in> set (webhook_events d')"
      using txn_ok_row [OF cluster_okD(2) [OF assms(1) u(1)]] replay_Inr(1) [OF assms(3)] by simp
    ultimately show "txn_row u \<in> set (webhook_events (shared (close_txn i (c\<lparr>shared := save_event row' d'\<rparr>))))"
      using id by (simp add: save_event_member)
  qed simp
qed

lemma receiver_keeps_rows:
  assumes "stripe_webhook construct_event cfg req w = (r, w')"
  shows "set (webhook_events (committed w)) \<subseteq> set (webhook_events (committed w'))" and "db_ok (committed w) \<Longrightarrow> db_ok (committed w')"
proof -
  have life: "lifecycle cfg (committed w) (committed w')" using assms by (rule webhook_lifecycle_step)
  show "set (webhook_events (committed w)) \<subseteq> set (webhook_events (committed w'))"
  proof (cases r)
    case (Inl exc)
    with assms show ?thesis using webhook_Inl by fastforce
  next
    case (Inr resp)
    with assms show ?thesis by (auto simp: webhook_Inr insert_event_or_nothing_def split: if_splits)
  qed
  assume ok: "db_ok (committed w)"
  then show "db_ok (committed w')"
  proof (cases r)
    case (Inl exc)
    with assms ok show ?thesis using webhook_Inl by fastforce
  next
    case (Inr resp)
    with assms ok show ?thesis by (auto simp: webhook_Inr dest: insert_event_ok)
  qed
qed

lemma world_of_committed [simp]: "committed (world_of c) = shared c"
  by (simp add: world_of_def)

lemma replayed_keeps:
  assumes "cluster_ok cfg c" and "row \<in> set (webhook_events (shared c))" and "status row = STATUS_FAILED"
  shows "cluster_ok cfg (c\<lparr>shared := save_event (replayed_row now row) (shared c)\<rparr>)"
  using assms(1)
proof (rule cluster_ok_shared)
  note ok = cluster_okD(1) [OF assms(1)]
  show "db_ok (shared (c\<lparr>shared := save_event (replayed_row now row) (shared c)\<rparr>))" using ok by (simp add: save_event_ok)
  show "tables_grow (shared c) (shared (c\<lparr>shared := save_event (replayed_row now row) (shared c)\<rparr>))"
    using lifecycle_tables [OF replayed [OF assms(2,3)]] by simp
  fix i t
  assume "open_txn c i = Some t"
  then have t: "txn_row t \<in> set (webhook_events (shared c))" "claimable (txn_env t) {} (txn_row t)"
    using txn_ok_row cluster_okD(2) [OF assms(1)] by blast+
  then have "txn_row t \<noteq> row" using assms(3) by (auto simp: claimable_def)
  then have "stripe_event_id (txn_row t) \<noteq> stripe_event_id (replayed_row now row)"
    using same_id_same_row [OF ok t(1) assms(2)] by (auto simp: replayed_row_def)
  with t(1) show "txn_row t \<in> set (webhook_events (shared (c\<lparr>shared := save_event (replayed_row now row) (shared c)\<rparr>)))"
    by (simp add: save_event_member)
qed simp

lemma claim_keeps:
  assumes "cluster_ok cfg c" and "open_txn c i = None" and "held c \<subseteq> locked"
    and "claim_next_event e locked (shared c) = Some row"
  shows "cluster_ok cfg (c\<lparr>open_txn := (open_txn c)(i \<mapsto> Reading e row (shared c))\<rparr>)"
proof -
  note new = claimed_txn_ok [OF assms(4) cluster_okD(1) [OF assms(1)]]
  have "stripe_event_id (txn_row t) \<noteq> stripe_event_id row" if "open_txn c j = Some t" for j t
  proof -
    have "stripe_event_id (txn_row t) \<in> held c" using that by (auto simp: held_def)
    with new(2) assms(3) show ?thesis by auto
  qed
  with assms(1) new(1) [of cfg] show ?thesis
    unfolding cluster_ok_def by (auto split: if_splits dest: sym)
qed

lemma cluster_step_sound:
  assumes "cluster_step construct_event cfg sdk c c'" and "cluster_ok cfg c"
  shows "lifecycle cfg (shared c) (shared c') \<and> cluster_ok cfg c'"
  using assms
proof (induction rule: cluster_step.induct)
  case (receives req c r w')
  have life: "lifecycle cfg (shared c) (committed w')" using webhook_lifecycle_step [OF receives(1)] by simp
  have "cluster_ok cfg (c\<lparr>shared := committed w'\<rparr>)"
    using receives(2)
  proof (rule cluster_ok_shared)
    show "db_ok (shared (c\<lparr>shared := committed w'\<rparr>))"
      using receiver_keeps_rows(2) [OF receives(1)] cluster_okD(1) [OF receives(2)] by simp
    show "tables_grow (shared c) (shared (c\<lparr>shared := committed w'\<rparr>))" using lifecycle_tables [OF life] by simp
    fix i t
    assume "open_txn c i = Some t"
    then show "txn_row t \<in> set (webhook_events (shared (c\<lparr>shared := committed w'\<rparr>)))"
      using txn_ok_row [OF cluster_okD(2) [OF receives(2)]] receiver_keeps_rows(1) [OF receives(1)] by auto
  qed simp
  with life show ?case by simp
next
  case (claims c i locked e row)
  from claim_keeps [OF claims(4,1-3)] show ?case by (simp add: unchanged)
next
  case (reads_subscriptions c i e row d)
  have "txn_ok cfg (shared c) (Reading e row (shared c))"
    using cluster_okD(1,2) [OF reads_subscriptions(2)] reads_subscriptions(1) by (fastforce simp: tables_grow_refl)
  note ok = this
  show ?case by (rule conjI, simp add: unchanged, rule cluster_ok_moves [OF reads_subscriptions(2,1) _ ok]) simp_all
next
  case (reads_customers c i e row d)
  note old = cluster_okD(1) [OF reads_customers(2)] cluster_okD(2) [OF reads_customers(2,1)]
  then have "txn_ok cfg (shared c) (Reading e row (d\<lparr>customer_mappings := customer_mappings (shared c)\<rparr>))"
    using renewed_customers_ok [of "shared c" d] by simp
  note ok = this
  show ?case by (rule conjI, simp add: unchanged, rule cluster_ok_moves [OF reads_customers(2,1) _ ok]) simp_all
next
  case (handles c i e row d row' s)
  from txn_ok_handled [OF cluster_okD(2) [OF handles(4,1)] handles(2)]
  have "txn_ok cfg (shared c) (Writing e row d row' (tx s))" .
  note ok = this
  show ?case by (rule conjI, simp add: unchanged, rule cluster_ok_moves [OF handles(4,1) _ ok]) simp_all
next
  case (raises c i e row d r s)
  then show ?case by (auto simp: unchanged intro: cluster_ok_closes)
next
  case (commits c i e row d row' own d')
  from commit_lifecycle [OF cluster_okD(2) [OF commits(3,1)] commits(2) cluster_okD(1) [OF commits(3)]]
    commit_keeps [OF commits(3,1,2)]
  show ?case by simp
next
  case (conflicts c i e row d row' own exc)
  then show ?case by (auto simp: unchanged intro: cluster_ok_closes)
next
  case (dies c i t)
  then show ?case by (auto simp: unchanged intro: cluster_ok_closes)
next
  case (elsewhere c m)
  then show ?case by (simp add: unchanged cluster_ok_def)
next
  case (replays row c now)
  from replayed_keeps [OF replays(3,1,2)] replayed [OF replays(1,2)] show ?case by simp
qed

text \<open>No transaction is open at the start.\<close>

definition start_cluster :: "'m cluster \<Rightarrow> bool" where
  "start_cluster c \<longleftrightarrow> open_txn c = (\<lambda>_. None)"

lemma start_cluster_ok: "start_cluster c \<Longrightarrow> db_ok (shared c) \<Longrightarrow> cluster_ok cfg c"
  by (simp add: start_cluster_def cluster_ok_def)

lemma cluster_steps_ok:
  "(cluster_step construct_event cfg sdk)\<^sup>*\<^sup>* c c' \<Longrightarrow> cluster_ok cfg c \<Longrightarrow> cluster_ok cfg c'"
  by (induction rule: rtranclp_induct) (auto dest: cluster_step_sound)

lemma cluster_steps_sound:
  assumes "(cluster_step construct_event cfg sdk)\<^sup>*\<^sup>* c c'" and "cluster_ok cfg c"
    and "system_ok cfg (shared c)" and "1 \<le> worker_max_attempts cfg"
  shows "system_ok cfg (shared c') \<and> persists (shared c) (shared c')"
  using assms(1)
proof (induction rule: rtranclp_induct)
  case base
  show ?case using assms(3) by (simp add: persists_refl)
next
  case (step u v)
  have "lifecycle cfg (shared u) (shared v)"
    using cluster_step_sound [OF step.hyps(2) cluster_steps_ok [OF step.hyps(1) assms(2)]] by blast
  moreover have "db_ok (shared u)" using step.IH by (simp add: system_ok_def)
  ultimately show ?case using step.IH lifecycle_ok [OF _ _ assms(4)] lifecycle_persists persists_trans by blast
qed

section \<open>A worker whose transaction no other interrupts\<close>

lemma process_one_cases:
  assumes "process_one e cfg sdk locked w = (r, w')"
  obtains (none) "claim_next_event e locked (committed w) = None" "r = Inr False" "w' = w"
  | (committed) row row' s where "claim_next_event e locked (committed w) = Some row"
      "handle_event e cfg sdk row (begin_session w) = (Inr row', s)" "\<not> deactivated s" "r = Inr True" "w' = commit row' s"
  | (lost) row x s where "claim_next_event e locked (committed w) = Some row"
      "handle_event e cfg sdk row (begin_session w) = (x, s)" "isl x \<or> deactivated s" "isl r" "w' = rollback w s"
  using assms by (fastforce simp: process_one_def split: option.splits prod.splits sum.splits if_splits)

lemma session_on_shared [simp]: "session_on (shared c) c = begin_session (world_of c)"
  by (simp add: session_on_def begin_session_def world_of_def)

text \<open>The world at the end of a transaction that ran alone, seen in the cluster.\<close>

definition lone_result :: "'m cluster \<Rightarrow> 'm world \<Rightarrow> 'm cluster" where
  "lone_result c w = c\<lparr>shared := committed w, metronome_state := server w, requests := all_calls w\<rparr>"

lemma lone_steps:
  assumes "db_ok (shared c)" and "open_txn c i = None" and "held c \<subseteq> locked"
    and "process_one e cfg sdk locked (world_of c) = (r, w')"
  shows "(cluster_step construct_event cfg sdk)\<^sup>*\<^sup>* c (lone_result c w')"
  using assms(4)
proof (cases rule: process_one_cases)
  case none
  then show ?thesis by (simp add: lone_result_def world_of_def)
next
  case (committed row row' s)
  let ?t = "Reading e row (shared c)"
  let ?c1 = "c\<lparr>open_txn := (open_txn c)(i \<mapsto> ?t)\<rparr>"
  let ?c2 = "(after_calls s ?c1)\<lparr>open_txn := (open_txn ?c1)(i \<mapsto> Writing e row (shared c) row' (tx s))\<rparr>"
  have "cluster_step construct_event cfg sdk c ?c1" using assms(2,3) committed(1) by (intro claims) simp_all
  moreover have "cluster_step construct_event cfg sdk ?c1 ?c2"
    using committed(2,3) by (intro handles) (simp_all add: session_on_def begin_session_def world_of_def)
  moreover have "replay (shared c) (tx s) (shared c) = Inr (tx s)"
    using replay_alone handle_event_db [OF committed(2)] assms(1) by simp
  then have "cluster_step construct_event cfg sdk ?c2 (close_txn i (?c2\<lparr>shared := save_event row' (tx s)\<rparr>))"
    by (intro commits) simp_all
  moreover have "close_txn i (?c2\<lparr>shared := save_event row' (tx s)\<rparr>) = lone_result c w'"
    using assms(2) by (simp add: committed(5) lone_result_def close_txn_def after_calls_def commit_def fun_upd_idem)
  ultimately show ?thesis by (metis (no_types) r_into_rtranclp rtranclp.rtrancl_into_rtrancl)
next
  case (lost row x s)
  let ?c1 = "c\<lparr>open_txn := (open_txn c)(i \<mapsto> Reading e row (shared c))\<rparr>"
  have "cluster_step construct_event cfg sdk c ?c1" using assms(2,3) lost(1) by (intro claims) simp_all
  moreover have "cluster_step construct_event cfg sdk ?c1 (close_txn i (after_calls s ?c1))"
    using lost(2,3) by (intro raises) (simp_all add: session_on_def begin_session_def world_of_def)
  moreover have "close_txn i (after_calls s ?c1) = lone_result c w'"
    using assms(2) by (simp add: lost(5) lone_result_def close_txn_def after_calls_def rollback_def fun_upd_idem world_of_def)
  ultimately show ?thesis by (metis (no_types) r_into_rtranclp rtranclp.rtrancl_into_rtrancl)
qed

lemma rival_commit_conflicts:
  assumes "cluster_ok cfg c" and "open_txn c i = Some (Writing ei ri bi ri' oi)"
    and "open_txn c j = Some (Writing ej rj bj rj' oj)"
    and "customer_row k oi \<noteq> None" "customer_row k bj = None" "customer_row k oj \<noteq> None"
    and "replay bi oi (shared c) = Inr d'"
  shows "customer_row k (save_event ri' d') \<noteq> None \<and> (\<exists>exc. replay bj oj (save_event ri' d') = Inl exc)"
proof -
  have ti: "txn_ok cfg (shared c) (Writing ei ri bi ri' oi)" and tj: "txn_ok cfg (shared c) (Writing ej rj bj rj' oj)"
    and ok: "db_ok (shared c)" using cluster_okD(1,2) [OF assms(1)] assms(2,3) by blast+
  then have "tables_grow bi oi" "tables_grow bi (shared c)" "tables_grow bj oj" by simp_all
  then have "customer_row k d' \<noteq> None" using replay_visible(1) [OF assms(7)] ok assms(4) by blast
  then have mapped: "customer_row k (save_event ri' d') \<noteq> None" by (simp add: customer_row_def)
  with second_insert_conflicts [OF \<open>tables_grow bj oj\<close> assms(5,6)] show ?thesis by blast
qed

section \<open>Two replicas on one new customer\<close>

text \<open>
  Two pending events of one customer that is not mapped, and a Metronome that creates a
  customer on every request. \<open>writes\<close> is the step \<open>handles\<close> as a function.
\<close>

definition numbering_sdk :: "nat sdk" where
  "numbering_sdk c n = (sample_response (if n = 0 then ''m_1'' else ''m_2''), Suc n)"

definition race_created :: webhook_event where
  "race_created = sample_event ''customer.created'' sample_customer"

definition race_updated :: webhook_event where
  "race_updated = (sample_event ''customer.updated'' sample_customer)\<lparr>stripe_event_id := ''evt_2'', received_at := 6\<rparr>"

definition race_db :: db where
  "race_db = empty_db\<lparr>webhook_events := [race_created, race_updated]\<rparr>"

definition race_start :: "nat cluster" where
  "race_start = \<lparr>shared = race_db, metronome_state = 0, requests = [], open_txn = (\<lambda>_. None)\<rparr>"

definition race_claimed :: "nat cluster" where
  "race_claimed = race_start\<lparr>open_txn :=
     (open_txn race_start)(0 \<mapsto> Reading sample_env race_created race_db)\<rparr>"

definition race_both :: "nat cluster" where
  "race_both = race_claimed\<lparr>open_txn :=
     (open_txn race_claimed)(1 \<mapsto> Reading sample_env race_updated race_db)\<rparr>"

definition writes :: "settings \<Rightarrow> 'm sdk \<Rightarrow> nat \<Rightarrow> 'm cluster \<Rightarrow> 'm cluster" where
  "writes cfg sdk i c =
     (case open_txn c i of
        Some (Reading e row d) \<Rightarrow>
          (case handle_event e cfg sdk row (session_on d c) of
             (Inr row', s) \<Rightarrow>
               if deactivated s then c
               else (after_calls s c)\<lparr>open_txn := (open_txn c)(i \<mapsto> Writing e row d row' (tx s))\<rparr>
           | _ \<Rightarrow> c)
      | _ \<Rightarrow> c)"

definition race_written :: "nat cluster" where
  "race_written = writes sample_settings numbering_sdk 1
     (writes sample_settings numbering_sdk 0 race_both)"

definition ends :: "nat \<Rightarrow> 'm cluster \<Rightarrow> 'm cluster" where
  "ends i c =
     (case open_txn c i of
        Some (Writing e row d row' own) \<Rightarrow>
          (case replay d own (shared c) of
             Inr d' \<Rightarrow> close_txn i (c\<lparr>shared := save_event row' d'\<rparr>) | Inl _ \<Rightarrow> close_txn i c)
      | _ \<Rightarrow> c)"

definition race_end :: "nat cluster" where
  "race_end = ends 1 (ends 0 race_written)"

lemma writes_steps:
  "(cluster_step construct_event cfg sdk)\<^sup>*\<^sup>* c (writes cfg sdk i c)"
  unfolding writes_def
  by (auto split: option.split transaction.split prod.split sum.split intro!: r_into_rtranclp handles)

lemma ends_steps: "(cluster_step construct_event cfg sdk)\<^sup>*\<^sup>* c (ends i c)"
  unfolding ends_def
  by (auto split: option.split transaction.split sum.split intro!: r_into_rtranclp commits conflicts)

text \<open>A change that tells which of the two happened: a request was made, or the transaction is gone.\<close>

lemma writes_step:
  assumes "requests (writes cfg sdk i c) \<noteq> requests c"
  shows "cluster_step construct_event cfg sdk c (writes cfg sdk i c)"
  using assms unfolding writes_def
  by (auto split: option.splits transaction.splits prod.splits sum.splits if_splits intro!: handles)

lemma ends_step:
  assumes "open_txn (ends i c) i \<noteq> open_txn c i"
  shows "cluster_step construct_event cfg sdk c (ends i c)"
  using assms unfolding ends_def
  by (auto split: option.splits transaction.splits sum.splits intro!: commits conflicts)

lemma race_claims:
  "claim_next_event sample_env {} race_db = Some race_created"
  "claim_next_event sample_env {''evt_1''} race_db = Some race_updated"
  by code_simp+

lemma race_claimed_step: "cluster_step construct_event cfg sdk race_start race_claimed"
  using claims [of race_start 0 "{}" sample_env race_created construct_event cfg sdk] race_claims(1)
  by (simp add: race_claimed_def race_start_def held_def)

lemma race_both_step: "cluster_step construct_event cfg sdk race_claimed race_both"
  using claims [of race_claimed 1 "{''evt_1''}" sample_env race_updated construct_event cfg sdk] race_claims(2)
  by (simp add: race_both_def race_claimed_def race_start_def held_def race_created_def sample_event_def)

lemma race_both_reached: "(cluster_step construct_event cfg sdk)\<^sup>*\<^sup>* race_start race_both"
  using race_claimed_step race_both_step by (meson r_into_rtranclp rtranclp.rtrancl_into_rtrancl)

lemma race_end_reached: "(cluster_step construct_event sample_settings numbering_sdk)\<^sup>*\<^sup>* race_start race_end"
  unfolding race_end_def race_written_def
  using race_both_reached writes_steps ends_steps by (meson rtranclp_trans)

lemma race_start_ok: "start_cluster race_start" "db_ok (shared race_start)" "system_ok sample_settings (shared race_start)"
proof -
  show "start_cluster race_start" by (simp add: start_cluster_def race_start_def)
  show "system_ok sample_settings (shared race_start)"
    by (simp add: system_ok_def db_ok_def race_start_def race_db_def empty_db_def row_ok_def race_created_def
        race_updated_def sample_event_def sample_settings_def)
  then show "db_ok (shared race_start)" by (simp add: system_ok_def)
qed

definition alias_of :: "sdk_call \<Rightarrow> pyval" where
  "alias_of q = (case q of CustomersCreate body \<Rightarrow> dict_get body ''ingest_aliases'' | _ \<Rightarrow> PNone)"

text \<open>The run is evaluated once.\<close>

lemma race_end_facts:
  "(\<lambda>c. (map (\<lambda>r. (stripe_event_id r, status r, attempts r)) (webhook_events (shared c)),
      map (\<lambda>r. (cm_stripe_customer_id r, cm_metronome_customer_id r)) (customer_mappings (shared c)),
      map alias_of (requests c), metronome_state c, open_txn c 0, open_txn c 1)) race_end =
   ([(''evt_1'', ''processed'', 1), (''evt_2'', ''pending'', 0)], [(''cus_1'', ''m_1'')],
    [PList [PStr ''cus_1''], PList [PStr ''cus_1'']], 2, None, None)"
  by code_simp

lemma race_end_rows:
  "map (\<lambda>r. (stripe_event_id r, status r, attempts r)) (webhook_events (shared race_end)) =
     [(''evt_1'', ''processed'', 1), (''evt_2'', ''pending'', 0)]"
  "map (\<lambda>r. (cm_stripe_customer_id r, cm_metronome_customer_id r)) (customer_mappings (shared race_end)) =
     [(''cus_1'', ''m_1'')]"
  "map alias_of (requests race_end) = [PList [PStr ''cus_1''], PList [PStr ''cus_1'']]"
  "metronome_state race_end = 2" "open_txn race_end 0 = None" "open_txn race_end 1 = None"
  using race_end_facts by blast+

section \<open>Properties\<close>

text \<open>C2: any number of workers keep the database sound. Whatever the receiver, the workers with
  their overlapping transactions, Metronome and the operator do in whatever order, from an
  empty or sound database without open transactions: the database stays sound, no
  acknowledged event is lost or rewritten, a processed event stays as it is, and no mapping
  disappears or is bound to another Metronome id.\<close>

theorem replicas_are_sound:
  assumes "(cluster_step construct_event cfg sdk)\<^sup>*\<^sup>* c c'" and "start_cluster c"
    and "shared c = empty_db \<or> system_ok cfg (shared c)" and "load_settings cfg = Inr cfg"
  shows "system_ok cfg (shared c') \<and> persists (shared c) (shared c')"
proof -
  have ok: "system_ok cfg (shared c)" using assms(3) empty_system_ok by metis
  then have "cluster_ok cfg c" using start_cluster_ok [OF assms(2)] by (simp add: system_ok_def)
  moreover have "1 \<le> worker_max_attempts cfg" using assms(4) by (simp add: load_settings_ok)
  ultimately show ?thesis using cluster_steps_sound [OF assms(1)] ok by blast
qed

lemma replicas_are_sound_witness:
  "system_ok sample_settings (shared race_end) \<and>
     map (\<lambda>r. (stripe_event_id r, status r, attempts r)) (webhook_events (shared race_end)) =
       [(''evt_1'', ''processed'', 1), (''evt_2'', ''pending'', 0)]"
proof
  show "system_ok sample_settings (shared race_end)"
    using replicas_are_sound [OF race_end_reached [of sample_verifier] race_start_ok(1) disjI2 [OF race_start_ok(3)]
      sample_settings_load] by blast
qed (rule race_end_rows(1))

text \<open>C3: no event is worked on twice at a time. In every reachable state two open transactions
  hold different events, and the row a transaction has loaded is still the row in the table,
  pending as it was claimed: what the transaction writes back overwrites nobody's update.\<close>

theorem no_event_in_two_transactions:
  assumes "(cluster_step construct_event cfg sdk)\<^sup>*\<^sup>* c c'" and "start_cluster c" and "db_ok (shared c)"
    and "open_txn c' i = Some t"
  shows "event_row (stripe_event_id (txn_row t)) (shared c') = Some (txn_row t) \<and>
    claimable (txn_env t) {} (txn_row t) \<and>
    (\<forall>j u. j \<noteq> i \<longrightarrow> open_txn c' j = Some u \<longrightarrow> stripe_event_id (txn_row u) \<noteq> stripe_event_id (txn_row t))"
proof -
  have ok: "cluster_ok cfg c'" using cluster_steps_ok [OF assms(1) start_cluster_ok [OF assms(2,3)]] .
  from txn_ok_row [OF cluster_okD(2) [OF this assms(4)]] cluster_okD(1) [OF ok]
  show ?thesis using cluster_okD(3) [OF ok assms(4)] by (auto intro: event_row_member)
qed

lemma no_event_in_two_transactions_witness:
  "open_txn race_both 0 \<noteq> None \<and> open_txn race_both 1 \<noteq> None \<and>
     event_row ''evt_1'' (shared race_both) = Some race_created"
proof -
  have t: "open_txn race_both 0 = Some (Reading sample_env race_created race_db)"
    by (simp add: race_both_def race_claimed_def)
  from no_event_in_two_transactions [OF race_both_reached [of sample_verifier sample_settings numbering_sdk]
      race_start_ok(1,2) t] t
  show ?thesis by (simp add: race_both_def race_created_def sample_event_def)
qed

text \<open>C15: of two workers that create the same customer, one wins. Let two open transactions have
  each inserted a mapping for a customer that was unmapped when they looked. Once one of them
  commits, the customer is mapped and the commit of the other is refused: nothing of that
  transaction is kept, and its event is still pending, with no attempt counted.\<close>

theorem racing_inserts_have_one_winner:
  assumes "(cluster_step construct_event cfg sdk)\<^sup>*\<^sup>* c0 c" and "start_cluster c0" and "db_ok (shared c0)"
    and "i \<noteq> j" and "open_txn c i = Some (Writing ei ri bi ri' oi)" and "open_txn c j = Some (Writing ej rj bj rj' oj)"
    and "customer_row k bi = None" "customer_row k oi \<noteq> None" "customer_row k bj = None" "customer_row k oj \<noteq> None"
    and "replay bi oi (shared c) = Inr d'"
  shows "cluster_step construct_event cfg sdk c (close_txn i (c\<lparr>shared := save_event ri' d'\<rparr>)) \<and>
    customer_row k (save_event ri' d') \<noteq> None \<and>
    (\<exists>exc. replay bj oj (save_event ri' d') = Inl exc) \<and>
    event_row (stripe_event_id rj) (save_event ri' d') = Some rj \<and> status rj = STATUS_PENDING"
proof -
  have ok: "cluster_ok cfg c" using cluster_steps_ok [OF assms(1) start_cluster_ok [OF assms(2,3)]] .
  let ?c = "close_txn i (c\<lparr>shared := save_event ri' d'\<rparr>)"
  have step: "cluster_step construct_event cfg sdk c ?c" using assms(5,11) by (rule commits)
  have after: "cluster_ok cfg ?c" using cluster_step_sound [OF step ok] by blast
  have "open_txn ?c j = Some (Writing ej rj bj rj' oj)" using assms(4,6) by simp
  from txn_ok_row [OF cluster_okD(2) [OF after this]] cluster_okD(1) [OF after]
  have "event_row (stripe_event_id rj) (save_event ri' d') = Some rj" "status rj = STATUS_PENDING"
    by (auto simp: claimable_def intro: event_row_member)
  with step rival_commit_conflicts [OF ok assms(5,6,8-11)] show ?thesis by blast
qed

lemma race_written_txns:
  "\<exists>t. open_txn race_written 0 = Some t \<and> \<not> is_reading t \<and>
     customer_row ''cus_1'' (seen t) = None \<and> customer_row ''cus_1'' (written t) \<noteq> None \<and>
     \<not> isl (replay (seen t) (written t) (shared race_written))"
  "\<exists>t. open_txn race_written 1 = Some t \<and> \<not> is_reading t \<and>
     customer_row ''cus_1'' (seen t) = None \<and> customer_row ''cus_1'' (written t) \<noteq> None"
proof -
  have "case open_txn race_written 0 of None \<Rightarrow> False | Some t \<Rightarrow> \<not> is_reading t \<and>
      customer_row ''cus_1'' (seen t) = None \<and> customer_row ''cus_1'' (written t) \<noteq> None \<and>
      \<not> isl (replay (seen t) (written t) (shared race_written))" by code_simp
  then show "\<exists>t. open_txn race_written 0 = Some t \<and> \<not> is_reading t \<and>
     customer_row ''cus_1'' (seen t) = None \<and> customer_row ''cus_1'' (written t) \<noteq> None \<and>
     \<not> isl (replay (seen t) (written t) (shared race_written))" by (simp split: option.splits)
  have "case open_txn race_written 1 of None \<Rightarrow> False | Some t \<Rightarrow> \<not> is_reading t \<and>
      customer_row ''cus_1'' (seen t) = None \<and> customer_row ''cus_1'' (written t) \<noteq> None" by code_simp
  then show "\<exists>t. open_txn race_written 1 = Some t \<and> \<not> is_reading t \<and>
     customer_row ''cus_1'' (seen t) = None \<and> customer_row ''cus_1'' (written t) \<noteq> None" by (simp split: option.splits)
qed

lemma racing_inserts_have_one_winner_witness:
  "\<exists>t u d'. open_txn race_written 0 = Some t \<and> open_txn race_written 1 = Some u \<and>
     customer_row ''cus_1'' (save_event (new_row t) d') \<noteq> None \<and>
     (\<exists>exc. replay (seen u) (written u) (save_event (new_row t) d') = Inl exc)"
proof -
  obtain t where t: "open_txn race_written 0 = Some t" "\<not> is_reading t" "customer_row ''cus_1'' (seen t) = None"
    "customer_row ''cus_1'' (written t) \<noteq> None" "\<not> isl (replay (seen t) (written t) (shared race_written))"
    using race_written_txns(1) by blast
  obtain u where u: "open_txn race_written 1 = Some u" "\<not> is_reading u" "customer_row ''cus_1'' (seen u) = None"
    "customer_row ''cus_1'' (written u) \<noteq> None" using race_written_txns(2) by blast
  obtain d' where d': "replay (seen t) (written t) (shared race_written) = Inr d'"
    using t(5) by (cases "replay (seen t) (written t) (shared race_written)") auto
  have w: "open_txn race_written 0 = Some (Writing (txn_env t) (txn_row t) (seen t) (new_row t) (written t))"
    "open_txn race_written 1 = Some (Writing (txn_env u) (txn_row u) (seen u) (new_row u) (written u))"
    using t(1,2) u(1,2) by (simp_all add: transaction.collapse)
  have steps: "(cluster_step sample_verifier sample_settings numbering_sdk)\<^sup>*\<^sup>* race_start race_written"
    unfolding race_written_def using race_both_reached writes_steps by (meson rtranclp_trans)
  have "(0::nat) \<noteq> 1" by simp
  from racing_inserts_have_one_winner [OF steps race_start_ok(1,2) this w t(3,4) u(3,4) d']
  show ?thesis by (elim conjE) (rule exI, rule exI, rule exI, rule conjI [OF t(1) conjI [OF u(1) conjI]], assumption+)
qed

text \<open>A worker alone is the worker of the sequential model. In a state with sound tables, the
  transaction of a worker whose steps no other interrupts ends as \<open>process_one\<close> ends, with
  the same database, the same calls and no transaction of its own left open.\<close>

lemma lone_worker_is_process_one:
  assumes "process_one e cfg sdk locked (world_of c) = (r, w')"
    and "db_ok (shared c)" and "open_txn c i = None" and "held c \<subseteq> locked"
  shows "(cluster_step construct_event cfg sdk)\<^sup>*\<^sup>* c (lone_result c w') \<and>
    shared (lone_result c w') = committed w' \<and> requests (lone_result c w') = all_calls w' \<and>
    open_txn (lone_result c w') = open_txn c"
  using lone_steps [OF assms(2-4,1)] by (simp add: lone_result_def)

lemma lone_worker_is_process_one_example:
  "\<exists>c'. (cluster_step sample_verifier sample_settings numbering_sdk)\<^sup>*\<^sup>* race_start c' \<and>
     map status (webhook_events (shared c')) = [''processed'', ''pending''] \<and> open_txn c' = (\<lambda>_. None)"
proof -
  let ?run = "process_one sample_env sample_settings numbering_sdk {} (world_of race_start)"
  have run: "?run = (fst ?run, snd ?run)" by simp
  have "held race_start \<subseteq> {}" by (simp add: held_def race_start_def)
  from lone_worker_is_process_one [OF run race_start_ok(2) _ this, of 0 sample_verifier]
  have "(cluster_step sample_verifier sample_settings numbering_sdk)\<^sup>*\<^sup>* race_start (lone_result race_start (snd ?run)) \<and>
      shared (lone_result race_start (snd ?run)) = committed (snd ?run) \<and>
      open_txn (lone_result race_start (snd ?run)) = (\<lambda>_. None)" by (simp add: race_start_def)
  moreover have "map status (webhook_events (committed (snd ?run))) = [''processed'', ''pending'']" by code_simp
  ultimately show ?thesis by metis
qed

text \<open>The run of the two workers to its end, on a server that creates a customer on every request:
  two customers at Metronome under the same ingest alias, of which only the first is mapped,
  and the second event pending again although its request has been made.\<close>

lemma race_to_the_end:
  "\<exists>c. (cluster_step construct_event sample_settings numbering_sdk)\<^sup>*\<^sup>* race_start c \<and>
     map alias_of (requests c) = [PList [PStr ''cus_1''], PList [PStr ''cus_1'']] \<and>
     metronome_state c = 2 \<and> open_txn c 0 = None \<and> open_txn c 1 = None \<and>
     map (\<lambda>r. (cm_stripe_customer_id r, cm_metronome_customer_id r)) (customer_mappings (shared c)) =
       [(''cus_1'', ''m_1'')] \<and>
     map (\<lambda>r. (stripe_event_id r, status r, attempts r)) (webhook_events (shared c)) =
       [(''evt_1'', ''processed'', 1), (''evt_2'', ''pending'', 0)]"
  by (intro exI [of _ race_end] conjI race_end_reached race_end_rows)

end
