(* ===== verification/ContractRecovery.thy ===== *)
theory ContractRecovery
  imports HandlerSubscription
begin

text \<open>
  The subscription handler when things go wrong: payloads that cannot be mapped, events
  that arrive before their customer, and a worker that dies between the contract's
  creation and the commit of its row. The last is about two runs of the handler on the
  same database, against a Metronome server that honours uniqueness keys.
\<close>

section \<open>Runs against a server that honours uniqueness keys\<close>

lemma subscription_run_outcome:
  assumes "handle_subscription_created e cfg sdk i p s = (r, t)" and "\<not> deactivated s"
    and "subscription_event p obj sid cid" and "subscription_row sid (tx s) = None"
  obtains (unsent) exc where "r = Inl exc" "api t = api s" "calls t = calls s"
  | (sent) body rc u v where "contract_body cfg p (tx s) body" "create_contract sdk body u = (rc, v)"
      "api u = api s" "api t = api v"
      "\<And>q. r = Inr q \<Longrightarrow> \<exists>c. rc = Inr c \<and> metronome_contract_id c = sr_metronome_contract_id q \<and>
         (sr_outcome q = CONTRACT_CREATED_VIA_UNIQUENESS_KEY_RECOVERY \<longleftrightarrow> via_uniqueness_key_recovery c)"
proof -
  obtain ls where "handle_subscription_created e cfg sdk i p s =
      map_new_subscription e cfg sdk obj sid cid (subscription_log_ctx i sid cid) (s\<lparr>log := log s @ ls\<rparr>)"
    using handle_subscription_created_run [OF assms(3,2)] assms(4) by (metis option.case(1))
  then have run: "map_new_subscription e cfg sdk obj sid cid (subscription_log_ctx i sid cid) (s\<lparr>log := log s @ ls\<rparr>) = (r, t)"
    using assms(1) by simp
  from run assms(3) show thesis
  proof (rule map_new_outcome)
    show "subscription_row sid (tx (s\<lparr>log := log s @ ls\<rparr>)) = None" using assms(4) by simp
  next
    fix exc
    assume "r = Inl exc" "api t = api (s\<lparr>log := log s @ ls\<rparr>)" "calls t = calls (s\<lparr>log := log s @ ls\<rparr>)"
    then show thesis using unsent by simp
  next
    fix body rc v
    assume "contract_body cfg p (tx (s\<lparr>log := log s @ ls\<rparr>)) body"
      "create_contract sdk body (s\<lparr>log := log s @ ls\<rparr>) = (rc, v)" "api t = api v"
      "\<And>q. r = Inr q \<Longrightarrow> \<exists>c. rc = Inr c \<and> metronome_contract_id c = sr_metronome_contract_id q \<and>
        (sr_outcome q = CONTRACT_CREATED_VIA_UNIQUENESS_KEY_RECOVERY \<longleftrightarrow> via_uniqueness_key_recovery c)"
    then show thesis using sent [of body "s\<lparr>log := log s @ ls\<rparr>" rc v] by simp
  qed
qed

text \<open>One run, seen from the contracts of the server: at most one is added, under the run's own key.\<close>

lemma subscription_run_held:
  assumes sdk: "honours_uniqueness sdk held" and body: "contract_body cfg p (tx s) body"
    and key: "dict_get body ''customer_id'' = PStr customer" "dict_get body ''uniqueness_key'' = PStr key"
    and run: "handle_subscription_created e cfg sdk i p s = (r, t)" and active: "\<not> deactivated s"
  shows "held (api t) = held (api s) \<or>
      key \<notin> set (contract_keys (held (api s))) \<and> (\<exists>i. held (api t) = held (api s) @ [(customer, key, i)])"
    and "r = Inr q \<Longrightarrow> (customer, key, sr_metronome_contract_id q) \<in> set (held (api t)) \<and>
      (sr_outcome q \<noteq> CONTRACT_CREATED_VIA_UNIQUENESS_KEY_RECOVERY \<longrightarrow> key \<notin> set (contract_keys (held (api s))))"
proof -
  obtain obj sid cid where ev: "subscription_event p obj sid cid" "subscription_row sid (tx s) = None"
    using body by (auto simp: contract_body_def)
  have all: "(held (api t) = held (api s) \<or>
      key \<notin> set (contract_keys (held (api s))) \<and> (\<exists>i. held (api t) = held (api s) @ [(customer, key, i)])) \<and>
    (r = Inr q \<longrightarrow> (customer, key, sr_metronome_contract_id q) \<in> set (held (api t)) \<and>
      (sr_outcome q \<noteq> CONTRACT_CREATED_VIA_UNIQUENESS_KEY_RECOVERY \<longrightarrow> key \<notin> set (contract_keys (held (api s)))))"
    using run active ev
  proof (cases rule: subscription_run_outcome)
    case (sent body' rc u v)
    have "body' = body" using contract_body_unique [OF sent(1) body] .
    with sent(2) have create: "create_contract sdk body u = (rc, v)" by simp
    note server = create_contract_held [OF sdk create key, unfolded sent(3)]
    show ?thesis using server(1) sent(5) server(2) unfolding sent(4) by (cases r) auto
  qed simp
  then show "held (api t) = held (api s) \<or>
      key \<notin> set (contract_keys (held (api s))) \<and> (\<exists>i. held (api t) = held (api s) @ [(customer, key, i)])"
    and "r = Inr q \<Longrightarrow> (customer, key, sr_metronome_contract_id q) \<in> set (held (api t)) \<and>
      (sr_outcome q \<noteq> CONTRACT_CREATED_VIA_UNIQUENESS_KEY_RECOVERY \<longrightarrow> key \<notin> set (contract_keys (held (api s))))"
    by blast+
qed

section \<open>Properties\<close>

text \<open>C27: no second contract after a crash. Let a worker run the handler of an event whose
  subscription has no row yet, with any outcome, and let its transaction be lost: the
  database is as it was, the server is not. When the event is handled again, on a server
  that holds no key twice and where a creation under a taken key fails with whatever error,
  the two runs together have added at most one contract; if the first had succeeded, the
  second adds none, and if both succeed the second reports the contract of the first, as
  recovered by its uniqueness key.\<close>

theorem crash_retry_makes_one_contract:
  assumes "honours_uniqueness sdk held" and "distinct (contract_keys (held (api s)))"
    and "contract_body cfg p (tx s) body"
    and "handle_subscription_created e cfg sdk i p s = (r, t)" and "\<not> deactivated s"
    and "tx u = tx s" and "api u = api t" and "\<not> deactivated u"
    and "handle_subscription_created e' cfg sdk i' p u = (r', v)"
  shows "(held (api v) = held (api s) \<or> (\<exists>c. held (api v) = held (api s) @ [c])) \<and>
    distinct (contract_keys (held (api v))) \<and>
    (\<forall>q. r = Inr q \<longrightarrow> held (api v) = held (api t)) \<and>
    (\<forall>q q'. r = Inr q \<and> r' = Inr q' \<longrightarrow>
       sr_metronome_contract_id q' = sr_metronome_contract_id q \<and>
       sr_outcome q' = CONTRACT_CREATED_VIA_UNIQUENESS_KEY_RECOVERY)"
proof -
  obtain customer key where key: "dict_get body ''customer_id'' = PStr customer" "dict_get body ''uniqueness_key'' = PStr key"
    using contract_body_key [OF assms(3)] .
  have body': "contract_body cfg p (tx u) body" using assms(3,6) by simp
  note first = subscription_run_held [OF assms(1,3) key assms(4,5)]
  note second = subscription_run_held [OF assms(1) body' key assms(9,8), unfolded assms(7)]
  have grow: "held (api v) = held (api s) \<or>
      key \<notin> set (contract_keys (held (api s))) \<and> (\<exists>i. held (api v) = held (api s) @ [(customer, key, i)])"
    using first(1) second(1) by auto
  then have "distinct (contract_keys (held (api v)))" using assms(2) by auto
  moreover have same: "held (api v) = held (api t) \<and> key \<in> set (contract_keys (held (api t)))" if "r = Inr q" for q
    using first(2) [OF that] second(1) held_key by blast
  moreover have "sr_metronome_contract_id q' = sr_metronome_contract_id q \<and>
      sr_outcome q' = CONTRACT_CREATED_VIA_UNIQUENESS_KEY_RECOVERY" if "r = Inr q" "r' = Inr q'" for q q'
    using first(2) [OF that(1)] second(2) [OF that(2)] same [OF that(1)]
      one_held [OF count_held_distinct [OF calculation(1)]] by auto
  ultimately show ?thesis using grow by blast
qed

lemma sample_contract_body:
  "contract_body sample_settings (event_of sample_subscription) mapped_db
     (projr (stripe_subscription_to_metronome_contract_request sample_subscription (snd (hd TIERS)) ''m_1''
        (metronome_default_rate_card_id sample_settings)))"
proof -
  have price: "extract_single_price_id sample_subscription = Inr ''price_REPLACE_ME_startup''" by code_simp
  have crow: "customer_row ''cus_1'' mapped_db = Some sample_mapping" by code_simp
  have tier: "lookup_tier ''price_REPLACE_ME_startup'' = Inr (snd (hd TIERS))" by (simp add: lookup_tier_def TIERS_def)
  have "\<not> isl (stripe_subscription_to_metronome_contract_request sample_subscription (snd (hd TIERS)) ''m_1''
      (metronome_default_rate_card_id sample_settings))" by code_simp
  then have body: "stripe_subscription_to_metronome_contract_request sample_subscription (snd (hd TIERS))
      (cm_metronome_customer_id sample_mapping) (metronome_default_rate_card_id sample_settings) =
    Inr (projr (stripe_subscription_to_metronome_contract_request sample_subscription (snd (hd TIERS)) ''m_1''
      (metronome_default_rate_card_id sample_settings)))"
    by (simp add: sample_mapping_def sum.collapse(2))
  have ev: "subscription_event (event_of sample_subscription) sample_subscription ''sub_1'' ''cus_1''"
    by (simp add: subscription_event_def extract_subscription_object_Inr event_of_def sample_subscription_def)
  have none: "subscription_row ''sub_1'' mapped_db = None" by code_simp
  show ?thesis unfolding contract_body_def using ev none price crow tier body by blast
qed

lemma crash_retry_makes_one_contract_witness:
  "length (store_contracts (api (snd (sample_created (api (snd (sample_created []))))))) \<le> 1"
proof -
  let ?u = "fresh_ctx mapped_db (api (snd (sample_created []))) :: contract_store ctx"
  have two: "handle_subscription_created sample_env sample_settings store_sdk ''evt_2'' (event_of sample_subscription)
      (fresh_ctx mapped_db m) = (fst (sample_created m), snd (sample_created m))" for m
    by (simp add: sample_created_def)
  have body: "contract_body sample_settings (event_of sample_subscription) (tx (fresh_ctx mapped_db ([] :: contract_store)))
      (projr (stripe_subscription_to_metronome_contract_request sample_subscription (snd (hd TIERS)) ''m_1''
        (metronome_default_rate_card_id sample_settings)))"
    using sample_contract_body by (simp add: fresh_ctx_def)
  have "held = store_contracts \<Longrightarrow> held (api (snd (sample_created (api (snd (sample_created [])))))) =
      held (api (fresh_ctx mapped_db [])) \<or>
    (\<exists>c. held (api (snd (sample_created (api (snd (sample_created [])))))) = held (api (fresh_ctx mapped_db [])) @ [c])" for held
    using crash_retry_makes_one_contract [OF store_sdk_honours _ body two _ _ _ _ two]
    by (simp add: fresh_ctx_def store_contracts_def)
  then show ?thesis by (auto simp: fresh_ctx_def store_contracts_def)
qed

text \<open>C28: an event before its customer waits. On a usable session, a \<open>customer.subscription.created\<close>
  with an id, a customer and exactly one priced item, whose subscription has no row and whose
  customer has no mapping yet, raises \<open>RetryableHandlerError\<close>: Metronome is not called and
  nothing is stored. (An event without exactly one such item is refused for good before the
  customer is looked up.)\<close>

theorem out_of_order_subscription_waits:
  assumes "subscription_event p obj sid cid" and "\<not> deactivated s"
    and "subscription_row sid (tx s) = None" and "customer_row cid (tx s) = None"
    and "extract_single_price_id obj = Inr price"
  shows "\<exists>m t. handle_subscription_created e cfg sdk i p s = (Inl (retryable m), t) \<and>
    tx t = tx s \<and> calls t = calls s \<and> api t = api s"
proof -
  obtain ls where "handle_subscription_created e cfg sdk i p s =
      map_new_subscription e cfg sdk obj sid cid (subscription_log_ctx i sid cid) (s\<lparr>log := log s @ ls\<rparr>)"
    using handle_subscription_created_run [OF assms(1,2)] assms(3) by (metis option.case(1))
  then show ?thesis using assms(2,4,5) by (simp add: map_new_subscription_def act_simps db_read_def bnd_def)
qed

lemma out_of_order_subscription_waits_witness:
  "\<exists>m t. handle_subscription_created sample_env sample_settings store_sdk ''evt_2'' (event_of sample_subscription)
     (fresh_ctx empty_db []) = (Inl (retryable m), t) \<and> calls t = []"
proof -
  have ev: "subscription_event (event_of sample_subscription) sample_subscription ''sub_1'' ''cus_1''"
    by (simp add: subscription_event_def extract_subscription_object_Inr event_of_def sample_subscription_def)
  have price: "extract_single_price_id sample_subscription = Inr ''price_REPLACE_ME_startup''" by code_simp
  let ?s = "fresh_ctx empty_db [] :: contract_store ctx"
  have "\<not> deactivated ?s" "subscription_row ''sub_1'' (tx ?s) = None" "customer_row ''cus_1'' (tx ?s) = None"
    by (simp_all add: fresh_ctx_def empty_db_def subscription_row_def customer_row_def)
  from out_of_order_subscription_waits [OF ev this price] show ?thesis by (fastforce simp: fresh_ctx_def)
qed

text \<open>What no retry can cure: not exactly one item, a price that no tier has, or no start of the period.\<close>

definition unmappable :: "pydict \<Rightarrow> bool" where
  "unmappable obj \<longleftrightarrow>
     (case extract_single_price_id obj of
        Inl e \<Rightarrow> True
      | Inr price \<Rightarrow> price \<notin> fst ` set TIERS \<or>
          (\<exists>item. require_single_item obj = Inr (price, item) \<and>
             as_int (dict_get item ''current_period_start'') = None \<and>
             as_int (dict_get obj ''current_period_start'') = None))"

lemma unmappable_items:
  "dict_get obj ''items'' = PDict items \<Longrightarrow> dict_get items ''data'' = PList l \<Longrightarrow> length l \<noteq> 1 \<Longrightarrow> unmappable obj"
  by (auto simp: unmappable_def extract_single_price_id_Inr split: sum.split)

lemma mapper_without_start:
  assumes "require_single_item obj = Inr (price, item)" and "dict_get obj ''id'' = PStr sid" "sid \<noteq> []"
    and "as_int (dict_get item ''current_period_start'') = None"
    and "as_int (dict_get obj ''current_period_start'') = None"
  shows "\<exists>m. map_error subscription_mapper_failure
    (stripe_subscription_to_metronome_contract_request obj tier mcid rcid) = Inl (permanent m)"
  using assms
  by (simp add: stripe_subscription_to_metronome_contract_request_def period_start_unix_def mapper_require_str_def)

text \<open>C29: an unmappable subscription is refused for good. On a usable session, if the subscription
  has no row and its customer is mapped, a payload with other than exactly one item, with a price that is not
  in the tier table, or with no integer \<open>current_period_start\<close> on the item or the
  subscription raises \<open>PermanentHandlerError\<close> before any call to Metronome; nothing is
  stored.\<close>

theorem unmappable_subscription_is_refused:
  assumes "subscription_event p obj sid cid" and "\<not> deactivated s"
    and "subscription_row sid (tx s) = None" and "customer_row cid (tx s) = Some crow"
    and "unmappable obj"
  shows "\<exists>m t. handle_subscription_created e cfg sdk i p s = (Inl (permanent m), t) \<and>
    tx t = tx s \<and> calls t = calls s \<and> api t = api s"
proof -
  obtain ls where run: "handle_subscription_created e cfg sdk i p s =
      map_new_subscription e cfg sdk obj sid cid (subscription_log_ctx i sid cid) (s\<lparr>log := log s @ ls\<rparr>)"
    using handle_subscription_created_run [OF assms(1,2)] assms(3) by (metis option.case(1))
  have sid: "dict_get obj ''id'' = PStr sid" "sid \<noteq> []" using assms(1) by (simp_all add: subscription_event_def)
  show ?thesis
  proof (cases "extract_single_price_id obj")
    case (Inl exc)
    then obtain m where "exc = permanent m" using extract_single_price_id_Inl by blast
    with Inl run show ?thesis by (simp add: map_new_subscription_def act_simps)
  next
    case (Inr price)
    show ?thesis
    proof (cases "lookup_tier price")
      case tier: (Inl exc)
      then have "exc = UnknownTierError price" by (simp add: lookup_tier_Inl)
      with tier show ?thesis using Inr run assms(2,4)
        by (simp add: map_new_subscription_def act_simps db_read_def bnd_def lift_def)
    next
      case tier: (Inr tier)
      then have "price \<in> fst ` set TIERS" by (force simp: lookup_tier_Inr)
      with assms(5) Inr obtain item where "require_single_item obj = Inr (price, item)"
        "as_int (dict_get item ''current_period_start'') = None" "as_int (dict_get obj ''current_period_start'') = None"
        by (auto simp: unmappable_def)
      from mapper_without_start [OF this(1) sid this(2,3)] obtain m where
        "map_error subscription_mapper_failure (stripe_subscription_to_metronome_contract_request obj tier
           (cm_metronome_customer_id crow) (metronome_default_rate_card_id cfg)) = Inl (permanent m)" by blast
      with Inr tier run assms(2,4) show ?thesis
        by (simp add: map_new_subscription_def act_simps db_read_def bnd_def lift_def)
    qed
  qed
qed

lemma unmappable_subscription_is_refused_witness:
  "\<exists>m t. handle_subscription_created sample_env sample_settings store_sdk ''evt_2'' (event_of two_item_subscription)
     (fresh_ctx mapped_db []) = (Inl (permanent m), t) \<and> calls t = []"
proof -
  let ?s = "fresh_ctx mapped_db [] :: contract_store ctx"
  have s: "\<not> deactivated ?s" "subscription_row ''sub_1'' (tx ?s) = None" "customer_row ''cus_1'' (tx ?s) = Some sample_mapping"
    by (simp_all add: sample_defs subscription_row_def customer_row_def)
  have "unmappable two_item_subscription"
    by (rule unmappable_items [of _ "[(''data'', PList [PDict [], PDict []])]" "[PDict [], PDict []]"])
      (simp_all add: two_item_subscription_def)
  from unmappable_subscription_is_refused [OF two_items_event s this] show ?thesis by (fastforce simp: fresh_ctx_def)
qed

end
