(* ===== verification/Contracts.thy ===== *)
theory Contracts
  imports Concurrency ContractRecovery
begin

text \<open>
  The contracts at Metronome, against the events and mappings in the database, while any
  number of workers run, crash and retry. On a server that honours uniqueness keys, every
  contract that comes into being belongs to one stored \<open>customer.subscription.created\<close> event
  and its mapped customer, no key gets two, and a mapping row only ever names a
  contract the server holds.
\<close>

section \<open>Actions that create no contract\<close>

text \<open>Only \<open>contracts.create\<close> adds to the contracts of the server.\<close>

definition leaves_contracts :: "'m sdk \<Rightarrow> ('m \<Rightarrow> (string \<times> string \<times> string) list) \<Rightarrow> bool" where
  "leaves_contracts sdk contracts \<longleftrightarrow>
     (\<forall>q m reply m'. sdk q m = (reply, m') \<longrightarrow> (\<forall>b. q \<noteq> ContractsCreate b) \<longrightarrow> contracts m' = contracts m)"

definition same_contracts :: "('m \<Rightarrow> 'k) \<Rightarrow> 'm ctx \<Rightarrow> 'm ctx \<Rightarrow> bool" where
  "same_contracts contracts s t \<longleftrightarrow> contracts (api t) = contracts (api s)"

interpretation same_contracts: state_frame "same_contracts contracts" for contracts
  by unfold_locales (simp_all add: same_contracts_def)

lemma call_same_contracts:
  "leaves_contracts sdk contracts \<Longrightarrow> (\<And>b. q \<noteq> ContractsCreate b) \<Longrightarrow>
     framed (same_contracts contracts) (call_sdk sdk q)"
  by (auto simp: framed_def same_contracts_def call_sdk_def leaves_contracts_def split: prod.split)

lemma basic_same_contracts:
  "framed (same_contracts contracts) (log_at l m x)" "framed (same_contracts contracts) (db_read f)"
  "framed (same_contracts contracts) (add_and_flush ins)" "framed (same_contracts contracts) (flush_update g)"
  by (auto simp: framed_def same_contracts_def log_at_def modifies_def db_read_def add_and_flush_def
      flush_update_def split: sum.split)

lemmas same_contracts_rules = same_contracts.frame_rules basic_same_contracts call_same_contracts

lemma extract_id_same_contracts: "framed (same_contracts contracts) (extract_id r)"
  unfolding extract_id_def by (auto split: option.split intro!: same_contracts_rules)

lemma customer_calls_same_contracts:
  assumes "leaves_contracts sdk contracts"
  shows "framed (same_contracts contracts) (create_customer sdk b)"
    and "framed (same_contracts contracts) (set_customer_name sdk i n)"
  unfolding create_customer_def set_customer_name_def
  by (auto split: sdk_reply.split intro!: same_contracts_rules extract_id_same_contracts assms)

lemma customer_event_same_contracts:
  assumes "leaves_contracts sdk contracts"
  shows "framed (same_contracts contracts) (handle_customer_event ty e sdk i p)"
  unfolding handle_customer_event_def handle_existing_mapping_def create_new_mapping_def
  by (intro same_contracts_rules customer_calls_same_contracts [OF assms])

lemma logging_handlers_same_contracts:
  "framed (same_contracts contracts) (handle_subscription_updated e cfg sdk i p)"
  "framed (same_contracts contracts) (handle_subscription_deleted e cfg sdk i p)"
  unfolding handle_subscription_updated_def handle_subscription_deleted_def by (intro same_contracts_rules)+

lemma attempt_failed_same_contracts: "framed (same_contracts contracts) (attempt_failed e cfg event exc)"
  by (induction e cfg event exc rule: attempt_failed.induct; simp only: attempt_failed.simps schedule_retry_or_fail_def;
      intro same_contracts_rules)

section \<open>One handler\<close>

text \<open>The uniqueness key that the payload of a subscription event leads to, whatever the database holds.\<close>

definition contract_key :: "pydict \<Rightarrow> string option" where
  "contract_key p =
     (case extract_subscription_object p of
        Inl _ \<Rightarrow> None
      | Inr obj \<Rightarrow>
          (case (nonempty_str (dict_get obj ''id''), require_single_item obj) of
             (Some sid, Inr (price, item)) \<Rightarrow>
               (case period_start_unix obj item of
                  Inr start \<Rightarrow> Some (uniqueness_key sid price start) | Inl _ \<Rightarrow> None)
           | _ \<Rightarrow> None))"

lemma contract_body_parts:
  assumes "contract_body cfg p d body"
  obtains obj sid cid crow key where "subscription_event p obj sid cid" "subscription_row sid d = None"
    "customer_row cid d = Some crow" "dict_get body ''customer_id'' = PStr (cm_metronome_customer_id crow)"
    "dict_get body ''uniqueness_key'' = PStr key" "contract_key p = Some key"
proof -
  obtain obj sid cid price crow tier where ev: "subscription_event p obj sid cid" "subscription_row sid d = None"
    "customer_row cid d = Some crow"
    and body: "stripe_subscription_to_metronome_contract_request obj tier (cm_metronome_customer_id crow)
      (metronome_default_rate_card_id cfg) = Inr body"
    using assms by (auto simp: contract_body_def)
  from body show thesis
  proof (rule contract_request_ok)
    fix sid' price_id item start iso
    assume "dict_get obj ''id'' = PStr sid'" "sid' \<noteq> []" "require_single_item obj = Inr (price_id, item)"
      "period_start_unix obj item = Inr start" "dict_get body ''customer_id'' = PStr (cm_metronome_customer_id crow)"
      "dict_get body ''uniqueness_key'' = PStr (uniqueness_key sid' price_id start)"
    with ev show thesis by (intro that [OF ev]) (auto simp: contract_key_def subscription_event_def)
  qed
qed

text \<open>A payload that is no subscription event, or whose subscription has a row, creates nothing.\<close>

lemma no_subscription_event_held:
  assumes "handle_subscription_created e cfg sdk i p s = (r, t)" and "\<nexists>obj sid cid. subscription_event p obj sid cid"
  shows "api t = api s"
  using assms
  by (auto simp: handle_subscription_created_def subscription_event_def bnd_def lift_def log_at_def modifies_def ret_def
      split: sum.splits)

lemma skip_mapped_held: "skip_mapped_subscription e existing ctx s = (r, t) \<Longrightarrow> api t = api s"
  by (auto simp: skip_mapped_subscription_def require_metronome_customer_id_def bnd_def db_read_def ret_def raising_def
      log_completed_def log_at_def modifies_def split: option.splits if_splits)

text \<open>What one run adds: nothing, or one contract under the key of its payload.\<close>

definition adds_contract ::
  "(string \<times> string \<times> string) list \<Rightarrow> (string \<times> string \<times> string) list \<Rightarrow> pydict \<Rightarrow> db \<Rightarrow> bool" where
  "adds_contract cs cs' p d \<longleftrightarrow>
     (\<exists>obj sid cid crow key i. subscription_event p obj sid cid \<and> customer_row cid d = Some crow \<and>
        contract_key p = Some key \<and> key \<notin> set (contract_keys cs) \<and>
        cs' = cs @ [(cm_metronome_customer_id crow, key, i)])"

lemma subscription_created_adds:
  assumes sdk: "honours_uniqueness sdk contracts"
    and run: "handle_subscription_created e cfg sdk i p s = (r, t)" and active: "\<not> deactivated s"
  shows "contracts (api t) = contracts (api s) \<or> adds_contract (contracts (api s)) (contracts (api t)) p (tx s)"
proof (cases "\<exists>obj sid cid. subscription_event p obj sid cid")
  case False
  with no_subscription_event_held [OF run] show ?thesis by simp
next
  case True
  then obtain obj sid cid where ev: "subscription_event p obj sid cid" by blast
  show ?thesis
  proof (cases "subscription_row sid (tx s)")
    case (Some existing)
    obtain ls where "handle_subscription_created e cfg sdk i p s =
        skip_mapped_subscription e existing (subscription_log_ctx i sid cid) (s\<lparr>log := log s @ ls\<rparr>)"
      using handle_subscription_created_run [OF ev active] Some by (metis option.case(2))
    with run have "skip_mapped_subscription e existing (subscription_log_ctx i sid cid) (s\<lparr>log := log s @ ls\<rparr>) = (r, t)"
      by simp
    from skip_mapped_held [OF this] show ?thesis by simp
  next
    case None
    from run active ev None show ?thesis
    proof (cases rule: subscription_run_outcome)
      case (unsent exc)
      then show ?thesis by simp
    next
      case (sent body rc u v)
      obtain obj' sid' cid' crow key where parts: "subscription_event p obj' sid' cid'" "customer_row cid' (tx s) = Some crow"
        "contract_key p = Some key" and
        ids: "dict_get body ''customer_id'' = PStr (cm_metronome_customer_id crow)" "dict_get body ''uniqueness_key'' = PStr key"
        using contract_body_parts [OF sent(1)] by metis
      from subscription_run_held(1) [OF sdk sent(1) ids run active] parts
      show ?thesis unfolding adds_contract_def by metis
    qed
  qed
qed

section \<open>One attempt\<close>

lemma registered_runs:
  assumes "map_of HANDLERS ty = Some h" and "h e cfg sdk i p s = (x, u)"
  obtains (customer) ty' r where "handle_customer_event ty' e sdk i p s = (r, u)"
  | (created) r where "ty = ''customer.subscription.created''" "handle_subscription_created e cfg sdk i p s = (r, u)"
      "x = Inr () \<Longrightarrow> \<exists>q. r = Inr q"
  | (updated) "handle_subscription_updated e cfg sdk i p s = (x, u)"
  | (deleted) "handle_subscription_deleted e cfg sdk i p s = (x, u)"
proof -
  have ran: "\<exists>r. m s = (r, u) \<and> (x = Inr () \<longrightarrow> (\<exists>q. r = Inr q))" if "discard m s = (x, u)"
    for m :: "('a, 'b) session_act"
    using that by (auto simp: discard_def bnd_def ret_def split: prod.splits sum.splits)
  consider "h = (\<lambda>e cfg sdk i p. discard (handle_customer_created e cfg sdk i p))"
    | "h = (\<lambda>e cfg sdk i p. discard (handle_customer_updated e cfg sdk i p))"
    | "ty = ''customer.subscription.created''" "h = (\<lambda>e cfg sdk i p. discard (handle_subscription_created e cfg sdk i p))"
    | "h = handle_subscription_updated" | "h = handle_subscription_deleted"
    using assms(1) by (auto simp: HANDLERS_def split: if_splits)
  then show thesis
  proof cases
    case 1
    with assms(2) have "discard (handle_customer_created e cfg sdk i p) s = (x, u)" by simp
    from ran [OF this] show thesis using customer by (auto simp: handle_customer_created_def)
  next
    case 2
    with assms(2) have "discard (handle_customer_updated e cfg sdk i p) s = (x, u)" by simp
    from ran [OF this] show thesis using customer by (auto simp: handle_customer_updated_def)
  next
    case 3
    with assms(2) have "discard (handle_subscription_created e cfg sdk i p) s = (x, u)" by simp
    from ran [OF this] show thesis using created 3(1) by blast
  qed (use assms(2) updated deleted in simp_all)
qed

lemma handler_adds:
  assumes sdk: "honours_uniqueness sdk contracts" "leaves_contracts sdk contracts"
    and h: "map_of HANDLERS ty = Some h" and run: "h e cfg sdk i p s = (x, u)" and active: "\<not> deactivated s"
  shows "contracts (api u) = contracts (api s) \<or>
    ty = ''customer.subscription.created'' \<and> adds_contract (contracts (api s)) (contracts (api u)) p (tx s)"
  using h run
proof (cases rule: registered_runs)
  case (customer ty' r)
  from framedD [OF customer_event_same_contracts [OF sdk(2)] this] show ?thesis by (simp add: same_contracts_def)
next
  case (created r)
  from subscription_created_adds [OF sdk(1) created(2) active] created(1) show ?thesis by blast
next
  case updated
  from framedD [OF logging_handlers_same_contracts(1) [where contracts = contracts] this] show ?thesis by (simp add: same_contracts_def)
next
  case deleted
  from framedD [OF logging_handlers_same_contracts(2) [where contracts = contracts] this] show ?thesis by (simp add: same_contracts_def)
qed

lemma handle_event_adds:
  fixes sdk :: "'m sdk"
  assumes sdk: "honours_uniqueness sdk contracts" "leaves_contracts sdk contracts"
    and run: "handle_event e cfg sdk row s = (r, t)" and active: "\<not> deactivated s"
  shows "contracts (api t) = contracts (api s) \<or>
    event_type row = ''customer.subscription.created'' \<and>
      adds_contract (contracts (api s)) (contracts (api t)) (payload row) (tx s)"
proof (cases "map_of HANDLERS (event_type row) :: 'm handler_fn option")
  case None
  with run show ?thesis by (auto simp: handle_event_def act_simps log_at_def)
next
  case (Some h)
  obtain x u where h: "h e cfg sdk (stripe_event_id row) (payload row) s = (x, u)"
    by (cases "h e cfg sdk (stripe_event_id row) (payload row) s")
  have "contracts (api t) = contracts (api u)"
  proof (cases x)
    case (Inl exc)
    with run h Some have "attempt_failed e cfg (row\<lparr>attempts := attempts row + 1\<rparr>) exc u = (r, t)"
      by (simp add: handle_event_def act_simps try_except_else_def)
    from framedD [OF attempt_failed_same_contracts this] show ?thesis by (simp add: same_contracts_def)
  next
    case (Inr y)
    with run h Some show ?thesis by (simp add: handle_event_def act_simps try_except_else_def)
  qed
  with handler_adds [OF sdk Some h active] show ?thesis by simp
qed

text \<open>The rows an attempt adds to \<open>subscription_mappings\<close> name contracts that the server holds.\<close>

definition same_subscriptions :: "'m ctx \<Rightarrow> 'm ctx \<Rightarrow> bool" where
  "same_subscriptions s t \<longleftrightarrow> subscription_mappings (tx t) = subscription_mappings (tx s)"

interpretation same_subscriptions: state_frame same_subscriptions
  by unfold_locales (simp_all add: same_subscriptions_def)

lemma same_tx_subscriptions: "framed same_tx m \<Longrightarrow> framed same_subscriptions m"
  by (simp add: framed_def same_tx_def same_subscriptions_def)

lemma flushes_same_subscriptions:
  "framed same_subscriptions (flush_update (set_customer_updated_at k now))"
  "framed same_subscriptions (add_and_flush (insert_customer_mapping r))"
  by (auto simp: framed_def same_subscriptions_def flush_update_def add_and_flush_def insert_customer_frame
      split: sum.split)

lemma customer_event_same_subscriptions: "framed same_subscriptions (handle_customer_event ty e sdk i p)"
  unfolding handle_customer_event_def handle_existing_mapping_def create_new_mapping_def
  by (intro same_subscriptions.frame_rules flushes_same_subscriptions basic_same_tx [THEN same_tx_subscriptions]
      same_tx_subscriptions [OF same_tx_except] client_same_tx)

definition names_held :: "(string \<times> string \<times> string) list \<Rightarrow> subscription_mapping \<Rightarrow> bool" where
  "names_held cs y \<longleftrightarrow> sm_metronome_contract_id y \<in> (\<lambda>c. snd (snd c)) ` set cs"

lemma held_names: "(m, k, sm_metronome_contract_id y) \<in> set cs \<Longrightarrow> names_held cs y"
  by (force simp: names_held_def)

lemma maps_contract_names:
  assumes sdk: "honours_uniqueness sdk contracts" and made: "maps_contract cfg sdk obj crow row r s t"
    and row: "sm_metronome_contract_id row = sr_metronome_contract_id r"
  shows "names_held (contracts (api t)) row"
proof -
  from made obtain tier body created u v
    where body: "stripe_subscription_to_metronome_contract_request obj tier (cm_metronome_customer_id crow)
      (metronome_default_rate_card_id cfg) = Inr body"
    and create: "create_contract sdk body u = (Inr created, v)" and t: "api t = api v"
    and i: "metronome_contract_id created = sr_metronome_contract_id r"
    unfolding maps_contract_def by (elim exE conjE)
  from body show ?thesis
  proof (rule contract_request_ok)
    fix sid price item start iso
    assume "dict_get body ''customer_id'' = PStr (cm_metronome_customer_id crow)"
      "dict_get body ''uniqueness_key'' = PStr (uniqueness_key sid price start)"
    from create_contract_held(2) [OF sdk create this refl]
    have "(cm_metronome_customer_id crow, uniqueness_key sid price start, sm_metronome_contract_id row) \<in>
      set (contracts (api t))" by (simp add: t row i)
    then show ?thesis by (rule held_names)
  qed
qed

lemma subscription_created_names:
  assumes sdk: "honours_uniqueness sdk contracts" and run: "handle_subscription_created e cfg sdk i p s = (Inr r, t)"
  shows "\<exists>ys. subscription_mappings (tx t) = subscription_mappings (tx s) @ ys \<and>
    (\<forall>y \<in> set ys. names_held (contracts (api t)) y)"
proof -
  from subscription_created_post [OF run] obtain obj sid cid row crow
    where row: "sm_metronome_contract_id row = sr_metronome_contract_id r"
    and branch: "case subscription_row sid (tx s) of
       Some existing \<Rightarrow> row = existing \<and> sr_outcome r = CONTRACT_SKIPPED_ALREADY_MAPPED \<and> tx t = tx s \<and> calls t = calls s
     | None \<Rightarrow> sm_stripe_customer_id row = cid \<and> maps_contract cfg sdk obj crow row r s t \<and>
         tx t = (tx s)\<lparr>subscription_mappings := subscription_mappings (tx s) @ [row]\<rparr>"
    by (elim exE conjE)
  show ?thesis
  proof (cases "subscription_row sid (tx s)")
    case (Some existing)
    with branch show ?thesis by (intro exI [of _ "[]"]) simp
  next
    case None
    with branch have "maps_contract cfg sdk obj crow row r s t"
      "subscription_mappings (tx t) = subscription_mappings (tx s) @ [row]" by simp_all
    with maps_contract_names [OF sdk _ row] show ?thesis by (intro exI [of _ "[row]"]) simp
  qed
qed

lemma handle_event_names:
  assumes sdk: "honours_uniqueness sdk contracts" and run: "handle_event e cfg sdk row s = (Inr row', t)"
  shows "\<exists>ys. subscription_mappings (tx t) = subscription_mappings (tx s) @ ys \<and>
    (\<forall>y \<in> set ys. names_held (contracts (api t)) y)"
proof -
  have none: ?thesis if "subscription_mappings (tx t) = subscription_mappings (tx s)"
    using that by (intro exI [of _ "[]"]) simp
  from run show ?thesis
  proof (cases rule: handle_event_Inr)
    case ignored
    then show ?thesis by (intro none) (simp add: same_tx_def)
  next
    case (handled h)
    from handled(1,2) show ?thesis
    proof (cases rule: registered_runs)
      case (customer ty' r)
      from framedD [OF customer_event_same_subscriptions this] show ?thesis
        by (intro none) (simp add: same_subscriptions_def)
    next
      case (created r)
      then obtain q where "handle_subscription_created e cfg sdk (stripe_event_id row) (payload row) s = (Inr q, t)" by blast
      from subscription_created_names [OF sdk this] show ?thesis .
    next
      case updated
      from framedD [OF logging_handlers_same_tx(1) this] show ?thesis by (intro none) (simp add: same_tx_def)
    next
      case deleted
      from framedD [OF logging_handlers_same_tx(2) this] show ?thesis by (intro none) (simp add: same_tx_def)
    qed
  next
    case (failed h exc u)
    have "tx u = tx s" using event_handler.failure_leaves_db [OF registered [OF failed(1)] failed(2)] .
    moreover have "tx t = tx u" using framedD [OF attempt_failed_same_tx failed(3)] by (simp add: same_tx_def)
    ultimately show ?thesis by (intro none) simp
  qed
qed

section \<open>Any number of workers\<close>

text \<open>A step of the cluster in which the contracts change only through requests of the workers.\<close>

definition contract_step ::
  "verifier \<Rightarrow> settings \<Rightarrow> 'm sdk \<Rightarrow> ('m \<Rightarrow> (string \<times> string \<times> string) list) \<Rightarrow> 'm cluster \<Rightarrow> 'm cluster \<Rightarrow> bool" where
  "contract_step construct_event cfg sdk contracts c c' \<longleftrightarrow>
     cluster_step construct_event cfg sdk c c' \<and>
     (requests c' = requests c \<longrightarrow> contracts (metronome_state c') = contracts (metronome_state c))"

text \<open>The event and the customer a contract belongs to.\<close>

definition accounted :: "db \<Rightarrow> string \<Rightarrow> string \<Rightarrow> bool" where
  "accounted d customer key \<longleftrightarrow>
     (\<exists>row obj sid cid crow. row \<in> set (webhook_events d) \<and> event_type row = ''customer.subscription.created'' \<and>
        subscription_event (payload row) obj sid cid \<and> contract_key (payload row) = Some key \<and>
        customer_row cid d = Some crow \<and> cm_metronome_customer_id crow = customer)"

lemma accounted_persists:
  assumes "persists d d'" and "db_ok d" and "accounted d customer key"
  shows "accounted d' customer key"
proof -
  obtain row obj sid cid crow where row: "row \<in> set (webhook_events d)" "event_type row = ''customer.subscription.created''"
    "subscription_event (payload row) obj sid cid" "contract_key (payload row) = Some key"
    and crow: "customer_row cid d = Some crow" "cm_metronome_customer_id crow = customer"
    using assms(3) unfolding accounted_def by (elim exE conjE)
  from persistsD(1) [OF assms(1) event_row_member [OF assms(2) row(1)]] obtain row' where
    new: "event_row (stripe_event_id row) d' = Some row'" "event_type row' = event_type row" "payload row' = payload row"
    by (elim exE conjE)
  have "row' \<in> set (webhook_events d')" using events.lookup_hit [OF new(1)] by blast
  moreover from persistsD(2) [OF assms(1) crow(1)] obtain crow' where
    "customer_row cid d' = Some crow'" "cm_metronome_customer_id crow' = cm_metronome_customer_id crow"
    by (elim exE conjE)
  ultimately show ?thesis
    unfolding accounted_def using row(2-4) crow(2) new(2,3) by metis
qed

lemma tables_grow_customer:
  assumes "tables_grow d d'" and "customer_row k d = Some r"
  obtains r' where "customer_row k d' = Some r'" "cm_metronome_customer_id r' = cm_metronome_customer_id r"
proof -
  obtain xs where "map cm_ids (customer_mappings d') = map cm_ids (customer_mappings d) @ xs"
    using assms(1) by (auto simp: tables_grow_def)
  moreover have "find (\<lambda>i. fst i = k) (map cm_ids (customer_mappings d)) = Some (cm_ids r)"
    using assms(2) by (simp flip: customer_row_ids)
  ultimately have "map_option cm_ids (customer_row k d') = Some (cm_ids r)"
    by (simp add: customer_row_ids find_append del: map_append)
  then show thesis using that by (auto simp: cm_ids_def)
qed

text \<open>
  The invariant: against the contracts \<open>old\<close> of the start, the ones that are new have been
  made once for each customer and key, are accounted for, and are what the mappings name
  that were added to \<open>start\<close>, those of transactions still open included.
\<close>

fun new_mappings_held :: "(string \<times> string \<times> string) list \<Rightarrow> transaction \<Rightarrow> bool" where
  "new_mappings_held cs (Reading e row before) \<longleftrightarrow> True"
| "new_mappings_held cs (Writing e row before row' own) \<longleftrightarrow>
     (\<forall>y \<in> set (drop (length (subscription_mappings before)) (subscription_mappings own)). names_held cs y)"

definition contracts_ok ::
  "('m \<Rightarrow> (string \<times> string \<times> string) list) \<Rightarrow> (string \<times> string \<times> string) list \<Rightarrow> subscription_mapping list \<Rightarrow>
     'm cluster \<Rightarrow> bool" where
  "contracts_ok contracts old start c \<longleftrightarrow>
     (\<exists>new. contracts (metronome_state c) = old @ new \<and>
        distinct (contract_keys new) \<and> set (contract_keys new) \<inter> set (contract_keys old) = {} \<and>
        (\<forall>(m, k, i) \<in> set new. accounted (shared c) m k)) \<and>
     (\<forall>y \<in> set (subscription_mappings (shared c)). y \<in> set start \<or> names_held (contracts (metronome_state c)) y) \<and>
     (\<forall>i t. open_txn c i = Some t \<longrightarrow> new_mappings_held (contracts (metronome_state c)) t)"

text \<open>What one step may do to the contracts.\<close>

definition contracts_grow ::
  "(string \<times> string \<times> string) list \<Rightarrow> (string \<times> string \<times> string) list \<Rightarrow> db \<Rightarrow> bool" where
  "contracts_grow cs cs' d \<longleftrightarrow>
     cs' = cs \<or> (\<exists>m k i. cs' = cs @ [(m, k, i)] \<and> k \<notin> set (contract_keys cs) \<and> accounted d m k)"

lemma names_held_mono: "contracts_grow cs cs' d \<Longrightarrow> names_held cs y \<Longrightarrow> names_held cs' y"
  by (auto simp: contracts_grow_def names_held_def)

lemma new_mappings_held_mono: "contracts_grow cs cs' d \<Longrightarrow> new_mappings_held cs t \<Longrightarrow> new_mappings_held cs' t"
  by (cases t) (auto intro: names_held_mono)

lemma contracts_ok_step:
  assumes ok: "contracts_ok contracts old start c"
    and life: "lifecycle cfg (shared c) (shared c')" and db: "db_ok (shared c)"
    and grow: "contracts_grow (contracts (metronome_state c)) (contracts (metronome_state c')) (shared c')"
    and rows: "\<And>y. y \<in> set (subscription_mappings (shared c')) \<Longrightarrow>
      y \<in> set (subscription_mappings (shared c)) \<or> names_held (contracts (metronome_state c')) y"
    and txns: "\<And>i t. open_txn c' i = Some t \<Longrightarrow>
      open_txn c i = Some t \<or> new_mappings_held (contracts (metronome_state c')) t"
  shows "contracts_ok contracts old start c'"
proof -
  obtain new where new: "contracts (metronome_state c) = old @ new" "distinct (contract_keys new)"
    "set (contract_keys new) \<inter> set (contract_keys old) = {}" "\<forall>(m, k, i) \<in> set new. accounted (shared c) m k"
    using ok unfolding contracts_ok_def by blast
  have keeps: "accounted (shared c') m k" if "accounted (shared c) m k" for m k
    using accounted_persists [OF lifecycle_persists [OF life db] db that] .
  have "\<exists>new. contracts (metronome_state c') = old @ new \<and> distinct (contract_keys new) \<and>
      set (contract_keys new) \<inter> set (contract_keys old) = {} \<and> (\<forall>(m, k, i) \<in> set new. accounted (shared c') m k)"
    using grow unfolding contracts_grow_def
  proof (elim disjE exE conjE)
    assume "contracts (metronome_state c') = contracts (metronome_state c)"
    with new keeps show ?thesis by (intro exI [of _ new]) auto
  next
    fix m k i
    assume "contracts (metronome_state c') = contracts (metronome_state c) @ [(m, k, i)]"
      "k \<notin> set (contract_keys (contracts (metronome_state c)))" "accounted (shared c') m k"
    with new keeps show ?thesis by (intro exI [of _ "new @ [(m, k, i)]"]) auto
  qed
  moreover have "\<forall>y \<in> set (subscription_mappings (shared c')).
      y \<in> set start \<or> names_held (contracts (metronome_state c')) y"
    using rows ok names_held_mono [OF grow] unfolding contracts_ok_def by blast
  moreover have "\<forall>i t. open_txn c' i = Some t \<longrightarrow> new_mappings_held (contracts (metronome_state c')) t"
    using txns ok new_mappings_held_mono [OF grow] unfolding contracts_ok_def by blast
  ultimately show ?thesis unfolding contracts_ok_def by blast
qed

lemma adds_contract_grow:
  assumes "cs' = cs \<or> event_type row = ''customer.subscription.created'' \<and> adds_contract cs cs' (payload row) before"
    and "row \<in> set (webhook_events d)" and "tables_grow before d"
  shows "contracts_grow cs cs' d"
  using assms(1)
proof (elim disjE conjE)
  assume ty: "event_type row = ''customer.subscription.created''" and "adds_contract cs cs' (payload row) before"
  then obtain obj sid cid crow key i where ev: "subscription_event (payload row) obj sid cid"
    and crow: "customer_row cid before = Some crow" and key: "contract_key (payload row) = Some key"
    and new: "key \<notin> set (contract_keys cs)" "cs' = cs @ [(cm_metronome_customer_id crow, key, i)]"
    unfolding adds_contract_def by (elim exE conjE)
  obtain crow' where "customer_row cid d = Some crow'" "cm_metronome_customer_id crow' = cm_metronome_customer_id crow"
    using tables_grow_customer [OF assms(3) crow] .
  with assms(2) ty ev key have "accounted d (cm_metronome_customer_id crow) key" unfolding accounted_def by blast
  with new show ?thesis unfolding contracts_grow_def by blast
qed (simp add: contracts_grow_def)

lemma webhook_keeps_subscriptions:
  assumes "stripe_webhook construct_event cfg req w = (r, w')"
  shows "subscription_mappings (committed w') = subscription_mappings (committed w)"
proof (cases r)
  case (Inl exc)
  with assms show ?thesis using webhook_Inl by fastforce
next
  case (Inr resp)
  with assms show ?thesis by (auto simp: webhook_Inr insert_event_or_nothing_def split: if_splits)
qed

lemma session_active: "\<not> deactivated (session_on d c)"
  by simp

lemma cluster_step_contracts:
  assumes "cluster_step construct_event cfg sdk c c'" and "cluster_ok cfg c" and "contracts_ok contracts old start c"
    and "honours_uniqueness sdk contracts" "leaves_contracts sdk contracts"
    and "requests c' = requests c \<longrightarrow> contracts (metronome_state c') = contracts (metronome_state c)"
  shows "contracts_ok contracts old start c'"
  using assms(3)
proof (rule contracts_ok_step)
  show life: "lifecycle cfg (shared c) (shared c')" using cluster_step_sound [OF assms(1,2)] by blast
  show "db_ok (shared c)" using cluster_okD(1) [OF assms(2)] .
  note ok = cluster_okD(2) [OF assms(2)]
  note adds = handle_event_adds [OF assms(4,5) _ session_active, simplified]
  have worked: "contracts_grow (contracts (metronome_state c)) (contracts (api s)) (shared c)"
    if "open_txn c i = Some (Reading e row d)" "handle_event e cfg sdk row (session_on d c) = (r, s)" for i e row d r s
    using adds_contract_grow [OF adds [OF that(2)]] ok [OF that(1)] by simp
  show "contracts_grow (contracts (metronome_state c)) (contracts (metronome_state c')) (shared c')"
    using assms(1,6) worked by (cases rule: cluster_step.cases) (auto simp: contracts_grow_def)
  have held: "new_mappings_held (contracts (metronome_state c)) t" if "open_txn c i = Some t" for i t
    using assms(3) that unfolding contracts_ok_def by blast
  show "y \<in> set (subscription_mappings (shared c)) \<or> names_held (contracts (metronome_state c')) y"
    if "y \<in> set (subscription_mappings (shared c'))" for y
    using assms(1)
  proof (cases rule: cluster_step.cases)
    case (receives req r w')
    with that webhook_keeps_subscriptions [OF receives(2)] show ?thesis by simp
  next
    case (commits i e row d row' own d')
    from replay_Inr(3) [OF commits(3)] held [OF commits(2)] that commits(1) show ?thesis by auto
  qed (use that in auto)
  show "open_txn c i = Some t \<or> new_mappings_held (contracts (metronome_state c')) t" if "open_txn c' i = Some t" for i t
    using assms(1)
  proof (cases rule: cluster_step.cases)
    case (handles j e row d row' s)
    from handle_event_names [OF assms(4) handles(3)] handles(1) that show ?thesis by (auto split: if_splits)
  qed (use that in \<open>auto split: if_splits\<close>)
qed

lemma contract_steps_ok:
  assumes "(contract_step construct_event cfg sdk contracts)\<^sup>*\<^sup>* c c'" and "cluster_ok cfg c"
    and "contracts_ok contracts old start c" and "honours_uniqueness sdk contracts" "leaves_contracts sdk contracts"
  shows "cluster_ok cfg c' \<and> contracts_ok contracts old start c'"
  using assms(1)
proof (induction rule: rtranclp_induct)
  case base
  show ?case using assms(2,3) ..
next
  case (step u v)
  from step.hyps(2) have "cluster_step construct_event cfg sdk u v"
    "requests v = requests u \<longrightarrow> contracts (metronome_state v) = contracts (metronome_state u)"
    unfolding contract_step_def by blast+
  with step.IH cluster_step_sound [OF this(1)] cluster_step_contracts [OF this(1) _ _ assms(4,5)] show ?case by blast
qed

lemma start_contracts_ok:
  "start_cluster c \<Longrightarrow> contracts_ok contracts (contracts (metronome_state c)) (subscription_mappings (shared c)) c"
  by (simp add: contracts_ok_def start_cluster_def)

section \<open>A worker that dies between the contract and its row\<close>

definition crash_start :: "contract_store cluster" where
  "crash_start =
     \<lparr>shared = mapped_db\<lparr>webhook_events := [sample_event ''customer.subscription.created'' sample_subscription]\<rparr>,
      metronome_state = [], requests = [], open_txn = (\<lambda>_. None)\<rparr>"

definition takes :: "env \<Rightarrow> nat \<Rightarrow> 'm cluster \<Rightarrow> 'm cluster" where
  "takes e i c =
     (case claim_next_event e {} (shared c) of
        None \<Rightarrow> c | Some row \<Rightarrow> c\<lparr>open_txn := (open_txn c)(i \<mapsto> Reading e row (shared c))\<rparr>)"

definition crash_created :: "contract_store cluster" where
  "crash_created = writes sample_settings store_sdk 0 (takes sample_env 0 crash_start)"

definition crash_recovered :: "contract_store cluster" where
  "crash_recovered = writes sample_settings store_sdk 1 (takes sample_env 1 (close_txn 0 crash_created))"

definition crash_end :: "contract_store cluster" where
  "crash_end = ends 1 crash_recovered"

lemma takes_contract_steps:
  assumes "open_txn c = (\<lambda>_. None)"
  shows "(contract_step construct_event cfg sdk contracts)\<^sup>*\<^sup>* c (takes e i c)"
proof (cases "claim_next_event e {} (shared c)")
  case None
  then show ?thesis by (simp add: takes_def)
next
  case (Some row)
  have "cluster_step construct_event cfg sdk c (takes e i c)"
    unfolding takes_def Some option.case using Some by (intro claims [of _ _ "{}"]) (simp_all add: assms held_def)
  with Some show ?thesis by (intro r_into_rtranclp) (simp add: contract_step_def takes_def)
qed

lemma writes_contract_steps:
  assumes "requests (writes cfg sdk i c) \<noteq> requests c"
  shows "(contract_step construct_event cfg sdk contracts)\<^sup>*\<^sup>* c (writes cfg sdk i c)"
  using assms writes_step [OF assms] by (intro r_into_rtranclp) (simp add: contract_step_def)

lemma ends_contract_steps: "(contract_step construct_event cfg sdk contracts)\<^sup>*\<^sup>* c (ends i c)"
  unfolding ends_def
  by (auto split: option.split transaction.split sum.split intro!: r_into_rtranclp commits conflicts
      simp: contract_step_def)

text \<open>The run is evaluated once: two creations requested, one contract, one row.\<close>

lemma crash_run:
  "(\<lambda>(a, b, c). (length (requests a), open_txn a 1, length (requests b), store_contracts (metronome_state c),
      map status (webhook_events (shared c)), map sm_metronome_contract_id (subscription_mappings (shared c))))
     (crash_created, crash_recovered, crash_end) =
   (1, None, 3, [(''m_1'', ''sub_1_price_REPLACE_ME_startup_1699999200'', ''con_0'')], [''processed''], [''con_0''])"
  by code_simp

lemma crash_facts:
  "length (requests crash_created) = 1" "length (requests crash_recovered) = 3"
  "store_contracts (metronome_state crash_end) = [(''m_1'', ''sub_1_price_REPLACE_ME_startup_1699999200'', ''con_0'')]"
  "map status (webhook_events (shared crash_end)) = [''processed'']"
  "map sm_metronome_contract_id (subscription_mappings (shared crash_end)) = [''con_0'']"
  using crash_run unfolding prod.case prod.inject by blast+

lemma store_sdk_leaves: "leaves_contracts store_sdk store_contracts"
proof -
  have "store_contracts m' = store_contracts m" if "store_sdk q m = (reply, m')" "\<forall>b. q \<noteq> ContractsCreate b" for q m reply m'
    using that by (cases q) auto
  then show ?thesis unfolding leaves_contracts_def by blast
qed

lemma others_untouched:
  "j \<noteq> i \<Longrightarrow> open_txn (takes e i c) j = open_txn c j" "j \<noteq> i \<Longrightarrow> open_txn (writes cfg sdk i c) j = open_txn c j"
  by (auto simp: takes_def writes_def split: option.split transaction.split prod.split sum.split)

lemma crash_steps: "(contract_step sample_verifier sample_settings store_sdk store_contracts)\<^sup>*\<^sup>* crash_start crash_end"
proof -
  let ?S = "contract_step sample_verifier sample_settings store_sdk store_contracts"
  have asked: "requests (takes e i c) = requests c" for e i and c :: "contract_store cluster"
    by (simp add: takes_def split: option.split)
  have start: "open_txn crash_start = (\<lambda>_. None)" "requests crash_start = []" by (simp_all add: crash_start_def)
  have one: "?S\<^sup>*\<^sup>* (takes sample_env 0 crash_start) crash_created"
    unfolding crash_created_def
    by (rule writes_contract_steps) (use crash_facts(1) in \<open>auto simp: crash_created_def asked start\<close>)
  have dead: "?S crash_created (close_txn 0 crash_created)"
  proof (cases "open_txn crash_created 0")
    case None
    then have "close_txn 0 crash_created = crash_created" by (simp add: close_txn_def fun_upd_idem)
    with elsewhere [of _ _ _ crash_created "metronome_state crash_created"] show ?thesis by (simp add: contract_step_def)
  next
    case (Some t)
    then show ?thesis by (auto simp: contract_step_def intro: dies)
  qed
  have "open_txn (close_txn 0 crash_created) = (\<lambda>_. None)"
  proof
    fix j
    show "open_txn (close_txn 0 crash_created) j = None"
      by (cases "j = 0") (simp_all add: crash_created_def others_untouched start)
  qed
  note again = takes_contract_steps [OF this, of sample_verifier sample_settings store_sdk store_contracts sample_env 1]
  have "?S\<^sup>*\<^sup>* (takes sample_env 1 (close_txn 0 crash_created)) crash_recovered"
    unfolding crash_recovered_def
    by (rule writes_contract_steps) (use crash_facts(1,2) in \<open>auto simp: crash_recovered_def asked\<close>)
  with takes_contract_steps [OF start(1)] one dead again ends_contract_steps show ?thesis
    unfolding crash_end_def by (meson r_into_rtranclp rtranclp_trans)
qed

section \<open>Properties\<close>

text \<open>C7: every contract has its event, and every mapping its contract. Whatever any number of
  workers do, with crashes, conflicts and retries, on a server where a creation under a taken
  key fails, with whatever error, and on which only they create contracts: no contract is
  lost; each new one belongs to a stored \<open>customer.subscription.created\<close> event, carries the
  key of its payload and the Metronome customer its customer is mapped to; no new contract
  has the key of another one; and a subscription mapping that is new names a contract that
  the server holds.\<close>

theorem every_contract_has_its_event:
  assumes "(contract_step construct_event cfg sdk contracts)\<^sup>*\<^sup>* c c'" and "start_cluster c" and "db_ok (shared c)"
    and "honours_uniqueness sdk contracts" and "leaves_contracts sdk contracts"
  shows "(\<exists>new. contracts (metronome_state c') = contracts (metronome_state c) @ new \<and>
      distinct (contract_keys new) \<and> set (contract_keys new) \<inter> set (contract_keys (contracts (metronome_state c))) = {} \<and>
      (\<forall>(m, k, i) \<in> set new. accounted (shared c') m k)) \<and>
    (\<forall>y \<in> set (subscription_mappings (shared c')).
      y \<in> set (subscription_mappings (shared c)) \<or> names_held (contracts (metronome_state c')) y)"
  using contract_steps_ok [OF assms(1) start_cluster_ok [OF assms(2,3)] start_contracts_ok [OF assms(2)] assms(4,5)]
  unfolding contracts_ok_def by blast

lemma every_contract_has_its_event_witness:
  "store_contracts (metronome_state crash_end) = [(''m_1'', ''sub_1_price_REPLACE_ME_startup_1699999200'', ''con_0'')] \<and>
   accounted (shared crash_end) ''m_1'' ''sub_1_price_REPLACE_ME_startup_1699999200'' \<and>
   map sm_metronome_contract_id (subscription_mappings (shared crash_end)) = [''con_0'']"
proof -
  have start: "start_cluster crash_start" "db_ok (shared crash_start)" "store_contracts (metronome_state crash_start) = []"
    by (simp_all add: start_cluster_def crash_start_def store_contracts_def db_ok_def sample_defs)
  from every_contract_has_its_event [OF crash_steps start(1,2) store_sdk_honours store_sdk_leaves, unfolded start(3)]
  have "\<forall>(m, k, i) \<in> set (store_contracts (metronome_state crash_end)). accounted (shared crash_end) m k"
    by auto
  with crash_facts(3,5) show ?thesis by simp
qed

end
