(* ===== verification/Progress.thy ===== *)
theory Progress
  imports Concurrency
begin

text \<open>
  How much work the workers can do, however many they are and however their transactions
  overlap: an amortised bound. Every attempt is paid for by the attempts left on the stored
  rows, and only events that arrive or are replayed add to them. The locale \<open>amortised\<close> holds
  the argument for any steps with a cost, a gain and a budget; it is interpreted on the
  lifecycle of the events, which the steps of the workers refine.
\<close>

section \<open>Amortised steps\<close>

text \<open>A run as the list of its states, and a quantity of its steps summed up.\<close>

fun follows :: "('s \<Rightarrow> 's \<Rightarrow> bool) \<Rightarrow> 's list \<Rightarrow> bool" where
  "follows step (s # t # rest) \<longleftrightarrow> step s t \<and> follows step (t # rest)"
| "follows step _ \<longleftrightarrow> True"

fun total :: "('s \<Rightarrow> 's \<Rightarrow> nat) \<Rightarrow> 's list \<Rightarrow> nat" where
  "total f (s # t # rest) = f s t + total f (t # rest)"
| "total f _ = 0"

lemma follows_map: "(\<And>s t. step s t \<Longrightarrow> step' (g s) (g t)) \<Longrightarrow> follows step ss \<Longrightarrow> follows step' (map g ss)"
  by (induction step ss rule: follows.induct) auto

locale amortised =
  fixes step :: "'s \<Rightarrow> 's \<Rightarrow> bool" and ok :: "'s \<Rightarrow> bool"
    and cost :: "'s \<Rightarrow> 's \<Rightarrow> nat" and gain :: "'s \<Rightarrow> 's \<Rightarrow> nat" and budget :: "'s \<Rightarrow> nat"
  assumes step_ok: "step s t \<Longrightarrow> ok s \<Longrightarrow> ok t"
    and step_pays: "step s t \<Longrightarrow> ok s \<Longrightarrow> cost s t + budget t \<le> budget s + gain s t"
begin

lemma run_pays:
  "follows step (s # ss) \<Longrightarrow> ok s \<Longrightarrow>
     total cost (s # ss) + budget (last (s # ss)) \<le> budget s + total gain (s # ss)"
proof (induction ss arbitrary: s)
  case (Cons t ss)
  then have step: "step s t" and rest: "follows step (t # ss)" by simp_all
  have "total cost (t # ss) + budget (last (t # ss)) \<le> budget t + total gain (t # ss)"
    using Cons.IH [OF rest] step_ok [OF step Cons.prems(2)] by simp
  with step_pays [OF step Cons.prems(2)] show ?case by simp
qed simp

lemma run_without_gain:
  "follows step (s # ss) \<Longrightarrow> ok s \<Longrightarrow> total gain (s # ss) = 0 \<Longrightarrow> total cost (s # ss) \<le> budget s"
  using run_pays [of s ss] by simp

end

section \<open>The attempts of a step, and the events it puts into the queue\<close>

definition attempts_made :: "db \<Rightarrow> db \<Rightarrow> nat" where
  "attempts_made d d' =
     length (filter (\<lambda>r. case event_row (stripe_event_id r) d' of
         None \<Rightarrow> False | Some r' \<Rightarrow> attempts r' = attempts r + 1) (webhook_events d))"

definition newly_queued :: "db \<Rightarrow> db \<Rightarrow> nat" where
  "newly_queued d d' =
     length (filter (\<lambda>r'. status r' = STATUS_PENDING \<and>
         (case event_row (stripe_event_id r') d of None \<Rightarrow> True | Some r \<Rightarrow> status r \<noteq> STATUS_PENDING))
       (webhook_events d'))"

lemma row_budget_max: "row_ok cfg r \<Longrightarrow> 1 \<le> worker_max_attempts cfg \<Longrightarrow> row_budget cfg r \<le> nat (worker_max_attempts cfg)"
  by (auto simp: row_budget_def row_ok_def)

lemma budget_append: "attempts_left cfg (d\<lparr>webhook_events := webhook_events d @ [r]\<rparr>) = attempts_left cfg d + row_budget cfg r"
  by (simp add: attempts_left_def)

text \<open>A step that changes one row of a table with distinct keys.\<close>

lemma replaced_rows:
  assumes "distinct (map stripe_event_id rows)" and "row \<in> set rows" and "stripe_event_id row' = stripe_event_id row"
  obtains xs ys where "rows = xs @ row # ys" "replace_event row' rows = xs @ row' # ys"
    "stripe_event_id row \<notin> stripe_event_id ` set (xs @ ys)"
proof -
  obtain xs ys where rows: "rows = xs @ row # ys" using assms(2) by (meson split_list)
  with assms(1) have new: "stripe_event_id row \<notin> stripe_event_id ` set (xs @ ys)" by auto
  have "map (\<lambda>r. if stripe_event_id r = stripe_event_id row' then row' else r) zs = zs"
    if "set zs \<subseteq> set (xs @ ys)" for zs
  proof (rule map_idI)
    fix r
    assume "r \<in> set zs"
    with that have "stripe_event_id r \<in> stripe_event_id ` set (xs @ ys)" by blast
    with new assms(3) show "(if stripe_event_id r = stripe_event_id row' then row' else r) = r" by auto
  qed
  then have "replace_event row' rows = xs @ row' # ys" by (simp add: rows replace_event_def assms(3))
  with rows new show thesis using that by blast
qed

lemma find_split: "k (x :: webhook_event) = i \<Longrightarrow> i \<notin> k ` set xs \<Longrightarrow> find (\<lambda>r. k r = i) (xs @ x # ys) = Some x"
  by (induction xs) auto

lemma event_row_distinct:
  "distinct (map stripe_event_id (webhook_events d)) \<Longrightarrow> r \<in> set (webhook_events d) \<Longrightarrow> event_row (stripe_event_id r) d = Some r"
  unfolding event_row_def by (rule find_key_unique)

lemma replaced_step:
  assumes "db_ok d" and "row \<in> set (webhook_events d)" and "stripe_event_id row' = stripe_event_id row"
    and d': "webhook_events d' = replace_event row' (webhook_events d)"
  shows "attempts_made d d' = (if attempts row' = attempts row + 1 then 1 else 0)"
    and "newly_queued d d' = (if status row' = STATUS_PENDING \<and> status row \<noteq> STATUS_PENDING then 1 else 0)"
    and "attempts_left cfg d' + row_budget cfg row = attempts_left cfg d + row_budget cfg row'"
proof -
  have dist: "distinct (map stripe_event_id (webhook_events d))" using assms(1) by (simp add: db_ok_def)
  obtain xs ys where rows: "webhook_events d = xs @ row # ys" "webhook_events d' = xs @ row' # ys"
    and new: "stripe_event_id row \<notin> stripe_event_id ` set (xs @ ys)"
    using replaced_rows [OF dist assms(2,3)] d' by metis
  have "map stripe_event_id (webhook_events d') = map stripe_event_id (webhook_events d)" by (simp add: rows assms(3))
  with dist have dist': "distinct (map stripe_event_id (webhook_events d'))" by simp
  have found: "event_row (stripe_event_id row) d = Some row" "event_row (stripe_event_id row) d' = Some row'"
    using event_row_distinct [OF dist assms(2)] event_row_distinct [OF dist', of row'] rows(2) assms(3) by auto
  have other: "event_row (stripe_event_id r) d = Some r" "event_row (stripe_event_id r) d' = Some r" if "r \<in> set (xs @ ys)" for r
    using that event_row_distinct [OF dist, of r] event_row_distinct [OF dist', of r] rows by auto
  show "attempts_made d d' = (if attempts row' = attempts row + 1 then 1 else 0)"
    unfolding attempts_made_def rows(1) filter_append by (simp add: found other filter_False)
  show "newly_queued d d' = (if status row' = STATUS_PENDING \<and> status row \<noteq> STATUS_PENDING then 1 else 0)"
    unfolding newly_queued_def rows(2) filter_append by (simp add: found other assms(3) filter_False)
  show "attempts_left cfg d' + row_budget cfg row = attempts_left cfg d + row_budget cfg row'"
    by (simp add: attempts_left_def rows)
qed

lemma stored_step:
  assumes "db_ok d" and "i \<notin> stripe_event_id ` set (webhook_events d)"
    and d': "d' = d\<lparr>webhook_events := webhook_events d @ [new_event_row now i ty event]\<rparr>"
  shows "attempts_made d d' = 0" and "newly_queued d d' = 1"
    and "attempts_left cfg d' = attempts_left cfg d + nat (max 1 (worker_max_attempts cfg))"
proof -
  have dist: "distinct (map stripe_event_id (webhook_events d))" using assms(1) by (simp add: db_ok_def)
  then have dist': "distinct (map stripe_event_id (webhook_events d'))" using assms(2) by (simp add: d')
  have old: "event_row (stripe_event_id r) d = Some r" "event_row (stripe_event_id r) d' = Some r"
    if "r \<in> set (webhook_events d)" for r
    using that event_row_distinct [OF dist, of r] event_row_distinct [OF dist', of r] by (auto simp: d')
  have none: "event_row i d = None" using assms(2) by (simp add: events.lookup_None_iff)
  show "attempts_made d d' = 0" by (simp add: attempts_made_def old filter_empty_conv)
  show "newly_queued d d' = 1" by (simp add: newly_queued_def d' old none filter_False)
  show "attempts_left cfg d' = attempts_left cfg d + nat (max 1 (worker_max_attempts cfg))"
    by (simp add: d' budget_append row_budget_def)
qed

lemma lifecycle_pays:
  assumes "lifecycle cfg d d'" and ok: "system_ok cfg d" and max: "1 \<le> worker_max_attempts cfg"
  shows "attempts_made d d' + attempts_left cfg d' \<le>
    attempts_left cfg d + nat (worker_max_attempts cfg) * newly_queued d d'"
proof -
  have db: "db_ok d" and rows: "\<And>r. r \<in> set (webhook_events d) \<Longrightarrow> row_ok cfg r"
    using ok by (auto simp: system_ok_def)
  show ?thesis
    using assms(1)
  proof (cases rule: lifecycle.cases)
    case unchanged
    have "event_row (stripe_event_id r) d = Some r" if "r \<in> set (webhook_events d)" for r
      using event_row_member [OF db that] .
    then have "attempts_made d d = 0" by (simp add: attempts_made_def filter_empty_conv)
    with unchanged show ?thesis by simp
  next
    case (stored i now ty event)
    from stored_step [OF db stored(2) stored(1)] max show ?thesis by simp
  next
    case (attempted row e locked row')
    have "status row = STATUS_PENDING" using attempted(2) by (simp add: claimable_def)
    then have "row_budget cfg row' < row_budget cfg row" using attempt_step_budget [OF attempted(3)] by blast
    with replaced_step(1) [OF db attempted(1) attempt_step_id [OF attempted(3)] attempted(4)]
      replaced_step(3) [OF db attempted(1) attempt_step_id [OF attempted(3)] attempted(4), of cfg]
    show ?thesis by auto
  next
    case (replayed row now)
    have "0 \<le> attempts row" using rows [OF replayed(2)] by (simp add: row_ok_def)
    moreover have new: "webhook_events d' = replace_event (replayed_row now row) (webhook_events d)"
      by (simp add: replayed(1) save_event_rows)
    ultimately show ?thesis
      using replaced_step(1,2) [OF db replayed(2) _ new] replaced_step(3) [OF db replayed(2) _ new, of cfg]
        replayed(3) max
      by (simp add: replayed_row_def row_budget_def)
  qed
qed

interpretation work: amortised "lifecycle cfg" "\<lambda>d. system_ok cfg d \<and> 1 \<le> worker_max_attempts cfg"
    attempts_made "\<lambda>d d'. nat (worker_max_attempts cfg) * newly_queued d d'" "attempts_left cfg" for cfg
  by unfold_locales (use lifecycle_ok lifecycle_pays in blast)+

section \<open>Runs of the workers\<close>

lemma total_mult: "total (\<lambda>s t. k * f s t) ss = k * total f ss"
  by (induction f ss rule: total.induct) (simp_all add: distrib_left)

lemma cluster_follows_lifecycle:
  "follows (cluster_step construct_event cfg sdk) (c # cs) \<Longrightarrow> cluster_ok cfg c \<Longrightarrow>
     follows (lifecycle cfg) (map shared (c # cs))"
proof (induction cs arbitrary: c)
  case (Cons d cs)
  then have step: "cluster_step construct_event cfg sdk c d"
    and rest: "follows (cluster_step construct_event cfg sdk) (d # cs)" by simp_all
  from cluster_step_sound [OF step Cons.prems(2)] Cons.IH [OF rest] show ?case by simp
qed simp

text \<open>Every commit is an attempt that counts.\<close>

lemma commit_makes_one_attempt:
  assumes "cluster_ok cfg c" and "open_txn c i = Some (Writing e row before row' own)"
    and "replay before own (shared c) = Inr d'"
  shows "attempts_made (shared c) (save_event row' d') = 1"
proof -
  have txn: "row \<in> set (webhook_events (shared c))" "attempt_step e cfg row row'"
    using cluster_okD(2) [OF assms(1,2)] by simp_all
  have "webhook_events (save_event row' d') = replace_event row' (webhook_events (shared c))"
    by (simp add: save_event_rows replay_Inr(1) [OF assms(3)])
  from replaced_step(1) [OF cluster_okD(1) [OF assms(1)] txn(1) attempt_step_id [OF txn(2)] this]
  show ?thesis using attempt_step_attempts [OF txn(2)] by simp
qed

text \<open>A run with one commit: a worker claims, handles and commits the first of two events.\<close>

definition race_wrote :: "nat cluster" where
  "race_wrote = writes sample_settings numbering_sdk 0 race_claimed"

definition race_run :: "nat cluster list" where
  "race_run = [race_claimed, race_wrote, ends 0 race_wrote]"

lemma race_run_facts:
  "(requests race_wrote = [], open_txn race_wrote 0 = None, open_txn (ends 0 race_wrote) 0,
    total attempts_made (map shared (race_start # race_run)), total newly_queued (map shared (race_start # race_run)),
    attempts_left sample_settings (shared race_start), attempts_left sample_settings (shared (last race_run))) =
   (False, False, None, 1, 0, 6, 3)"
  by code_simp

section \<open>Properties\<close>

text \<open>C10: the workers' attempts are bounded. In any run of any number of workers with overlapping
  transactions, the attempts committed and the attempts still left together are at most the
  attempts left at the start, and the configured maximum for every event that arrives or is
  replayed. So every event is retried finitely often, and once no event arrives only
  finitely many transactions commit.\<close>

theorem attempts_are_bounded:
  assumes "follows (cluster_step construct_event cfg sdk) (c # cs)" and "start_cluster c"
    and "system_ok cfg (shared c)" and "load_settings cfg = Inr cfg"
  shows "total attempts_made (map shared (c # cs)) + attempts_left cfg (shared (last (c # cs))) \<le>
    attempts_left cfg (shared c) + nat (worker_max_attempts cfg) * total newly_queued (map shared (c # cs))"
proof -
  have "cluster_ok cfg c" using start_cluster_ok [OF assms(2)] assms(3) by (simp add: system_ok_def)
  note run = cluster_follows_lifecycle [OF assms(1) this]
  have "system_ok cfg (shared c) \<and> 1 \<le> worker_max_attempts cfg" using assms(3,4) by (simp add: load_settings_ok)
  from work.run_pays [OF run [unfolded list.map] this, folded list.map]
  show ?thesis by (simp only: total_mult last_map list.distinct simp_thms)
qed

lemma attempts_are_bounded_witness:
  "total attempts_made (map shared (race_start # race_run)) + attempts_left sample_settings (shared (last race_run)) \<le> 6"
proof -
  note facts = race_run_facts [unfolded prod.inject]
  have "requests race_wrote \<noteq> requests race_claimed" using facts by (simp add: race_claimed_def race_start_def)
  moreover have "open_txn (ends 0 race_wrote) 0 \<noteq> open_txn race_wrote 0" using facts by auto
  ultimately have "follows (cluster_step sample_verifier sample_settings numbering_sdk) (race_start # race_run)"
    by (simp add: race_run_def race_wrote_def writes_step ends_step race_claimed_step)
  from attempts_are_bounded [OF this race_start_ok(1,3) sample_settings_load] facts
  show ?thesis by (simp add: race_run_def)
qed

end
