(* ===== verification/Failures.thy ===== *)
theory Failures
  imports Worker
begin

text \<open>
  What a failure of Metronome does to an event: from the request the event leads to, through
  the classification in \<open>metronome_client.py\<close> and the handlers' \<open>except\<close> clauses, to the row
  that the worker commits.
\<close>

section \<open>The request an event leads to\<close>

text \<open>
  On tables \<open>d\<close>, an event of an unmapped customer asks for its creation, an update of a mapped
  one for a new name, and a new subscription of a mapped customer for a contract.
\<close>

inductive first_request :: "settings \<Rightarrow> db \<Rightarrow> webhook_event \<Rightarrow> sdk_call \<Rightarrow> bool"
  for cfg :: settings and d :: db and row :: webhook_event where
  asks_customer: "event_type row \<in> {''customer.created'', ''customer.updated''} \<Longrightarrow>
    extract_customer_object (payload row) = Inr obj \<Longrightarrow> dict_get obj ''id'' = PStr cid \<Longrightarrow> cid \<noteq> [] \<Longrightarrow>
    customer_row cid d = None \<Longrightarrow> stripe_customer_to_metronome_request obj = Inr body \<Longrightarrow>
    first_request cfg d row (CustomersCreate body)"
| asks_name: "event_type row = ''customer.updated'' \<Longrightarrow>
    extract_customer_object (payload row) = Inr obj \<Longrightarrow> dict_get obj ''id'' = PStr cid \<Longrightarrow> cid \<noteq> [] \<Longrightarrow>
    customer_row cid d = Some mapping \<Longrightarrow> stripe_customer_to_metronome_request obj = Inr body \<Longrightarrow>
    first_request cfg d row (CustomersSetName (cm_metronome_customer_id mapping) (dict_get body ''name''))"
| asks_contract: "event_type row = ''customer.subscription.created'' \<Longrightarrow>
    contract_body cfg (payload row) d body \<Longrightarrow> first_request cfg d row (ContractsCreate body)"

text \<open>The 409 that \<open>create_contract\<close> recovers from.\<close>

definition recoverable :: "sdk_call \<Rightarrow> sdk_error \<Rightarrow> bool" where
  "recoverable q x \<longleftrightarrow> (case q of ContractsCreate _ \<Rightarrow> sdk_status x = Some 409 | _ \<Rightarrow> False)"

definition asked :: "sdk_call \<Rightarrow> 'm ctx \<Rightarrow> 'm ctx \<Rightarrow> bool" where
  "asked q s t \<longleftrightarrow> calls t = calls s @ [q] \<and> deactivated t = deactivated s"

lemma customer_request_fails:
  assumes "fst (sdk q (api s)) = Raises x" and "\<not> deactivated s"
    and "extract_customer_object p = Inr obj" "dict_get obj ''id'' = PStr cid" "cid \<noteq> []"
      "stripe_customer_to_metronome_request obj = Inr body"
    and "(case customer_row cid (tx s) of
        None \<Rightarrow> q = CustomersCreate body
      | Some mapping \<Rightarrow> ty \<noteq> ''customer.created'' \<and>
          q = CustomersSetName (cm_metronome_customer_id mapping) (dict_get body ''name''))"
  shows "\<exists>t. handle_customer_event ty e sdk i p s = (Inl (metronome_failure (sdk_exception x)), t) \<and> asked q s t"
proof -
  obtain m where "sdk q (api s) = (Raises x, m)" using assms(1) by (metis prod.collapse)
  with assms(2-7) show ?thesis
    by (cases "customer_row cid (tx s)")
      (simp_all add: handle_customer_event_def handle_existing_mapping_def create_new_mapping_def create_customer_def
        set_customer_name_def call_sdk_def except_as_def customer_require_str_def log_at_def db_read_def bnd_def
        act_simps asked_def)
qed

lemma contract_request_fails:
  assumes "fst (sdk (ContractsCreate body) (api s)) = Raises x" and "\<not> deactivated s"
    and "contract_body cfg p (tx s) body" and "sdk_status x \<noteq> Some 409"
  shows "\<exists>t. handle_subscription_created e cfg sdk i p s = (Inl (metronome_failure (sdk_exception x)), t) \<and>
    asked (ContractsCreate body) s t"
proof -
  obtain obj sid cid price crow tier where ev: "subscription_event p obj sid cid" "subscription_row sid (tx s) = None"
    and facts: "extract_single_price_id obj = Inr price" "customer_row cid (tx s) = Some crow" "lookup_tier price = Inr tier"
      "stripe_subscription_to_metronome_contract_request obj tier (cm_metronome_customer_id crow)
         (metronome_default_rate_card_id cfg) = Inr body"
    using assms(3) by (auto simp: contract_body_def)
  obtain ls where run: "handle_subscription_created e cfg sdk i p s =
      map_new_subscription e cfg sdk obj sid cid (subscription_log_ctx i sid cid) (s\<lparr>log := log s @ ls\<rparr>)"
    using handle_subscription_created_run [OF ev(1) assms(2)] ev(2) by (metis option.case(1))
  obtain m where "sdk (ContractsCreate body) (api s) = (Raises x, m)" using assms(1) by (metis prod.collapse)
  then have "create_contract sdk body (s\<lparr>log := log s @ ls\<rparr>) = (Inl (sdk_exception x),
      s\<lparr>log := log s @ ls, api := m, calls := calls s @ [ContractsCreate body]\<rparr>)"
    using assms(4) by (simp add: create_contract_def call_sdk_def bnd_def raising_def)
  with facts assms(2) show ?thesis unfolding run
    by (simp add: map_new_subscription_def act_simps db_read_def bnd_def lift_def except_as_def asked_def)
qed

lemma discard_Inl: "m s = (Inl exc, t) \<Longrightarrow> discard m s = (Inl exc, t)"
  by (simp add: discard_def bnd_def)

lemma first_request_fails:
  assumes "first_request cfg (tx s) row q" and "fst (sdk q (api s)) = Raises x" and "\<not> deactivated s"
    and "\<not> recoverable q x"
  obtains h t where "map_of HANDLERS (event_type row) = Some h"
    "h e cfg sdk i (payload row) s = (Inl (metronome_failure (sdk_exception x)), t)" "asked q s t"
  using assms(1)
proof (cases rule: first_request.cases)
  case (asks_customer obj cid body)
  then have "case customer_row cid (tx s) of None \<Rightarrow> q = CustomersCreate body
    | Some mapping \<Rightarrow> event_type row \<noteq> ''customer.created'' \<and>
        q = CustomersSetName (cm_metronome_customer_id mapping) (dict_get body ''name'')" by simp
  from customer_request_fails [where sdk = sdk and q = q and s = s and e = e and i = i, OF assms(2,3) asks_customer(3-5,7) this]
  obtain t where t: "handle_customer_event (event_type row) e sdk i (payload row) s =
      (Inl (metronome_failure (sdk_exception x)), t)" "asked q s t" by blast
  from asks_customer(2) show thesis
  proof (elim insertE emptyE)
    assume ty: "event_type row = ''customer.created''"
    show thesis
      by (rule that [of "\<lambda>e cfg sdk i p. discard (handle_customer_created e cfg sdk i p)"])
        (use t ty in \<open>simp_all add: HANDLERS_def handle_customer_created_def discard_Inl\<close>)
  next
    assume ty: "event_type row = ''customer.updated''"
    show thesis
      by (rule that [of "\<lambda>e cfg sdk i p. discard (handle_customer_updated e cfg sdk i p)"])
        (use t ty in \<open>simp_all add: HANDLERS_def handle_customer_updated_def discard_Inl\<close>)
  qed
next
  case (asks_name obj cid mapping body)
  then have "case customer_row cid (tx s) of None \<Rightarrow> q = CustomersCreate body
    | Some mapping \<Rightarrow> event_type row \<noteq> ''customer.created'' \<and>
        q = CustomersSetName (cm_metronome_customer_id mapping) (dict_get body ''name'')" by simp
  from customer_request_fails [where sdk = sdk and q = q and s = s and e = e and i = i, OF assms(2,3) asks_name(3-5,7) this]
  obtain t where t: "handle_customer_event (event_type row) e sdk i (payload row) s =
      (Inl (metronome_failure (sdk_exception x)), t)" "asked q s t" by blast
  show thesis
    by (rule that [of "\<lambda>e cfg sdk i p. discard (handle_customer_updated e cfg sdk i p)"])
      (use t asks_name(2) in \<open>simp_all add: HANDLERS_def handle_customer_updated_def discard_Inl\<close>)
next
  case (asks_contract body)
  with assms(2,4) have "fst (sdk (ContractsCreate body) (api s)) = Raises x" "sdk_status x \<noteq> Some 409"
    by (simp_all add: recoverable_def)
  from contract_request_fails [where sdk = sdk and s = s and body = body and x = x and e = e and i = i, OF this(1) assms(3) asks_contract(3) this(2)]
  obtain t where t: "handle_subscription_created e cfg sdk i (payload row) s =
      (Inl (metronome_failure (sdk_exception x)), t)" "asked q s t" using asks_contract(1) by blast
  show thesis
    by (rule that [of "\<lambda>e cfg sdk i p. discard (handle_subscription_created e cfg sdk i p)"])
      (use t asks_contract(2) in \<open>simp_all add: HANDLERS_def discard_Inl\<close>)
qed

section \<open>The row a failure commits\<close>

lemma failure_commits_row:
  fixes sdk :: "'m sdk"
  assumes claim: "claim_next_event e locked (committed w) = Some row"
    and h: "map_of HANDLERS (event_type row) = Some h"
    and run: "h e cfg sdk (stripe_event_id row) (payload row) (begin_session w) = (Inl exc, t)"
    and active: "\<not> deactivated t"
    and clock: "0 \<le> attempts row" "attempts row < 1024" "load_settings cfg = Inr cfg"
      "0 \<le> draw e" "draw e \<le> 1" "0 \<le> finish_now e"
      "finish_now e + \<lceil>worker_retry_cap_seconds cfg * 1000000\<rceil> \<le> max_datetime"
  shows "\<exists>w' row'. process_one e cfg sdk locked w = (Inr True, w') \<and> all_calls w' = calls t \<and>
    committed w' = save_event row' (committed w) \<and> stripe_event_id row' = stripe_event_id row \<and>
    attempts row' = attempts row + 1 \<and>
    (if \<exists>m. exc = permanent m then status row' = STATUS_FAILED \<and> (\<exists>m. last_error row' = Some (''PERMANENT: '' @ m))
     else if attempts row + 1 < worker_max_attempts cfg
     then status row' = STATUS_PENDING \<and> finish_now e + 1000000 \<le> next_attempt_at row'
     else status row' = STATUS_FAILED \<and> (\<exists>m. last_error row' = Some (''EXHAUSTED RETRIES: '' @ m)))"
proof (cases "\<exists>m. exc = permanent m")
  case True
  then obtain m where exc: "exc = permanent m" by blast
  let ?row = "mark_failed e (row\<lparr>attempts := attempts row + 1\<rparr>) m True"
  from permanent_outcome [OF claim h run [unfolded exc]] obtain w' where
    "process_one e cfg sdk locked w = (Inr True, w')" "all_calls w' = calls t"
    "committed w' = save_event ?row (committed w)"
    by (elim exE conjE)
  with exc show ?thesis by (intro exI [of _ w'] exI [of _ ?row]) (simp add: mark_failed_def)
next
  case False
  then have exc: "\<forall>m. exc \<noteq> permanent m" by blast
  show ?thesis
  proof (cases "attempts row + 1 < worker_max_attempts cfg")
    case True
    let ?row = "\<lambda>n. row\<lparr>attempts := attempts row + 1, status := STATUS_PENDING,
      next_attempt_at := n, last_error := Some (failure_reason exc)\<rparr>"
    from retry_outcome [OF claim h run exc active True clock] obtain w' n where
      "process_one e cfg sdk locked w = (Inr True, w')" "all_calls w' = calls t" "finish_now e + 1000000 \<le> n"
      "committed w' = save_event (?row n) (committed w)"
      by (elim exE conjE)
    with exc True show ?thesis by (intro exI [of _ w'] exI [of _ "?row n"]) simp
  next
    case last: False
    let ?row = "row\<lparr>attempts := attempts row + 1, status := STATUS_FAILED,
      last_error := Some (''EXHAUSTED RETRIES: '' @ failure_reason exc), processed_at := Some (finish_now e)\<rparr>"
    from last have "worker_max_attempts cfg \<le> attempts row + 1" by simp
    from exhausted_outcome [OF claim h run exc active this] obtain w' where
      "process_one e cfg sdk locked w = (Inr True, w')" "all_calls w' = calls t"
      "committed w' = save_event ?row (committed w)"
      by (elim exE conjE)
    with exc last show ?thesis by (intro exI [of _ w'] exI [of _ ?row]) simp
  qed
qed

section \<open>Properties\<close>

text \<open>C24: what a failure of Metronome does to an event. Let the request that the oldest ready event
  leads to (the creation of its customer, a new name, or a contract) fail, other than by the
  409 on a contract, which \<open>create_contract\<close> recovers from. Then exactly this request was
  made, no mapping changes, one more attempt is counted, and the row is committed as follows:
  failed for good if Metronome refused the request (an HTTP status other than 429 and 5xx; a
  409 on a customer is one); and else, after a rate limit, a 5xx, a lost connection, a
  timeout or an exception foreign to the SDK, pending again a second later at the earliest
  if attempts are left, and failed as exhausted if not.\<close>

theorem metronome_failure_outcome:
  fixes sdk :: "'m sdk"
  assumes "claim_next_event e locked (committed w) = Some row" and "first_request cfg (committed w) row q"
    and "fst (sdk q (server w)) = Raises x" and "\<not> recoverable q x"
    and "0 \<le> attempts row" "attempts row < 1024" and "load_settings cfg = Inr cfg"
    and "0 \<le> draw e" "draw e \<le> 1" "0 \<le> finish_now e"
      "finish_now e + \<lceil>worker_retry_cap_seconds cfg * 1000000\<rceil> \<le> max_datetime"
  shows "\<exists>w' row'. process_one e cfg sdk locked w = (Inr True, w') \<and> all_calls w' = all_calls w @ [q] \<and>
    committed w' = save_event row' (committed w) \<and> stripe_event_id row' = stripe_event_id row \<and>
    attempts row' = attempts row + 1 \<and>
    (if refused x then status row' = STATUS_FAILED \<and> (\<exists>m. last_error row' = Some (''PERMANENT: '' @ m))
     else if attempts row + 1 < worker_max_attempts cfg
     then status row' = STATUS_PENDING \<and> finish_now e + 1000000 \<le> next_attempt_at row'
     else status row' = STATUS_FAILED \<and> (\<exists>m. last_error row' = Some (''EXHAUSTED RETRIES: '' @ m)))"
proof -
  let ?s = "begin_session w" and ?exc = "metronome_failure (sdk_exception x)"
  have s: "tx ?s = committed w" "api ?s = server w" "\<not> deactivated ?s" "calls ?s = all_calls w"
    by (simp_all add: begin_session_def)
  obtain h t where h: "map_of HANDLERS (event_type row) = Some h"
    and run: "h e cfg sdk (stripe_event_id row) (payload row) ?s = (Inl ?exc, t)" and q: "asked q ?s t"
    using first_request_fails [of cfg ?s row q sdk x e "stripe_event_id row"] assms(2-4) s by metis
  have t: "\<not> deactivated t" "calls t = all_calls w @ [q]" using q s by (simp_all add: asked_def)
  have final: "(\<exists>m. ?exc = permanent m) \<longleftrightarrow> refused x" using metronome_failures_split by blast
  show ?thesis using failure_commits_row [OF assms(1) h run t(1) assms(5-11)] unfolding t(2) final .
qed

lemma metronome_failure_outcome_witness:
  "\<exists>w'. process_one sample_env sample_settings (failing_sdk (APIStatusError False (Some 409) ''conflict'')) {}
      (queued_world empty_db [sample_event ''customer.created'' sample_customer]) = (Inr True, w') \<and>
    map status (webhook_events (committed w')) = [''failed'']"
proof -
  let ?row = "sample_event ''customer.created'' sample_customer"
  let ?w = "queued_world empty_db [?row]"
  let ?x = "APIStatusError False (Some 409) ''conflict''"
  let ?body = "projr (stripe_customer_to_metronome_request sample_customer)"
  have claim: "claim_next_event sample_env {} (committed ?w) = Some ?row" by code_simp
  have "\<not> isl (stripe_customer_to_metronome_request sample_customer)" by code_simp
  then have request: "first_request sample_settings (committed ?w) ?row (CustomersCreate ?body)"
    by (intro asks_customer [of _ sample_customer "''cus_1''"])
      (simp_all add: sample_event_def extract_customer_object_Inr event_of_def sample_customer_def queued_world_def
        empty_db_def customer_row_def)
  have cfg: "load_settings sample_settings = Inr sample_settings"
    unfolding load_settings_ok by (intro conjI) (simp add: sample_settings_def, code_simp+)
  have "\<exists>w' row'. process_one sample_env sample_settings (failing_sdk ?x) {} ?w = (Inr True, w') \<and>
      committed w' = save_event row' (committed ?w) \<and> stripe_event_id row' = ''evt_1'' \<and> status row' = STATUS_FAILED"
    using metronome_failure_outcome [OF claim request, of "failing_sdk ?x" ?x] cfg
    by (simp add: recoverable_def failing_sdk_def sample_settings_def sample_env_def sample_event_def max_datetime_def)
      blast
  then show ?thesis
    by (elim exE conjE) (simp add: save_event_def queued_world_def sample_event_def STATUS_FAILED_def)
qed

end
