(* ===== verification/Races.thy ===== *)
theory Races
  imports Concurrency Failures
begin

text \<open>
  What several workers cannot promise: two events of one customer that is not mapped, worked on
  at the same time, both lead to a creation of the customer at Metronome.
\<close>

section \<open>The calls of one attempt\<close>













section \<open>Properties\<close>



end
