(* ===== verification/WorkerLoop.thy ===== *)
theory WorkerLoop
  imports Worker
begin

text \<open>
  The \<open>Worker\<close> object with its stop event: \<open>__init__\<close>, \<open>request_stop\<close> and \<open>run\<close> with the
  wait between two polls. \<open>run_loop\<close> of the theory \<open>Worker\<close> is told whether the flag is set
  when the loop looks; here the flag is state, set by a signal that arrives while an event is
  being processed or while the worker waits. The loop refines \<open>run_loop\<close>
  (\<open>worker_run_is_run\<close>).
\<close>

section \<open>The worker\<close>

text \<open>
  The settings and the Metronome client are arguments of the loop. \<open>waits\<close> records how each
  \<open>asyncio.wait_for(self._stop_event.wait(), timeout=...)\<close> came back.
\<close>

datatype wake = Stopped | TimedOut

record 'm worker =
  stop_event :: bool
  waits :: "wake list"
  around :: "'m world"

definition new_worker :: "'m world \<Rightarrow> 'm worker" where
  "new_worker w = \<lparr>stop_event = False, waits = [], around = w\<rparr>"

definition request_stop :: "'m worker \<Rightarrow> 'm worker" where
  "request_stop k = k\<lparr>stop_event := True\<rparr>"

text \<open>One turn of the loop: its readings, and whether a signal calls \<open>request_stop\<close> during it.\<close>

record turn =
  turn_env :: env
  turn_locked :: "string set"
  stop_in_work :: bool
  stop_in_wait :: bool

definition signalled :: "bool \<Rightarrow> 'm worker \<Rightarrow> 'm worker" where
  "signalled arrives k = (if arrives then request_stop k else k)"

definition wait_for_stop :: "turn \<Rightarrow> 'm worker \<Rightarrow> 'm worker" where
  "wait_for_stop t k =
     (if stop_event k then k\<lparr>waits := waits k @ [Stopped]\<rparr>
      else let k' = signalled (stop_in_wait t) k
           in k'\<lparr>waits := waits k' @ [if stop_event k' then Stopped else TimedOut]\<rparr>)"

fun worker_loop :: "settings \<Rightarrow> 'm sdk \<Rightarrow> turn list \<Rightarrow> 'm worker \<Rightarrow> bool \<times> 'm worker" where
  "worker_loop cfg sdk [] k = (False, k)"
| "worker_loop cfg sdk (t # ts) k =
     (if stop_event k
      then (True, k\<lparr>around := world_log INFO ''worker_stopped'' [(''event'', PStr ''worker_stopped'')] (around k)\<rparr>)
      else case iteration (turn_env t) cfg sdk (turn_locked t) (around k) of (processed, w) \<Rightarrow>
        let k1 = signalled (stop_in_work t) (k\<lparr>around := w\<rparr>)
        in worker_loop cfg sdk ts (if processed then k1 else wait_for_stop t k1))"

definition worker_run :: "settings \<Rightarrow> 'm sdk \<Rightarrow> turn list \<Rightarrow> 'm worker \<Rightarrow> bool \<times> 'm worker" where
  "worker_run cfg sdk ts k =
     worker_loop cfg sdk ts
       (k\<lparr>around := world_log INFO ''worker_started''
          [(''event'', PStr ''worker_started''),
           (''poll_interval_s'', PFloat (worker_poll_interval_seconds cfg)),
           (''max_attempts'', PInt (worker_max_attempts cfg))] (around k)\<rparr>)"

section \<open>What a wait does\<close>

lemma signalled_simps [simp]:
  "around (signalled b k) = around k" "waits (signalled b k) = waits k"
  "stop_event (signalled b k) \<longleftrightarrow> b \<or> stop_event k"
  by (simp_all add: signalled_def request_stop_def)

lemma wait_for_stop_simps [simp]:
  "around (wait_for_stop t k) = around k"
  "stop_event (wait_for_stop t k) \<longleftrightarrow> stop_event k \<or> stop_in_wait t"
  "waits (wait_for_stop t k) = waits k @ [if stop_event k \<or> stop_in_wait t then Stopped else TimedOut]"
  by (auto simp: wait_for_stop_def Let_def)

text \<open>The worker after one turn that it has begun.\<close>

definition after_turn :: "settings \<Rightarrow> 'm sdk \<Rightarrow> turn \<Rightarrow> 'm worker \<Rightarrow> 'm worker" where
  "after_turn cfg sdk t k =
     (case iteration (turn_env t) cfg sdk (turn_locked t) (around k) of (processed, w) \<Rightarrow>
        let k1 = signalled (stop_in_work t) (k\<lparr>around := w\<rparr>)
        in if processed then k1 else wait_for_stop t k1)"

lemma worker_loop_Cons:
  "\<not> stop_event k \<Longrightarrow> worker_loop cfg sdk (t # ts) k = worker_loop cfg sdk ts (after_turn cfg sdk t k)"
  by (simp add: after_turn_def Let_def split: prod.split)

lemma after_turn_simps:
  assumes "iteration (turn_env t) cfg sdk (turn_locked t) (around k) = (b, w)"
  shows "around (after_turn cfg sdk t k) = w"
    and "stop_event (after_turn cfg sdk t k) \<longleftrightarrow> stop_event k \<or> stop_in_work t \<or> \<not> b \<and> stop_in_wait t"
    and "waits (after_turn cfg sdk t k) =
      waits k @ (if b then [] else [if stop_event k \<or> stop_in_work t \<or> stop_in_wait t then Stopped else TimedOut])"
  using assms by (auto simp: after_turn_def Let_def)

lemma worker_loop_append:
  "worker_loop cfg sdk ts k = (False, k') \<Longrightarrow> worker_loop cfg sdk (ts @ us) k = worker_loop cfg sdk us k'"
proof (induction ts arbitrary: k)
  case (Cons t ts)
  then have "\<not> stop_event k" by (auto split: if_splits)
  with Cons show ?case by (simp add: worker_loop_Cons del: worker_loop.simps)
qed simp

section \<open>The loop refines the one told its flags\<close>

fun flags :: "settings \<Rightarrow> 'm sdk \<Rightarrow> turn list \<Rightarrow> 'm worker \<Rightarrow> (bool \<times> env \<times> string set) list" where
  "flags cfg sdk [] k = []"
| "flags cfg sdk (t # ts) k =
     (stop_event k, turn_env t, turn_locked t) # flags cfg sdk ts (after_turn cfg sdk t k)"

lemma worker_loop_is_run_loop:
  "worker_loop cfg sdk ts k = (b, k') \<Longrightarrow> run_loop cfg sdk (flags cfg sdk ts k) (around k) = (b, around k')"
proof (induction ts arbitrary: k)
  case (Cons t ts)
  obtain p w where it: "iteration (turn_env t) cfg sdk (turn_locked t) (around k) = (p, w)" by fastforce
  show ?case
  proof (cases "stop_event k")
    case False
    with Cons it after_turn_simps(1) [OF it] show ?thesis by (auto simp: worker_loop_Cons simp del: worker_loop.simps)
  qed (use Cons.prems in auto)
qed simp

lemma worker_run_is_run:
  "worker_run cfg sdk ts k = (b, k') \<Longrightarrow> \<exists>readings. map snd readings = map (\<lambda>t. (turn_env t, turn_locked t)) ts \<and>
     run cfg sdk readings (around k) = (b, around k')"
proof -
  have "map snd (flags cfg sdk ts k) = map (\<lambda>t. (turn_env t, turn_locked t)) ts" for ts and k :: "'a worker"
    by (induction ts arbitrary: k) auto
  then show "worker_run cfg sdk ts k = (b, k') \<Longrightarrow> \<exists>readings. map snd readings = map (\<lambda>t. (turn_env t, turn_locked t)) ts \<and>
     run cfg sdk readings (around k) = (b, around k')"
    unfolding worker_run_def run_def using worker_loop_is_run_loop by fastforce
qed

lemma worker_run_append:
  "worker_run cfg sdk ts k = (False, k') \<Longrightarrow> worker_run cfg sdk (ts @ us) k = worker_loop cfg sdk us k'"
  unfolding worker_run_def by (rule worker_loop_append)

section \<open>Waiting\<close>

text \<open>Without a signal the worker waits after exactly the turns that found nothing to do, each time until the timeout.\<close>

lemma quiet_turns_wait:
  assumes "\<forall>t \<in> set ts. \<not> stop_in_work t \<and> \<not> stop_in_wait t" and "\<not> stop_event k"
  shows "\<exists>bs k'. worker_loop cfg sdk ts k = (False, k') \<and> \<not> stop_event k' \<and> length bs = length ts \<and>
    waits k' = waits k @ replicate (length (filter Not bs)) TimedOut"
  using assms
proof (induction ts arbitrary: k)
  case Nil
  then show ?case by auto
next
  case (Cons t ts)
  obtain b w where it: "iteration (turn_env t) cfg sdk (turn_locked t) (around k) = (b, w)" by fastforce
  let ?k = "after_turn cfg sdk t k"
  have "\<not> stop_event ?k" using Cons.prems after_turn_simps(2) [OF it] by simp
  moreover have "\<forall>t \<in> set ts. \<not> stop_in_work t \<and> \<not> stop_in_wait t" using Cons.prems(1) by simp
  ultimately have "\<exists>bs k'. worker_loop cfg sdk ts ?k = (False, k') \<and> \<not> stop_event k' \<and> length bs = length ts \<and>
    waits k' = waits ?k @ replicate (length (filter Not bs)) TimedOut" by (intro Cons.IH)
  then obtain bs k' where rest: "worker_loop cfg sdk ts ?k = (False, k')" "\<not> stop_event k'" "length bs = length ts"
    "waits k' = waits ?k @ replicate (length (filter Not bs)) TimedOut" by (elim exE conjE)
  have "waits ?k = waits k @ (if b then [] else [TimedOut])" using Cons.prems after_turn_simps(3) [OF it] by simp
  with rest Cons.prems(2) show ?case
    by (intro exI [of _ "b # bs"] exI [of _ k']) (simp add: worker_loop_Cons del: worker_loop.simps)
qed

section \<open>Properties\<close>

text \<open>C34: a worker that is told to stop finishes its event and ends. Let a signal arrive during a
  turn: while an event is processed, or while the worker waits because it found none. The
  event of the turn is completed and committed as if no signal had come, no further event is
  claimed, the worker does not wait for the poll interval any more, and it ends with the line
  \<open>worker_stopped\<close>, whatever the queue still holds.\<close>

theorem stop_finishes_the_current_event:
  assumes "worker_run cfg sdk before k = (False, k1)" and "\<not> stop_event k1"
    and "iteration (turn_env t) cfg sdk (turn_locked t) (around k1) = (processed, w)"
    and "stop_in_work t \<or> \<not> processed \<and> stop_in_wait t"
  shows "worker_run cfg sdk (before @ t # u # after) k =
    (True, \<lparr>stop_event = True, waits = waits k1 @ (if processed then [] else [Stopped]),
            around = world_log INFO ''worker_stopped'' [(''event'', PStr ''worker_stopped'')] w\<rparr>)"
proof -
  let ?k = "after_turn cfg sdk t k1"
  have k: "stop_event ?k" "around ?k = w" "waits ?k = waits k1 @ (if processed then [] else [Stopped])"
    using after_turn_simps [OF assms(3)] assms(4) by auto
  have "worker_run cfg sdk (before @ t # u # after) k = worker_loop cfg sdk (u # after) ?k"
    using worker_run_append [OF assms(1)] worker_loop_Cons [OF assms(2)] by metis
  with k show ?thesis by simp
qed

definition sample_turn :: turn where
  "sample_turn = \<lparr>turn_env = sample_env, turn_locked = {}, stop_in_work = False, stop_in_wait = False\<rparr>"

lemma stop_finishes_the_current_event_witness:
  "\<exists>k. worker_run sample_settings (answering_sdk ''m_1'') [sample_turn\<lparr>stop_in_work := True\<rparr>, sample_turn]
      (new_worker (queued_world empty_db [sample_event ''customer.created'' sample_customer])) = (True, k) \<and>
    map status (webhook_events (committed (around k))) = [''processed''] \<and> waits k = []"
proof -
  let ?k = "new_worker (queued_world empty_db [sample_event ''customer.created'' sample_customer])"
  let ?t = "sample_turn\<lparr>stop_in_work := True\<rparr>"
  let ?k1 = "snd (worker_run sample_settings (answering_sdk ''m_1'') [] ?k)"
  have run: "worker_run sample_settings (answering_sdk ''m_1'') [] ?k = (False, ?k1)" by (simp add: worker_run_def)
  have idle: "\<not> stop_event ?k1" and none: "waits ?k1 = []" by (simp_all add: worker_run_def new_worker_def)
  let ?it = "iteration (turn_env ?t) sample_settings (answering_sdk ''m_1'') (turn_locked ?t) (around ?k1)"
  have "fst ?it" by code_simp
  then have it: "?it = (True, snd ?it)" by (simp add: prod_eq_iff)
  have processed: "map status (webhook_events (committed (snd ?it))) = [''processed'']" by code_simp
  have "stop_in_work ?t \<or> \<not> True \<and> stop_in_wait ?t" by simp
  from stop_finishes_the_current_event [OF run idle it this, of sample_turn "[]"] processed none
  show ?thesis by (simp add: world_log_def)
qed

end
