(* ===== verification/Ordering.thy ===== *)
theory Ordering
  imports System
begin

text \<open>
  What the order of attempts can do. A failed attempt is made again later than events that
  came after it: for mappings this is harmless, for the customer's name at Metronome it is
  not. And the statement that \<open>README.md\<close> gives the operator for a replay, which is not the
  one of \<open>docs/architecture.md\<close>.
\<close>

section \<open>A retried update overtakes a newer one\<close>

text \<open>A Metronome that refuses its first request and keeps the last name it was given.\<close>

definition naming_sdk :: "(nat \<times> pyval) sdk" where
  "naming_sdk c m =
     (case c of
        CustomersSetName i name \<Rightarrow>
          if fst m = 0 then (Raises (APIConnectionError ''down''), (1, snd m))
          else (sample_response i, (Suc (fst m), name))
      | _ \<Rightarrow> (sample_response ''m_1'', m))"

definition renaming :: "string \<Rightarrow> string \<Rightarrow> datetime \<Rightarrow> webhook_event" where
  "renaming i name t =
     (sample_event ''customer.updated'' [(''id'', PStr ''cus_1''), (''name'', PStr name)])
       \<lparr>stripe_event_id := i, received_at := t\<rparr>"

definition renaming_world :: "(nat \<times> pyval) world" where
  "renaming_world =
     \<lparr>committed = mapped_db\<lparr>webhook_events := [renaming ''evt_1'' ''Old'' 5, renaming ''evt_2'' ''New'' 6]\<rparr>,
      server = (0, PNone), all_calls = [], all_log = []\<rparr>"

definition renaming_readings :: "env list" where
  "renaming_readings =
     [sample_env, sample_env\<lparr>claim_now := 1000003\<rparr>, sample_env\<lparr>claim_now := 4000000, finish_now := 4000001\<rparr>]"

text \<open>
  Two updates of one customer, the older one refused at first: both end up processed, and
  Metronome keeps the name of the older one.
\<close>

lemma stale_update_wins:
  "case drain sample_settings naming_sdk renaming_readings renaming_world of (rs, w) \<Rightarrow>
     rs = [Inr True, Inr True, Inr True] \<and>
     map (\<lambda>r. (stripe_event_id r, status r)) (webhook_events (committed w)) =
       [(''evt_1'', ''processed''), (''evt_2'', ''processed'')] \<and>
     all_calls w = [CustomersSetName ''m_1'' (PStr ''Old''), CustomersSetName ''m_1'' (PStr ''New''),
       CustomersSetName ''m_1'' (PStr ''Old'')] \<and>
     snd (server w) = PStr ''Old''"
  by code_simp

section \<open>The replay of README.md\<close>

text \<open>
  \<open>UPDATE webhook_events SET status = 'pending', attempts = 0, next_attempt_at = NOW(),
  last_error = NULL WHERE stripe_event_id = ...\<close>, without \<open>processed_at\<close>.
\<close>

definition readme_replayed_row :: "datetime \<Rightarrow> webhook_event \<Rightarrow> webhook_event" where
  "readme_replayed_row now row =
     row\<lparr>status := STATUS_PENDING, attempts := 0, next_attempt_at := now, last_error := None\<rparr>"

lemma readme_replay_keeps_the_time:
  assumes "row_ok cfg row" and "status row = STATUS_FAILED"
  shows "status (readme_replayed_row now row) = STATUS_PENDING \<and> processed_at (readme_replayed_row now row) \<noteq> None \<and>
    \<not> row_ok cfg (readme_replayed_row now row) \<and>
    replayed_row now row = (readme_replayed_row now row)\<lparr>processed_at := None\<rparr>"
  using assms by (auto simp: row_ok_def readme_replayed_row_def replayed_row_def)

end
