(* ===== verification/AlembicEnv.thy ===== *)
theory AlembicEnv
  imports Sample
begin

text \<open>
  \<open>alembic/env.py\<close>: the reader of the \<open>.env\<close> file and the database URL of the
  migrations. The environment is the association list of its variables; the rest of the
  file hands both to the alembic library.
\<close>

section \<open>The .env reader\<close>

type_synonym environ = "(string \<times> string) list"

text \<open>
  \<open>str.splitlines\<close>: a line ends at a line feed, a carriage return, the two together, one of
  the ASCII separators, U+0085, U+2028 or U+2029; the last line need not be ended.
\<close>

definition line_ends :: "string list" where
  "line_ends =
     [[CHR 0x0D, CHR 0x0A], [CHR 0x0A], [CHR 0x0D], [CHR 0x0B], [CHR 0x0C], [CHR 0x1C], [CHR 0x1D], [CHR 0x1E],
      [CHR 0xC2, CHR 0x85], [CHR 0xE2, CHR 0x80, CHR 0xA8], [CHR 0xE2, CHR 0x80, CHR 0xA9]]"

function split_lines :: "string \<Rightarrow> string \<Rightarrow> string list" where
  "split_lines acc s =
     (case s of
        [] \<Rightarrow> (if acc = [] then [] else [rev acc])
      | c # cs \<Rightarrow>
          (case leading line_ends s of
             Some w \<Rightarrow> rev acc # split_lines [] (drop (length w) s)
           | None \<Rightarrow> split_lines (c # acc) cs))"
  by pat_completeness auto
termination
proof (relation "measure (\<lambda>(acc, s). length s)")
  fix acc s c cs w
  assume "s = c # cs" "leading line_ends s = Some w"
  then have "w \<noteq> []" "s \<noteq> []" by (auto dest: leading_SomeD)
  then show "(([], drop (length w) s), acc, s) \<in> measure (\<lambda>(acc, s). length s)" by simp
qed auto

declare split_lines.simps [simp del]

definition splitlines :: "string \<Rightarrow> string list" where
  "splitlines s = split_lines [] s"

text \<open>\<open>s.strip(c)\<close> for one character.\<close>

definition strip_char :: "char \<Rightarrow> string \<Rightarrow> string" where
  "strip_char c s = rev (dropWhile (\<lambda>x. x = c) (rev (dropWhile (\<lambda>x. x = c) s)))"

text \<open>\<open>line.partition("=")\<close>, without the separator.\<close>

definition partition_eq :: "string \<Rightarrow> string \<times> string" where
  "partition_eq s = (takeWhile (\<lambda>x. x \<noteq> CHR ''='') s, drop 1 (dropWhile (\<lambda>x. x \<noteq> CHR ''='') s))"

text \<open>
  \<open>os.environ.setdefault\<close>: a variable that is set keeps its value. The operating system
  refuses an empty name, and Python a null byte.
\<close>

definition setdefault :: "string \<Rightarrow> string \<Rightarrow> environ \<Rightarrow> exn + environ" where
  "setdefault k v env =
     (if map_of env k \<noteq> None then Inr env
      else if CHR 0x00 \<in> set k \<or> CHR 0x00 \<in> set v then Inl (ValueError (PlainValueError ''embedded null byte''))
      else if k = [] then Inl (OSError ''[Errno 22] Invalid argument'')
      else Inr (env @ [(k, v)]))"

text \<open>The variable a line defines, if it defines one: the body of the loop before \<open>setdefault\<close>.\<close>

definition dotenv_entry :: "string \<Rightarrow> (string \<times> string) option" where
  "dotenv_entry raw =
     (let line = py_strip raw in
      if line = [] \<or> take 1 line = ''#'' \<or> CHR ''='' \<notin> set line then None
      else let (k, v) = partition_eq line
           in Some (py_strip k, strip_char CHR 0x27 (strip_char CHR 0x22 (py_strip v))))"

fun load_lines :: "string list \<Rightarrow> environ \<Rightarrow> exn + environ" where
  "load_lines [] env = Inr env"
| "load_lines (raw # rest) env =
     (case dotenv_entry raw of
        None \<Rightarrow> load_lines rest env
      | Some (k, v) \<Rightarrow> try_bind (setdefault k v env) (load_lines rest))"

text \<open>All variables that the lines define, in order.\<close>

primrec dotenv_entries :: "string list \<Rightarrow> (string \<times> string) list" where
  "dotenv_entries [] = []"
| "dotenv_entries (raw # rest) =
     (case dotenv_entry raw of None \<Rightarrow> dotenv_entries rest | Some e \<Rightarrow> e # dotenv_entries rest)"

text \<open>\<open>None\<close> stands for a \<open>.env\<close> that is no file.\<close>

definition load_dotenv_if_present :: "string option \<Rightarrow> environ \<Rightarrow> exn + environ" where
  "load_dotenv_if_present file env =
     (case file of None \<Rightarrow> Inr env | Some content \<Rightarrow> load_lines (splitlines content) env)"

section \<open>The URL\<close>

definition alembic_database_url :: "environ \<Rightarrow> exn + string" where
  "alembic_database_url env =
     (case map_of env ''DATABASE_URL'' of
        None \<Rightarrow> Inl (OtherException ''RuntimeError''
          (''DATABASE_URL is required to run migrations. '' @ ''Set it in your environment or .env file.''))
      | Some url \<Rightarrow>
          if url = [] then Inl (OtherException ''RuntimeError''
            (''DATABASE_URL is required to run migrations. '' @ ''Set it in your environment or .env file.''))
          else Inr (py_replace ''+asyncpg'' [] url))"

section \<open>Facts\<close>

lemma setdefault_Inr:
  "setdefault k v env = Inr env' \<longleftrightarrow>
     map_of env k \<noteq> None \<and> env' = env \<or>
     map_of env k = None \<and> k \<noteq> [] \<and> CHR 0x00 \<notin> set k \<and> CHR 0x00 \<notin> set v \<and> env' = env @ [(k, v)]"
  by (auto simp: setdefault_def)

lemma setdefault_lookup:
  "setdefault k v env = Inr env' \<Longrightarrow>
     map_of env' x = (case map_of env x of Some y \<Rightarrow> Some y | None \<Rightarrow> if x = k then Some v else None)"
  by (auto simp: setdefault_Inr map_of_append map_add_def split: option.split)

lemma load_lines_append:
  "load_lines (xs @ ys) env = try_bind (load_lines xs env) (load_lines ys)"
proof (induction xs arbitrary: env)
  case (Cons x xs)
  show ?case
  proof (cases "dotenv_entry x")
    case (Some kv)
    obtain k v where "kv = (k, v)" by (cases kv)
    with Some Cons show ?thesis by (cases "setdefault k v env") auto
  qed (simp add: Cons)
qed simp

text \<open>The environment after loading: what was set, and the first definition of what was not.\<close>

lemma load_lines_lookup:
  "load_lines ls env = Inr env' \<Longrightarrow>
     map_of env' x = (case map_of env x of Some y \<Rightarrow> Some y | None \<Rightarrow> map_of (dotenv_entries ls) x)"
proof (induction ls arbitrary: env)
  case Nil
  then show ?case by (simp split: option.split)
next
  case (Cons l ls)
  show ?case
  proof (cases "dotenv_entry l")
    case None
    with Cons show ?thesis by (simp split: option.split)
  next
    case (Some kv)
    obtain k v where kv: "kv = (k, v)" by (cases kv)
    with Some Cons.prems obtain env1 where "setdefault k v env = Inr env1" "load_lines ls env1 = Inr env'"
      by (auto simp: try_bind_eq_Inr)
    with Some kv show ?thesis
      using setdefault_lookup [of k v env env1 x] Cons.IH [of env1]
      by (auto split: option.splits if_splits)
  qed
qed

lemma load_lines_settled:
  "\<forall>(k, v) \<in> set (dotenv_entries ls). map_of env k \<noteq> None \<Longrightarrow> load_lines ls env = Inr env"
proof (induction ls)
  case (Cons l ls)
  then show ?case
    by (cases "dotenv_entry l") (auto simp: setdefault_def)
qed simp

section \<open>Properties\<close>

text \<open>The \<open>.env\<close> reader. When it returns, every variable that was set keeps its value, and every
  other one has the value of the first line of the file that defines it, or is not set; and
  reading the file again changes nothing.\<close>

lemma dotenv_fills_the_gaps:
  assumes "load_dotenv_if_present (Some content) env = Inr env'"
  shows "(\<forall>x. map_of env' x =
      (case map_of env x of
         Some y \<Rightarrow> Some y
       | None \<Rightarrow> map_of (dotenv_entries (splitlines content)) x)) \<and>
    load_dotenv_if_present (Some content) env' = Inr env'"
proof -
  have load: "load_lines (splitlines content) env = Inr env'"
    using assms by (simp add: load_dotenv_if_present_def)
  note look = load_lines_lookup [OF load]
  have "map_of env' k \<noteq> None" if "(k, v) \<in> set (dotenv_entries (splitlines content))" for k v
  proof -
    have "k \<in> fst ` set (dotenv_entries (splitlines content))" using that by force
    then have "map_of (dotenv_entries (splitlines content)) k \<noteq> None" by (simp add: map_of_eq_None_iff)
    then show ?thesis using look [of k] by (auto split: option.splits)
  qed
  then have "load_lines (splitlines content) env' = Inr env'" by (intro load_lines_settled) auto
  then show ?thesis using look by (simp add: load_dotenv_if_present_def)
qed

definition sample_dotenv :: string where
  "sample_dotenv =
     ''# local'' @ [CHR 0x0A] @ ''DATABASE_URL='' @ [CHR 0x22] @ ''postgresql+asyncpg://db/sidecar'' @ [CHR 0x22] @
     [CHR 0x0D, CHR 0x0A] @ '' LOG_LEVEL = INFO '' @ [CHR 0x0A] @ ''LOG_LEVEL=DEBUG''"

lemma dotenv_fills_the_gaps_example:
  "\<exists>env. load_dotenv_if_present (Some sample_dotenv) [(''PORT'', ''9'')] = Inr env \<and>
     load_dotenv_if_present (Some sample_dotenv) env = Inr env"
proof -
  have run: "load_dotenv_if_present (Some sample_dotenv) [(''PORT'', ''9'')] =
      Inr [(''PORT'', ''9''), (''DATABASE_URL'', ''postgresql+asyncpg://db/sidecar''), (''LOG_LEVEL'', ''INFO'')]"
    by code_simp
  show ?thesis by (rule exI, rule conjI [OF run conjunct2 [OF dotenv_fills_the_gaps [OF run]]])
qed

text \<open>The two synchronous URLs agree. For a database URL \<open>postgresql+asyncpg\<close> followed by a part
  that names neither driver again, the URL the migrations run on is the one the settings
  derive: the same URL without the driver.\<close>

lemma migration_url_agrees:
  assumes "database_url s = ''postgresql+asyncpg'' @ rest"
    and "\<not> occurs_in ''+asyncpg'' rest" and "\<not> occurs_in ''postgresql+psycopg2'' rest"
    and "map_of env ''DATABASE_URL'' = Some (database_url s)"
  shows "alembic_database_url env = Inr (sync_database_url s) \<and> sync_database_url s = ''postgresql'' @ rest"
proof -
  have "py_replace ''+asyncpg'' [] (''postgresql'' @ ''+asyncpg'' @ rest) = ''postgresql'' @ rest"
    using assms(2) py_replace_prefix [of "''+asyncpg''" "[]" rest]
    by (simp add: py_replace_Cons py_replace_absent)
  then show ?thesis using assms sync_url [OF assms(1-3)] by (simp add: alembic_database_url_def)
qed

lemma migration_url_agrees_example:
  "alembic_database_url [(''DATABASE_URL'', database_url sample_settings)] = Inr (sync_database_url sample_settings)"
  using migration_url_agrees [of sample_settings "''://db/sidecar''" "[(''DATABASE_URL'', database_url sample_settings)]"]
  by (simp add: sample_settings_def occurs_in_Nil occurs_in_Cons)

end
