(* ===== verification/Schema.thy ===== *)
theory Schema
  imports Database
begin

text \<open>
  The schema, twice: as the metadata that \<open>models.py\<close> declares and as what the alembic
  migrations \<open>0001_initial\<close> and \<open>0002_subscription_mappings\<close> do to a database, with the
  operations they use. \<open>schema_holds\<close> says when stored rows satisfy the constraints of
  a schema; the lemmas connect it with the integrity \<open>db_ok\<close> of the model's tables.
\<close>

section \<open>Schemas and the operations of a migration\<close>

datatype column_type = TextType | IntegerType | JSONBType | DateTimeTZ

record column =
  column_name :: string
  column_type :: column_type
  nullable :: bool
  server_default :: "string option"

record unique_constraint =
  unique_name :: "string option"
  unique_columns :: "string list"

record foreign_key =
  foreign_name :: "string option"
  foreign_columns :: "string list"
  parent_table :: string
  parent_columns :: "string list"

record table =
  table_name :: string
  columns :: "column list"
  primary_key :: "string list"
  unique_constraints :: "unique_constraint list"
  foreign_keys :: "foreign_key list"

record index =
  index_name :: string
  index_table :: string
  index_columns :: "string list"
  index_where :: "string option"

record schema =
  tables :: "table list"
  indexes :: "index list"

datatype ddl_error =
    DuplicateTable string
  | UndefinedTable string
  | DependentObjects string
  | DuplicateIndex string
  | UndefinedIndex string

definition create_table :: "table \<Rightarrow> schema \<Rightarrow> ddl_error + schema" where
  "create_table t s =
     (if table_name t \<in> table_name ` set (tables s) then Inl (DuplicateTable (table_name t))
      else case find (\<lambda>f. parent_table f \<notin> table_name ` set (tables s)) (foreign_keys t) of
        Some f \<Rightarrow> Inl (UndefinedTable (parent_table f))
      | None \<Rightarrow> Inr (s\<lparr>tables := tables s @ [t]\<rparr>))"

text \<open>A table another table refers to cannot be dropped; its indexes go with it.\<close>

definition drop_table :: "string \<Rightarrow> schema \<Rightarrow> ddl_error + schema" where
  "drop_table n s =
     (if n \<notin> table_name ` set (tables s) then Inl (UndefinedTable n)
      else if \<exists>t \<in> set (tables s). table_name t \<noteq> n \<and> n \<in> parent_table ` set (foreign_keys t)
      then Inl (DependentObjects n)
      else Inr \<lparr>tables = filter (\<lambda>t. table_name t \<noteq> n) (tables s),
                indexes = filter (\<lambda>i. index_table i \<noteq> n) (indexes s)\<rparr>)"

definition create_index :: "index \<Rightarrow> schema \<Rightarrow> ddl_error + schema" where
  "create_index i s =
     (if index_name i \<in> index_name ` set (indexes s) then Inl (DuplicateIndex (index_name i))
      else if index_table i \<notin> table_name ` set (tables s) then Inl (UndefinedTable (index_table i))
      else Inr (s\<lparr>indexes := indexes s @ [i]\<rparr>))"

definition drop_index :: "string \<Rightarrow> schema \<Rightarrow> ddl_error + schema" where
  "drop_index n s =
     (if n \<notin> index_name ` set (indexes s) then Inl (UndefinedIndex n)
      else Inr (s\<lparr>indexes := filter (\<lambda>i. index_name i \<noteq> n) (indexes s)\<rparr>))"

section \<open>models.py\<close>

text \<open>\<open>mapped_column\<close> and \<open>sa.Column\<close>: the column with its type, whether it may be null, and its default.\<close>

definition col :: "string \<Rightarrow> column_type \<Rightarrow> bool \<Rightarrow> string option \<Rightarrow> column" where
  "col n ty null_ok dflt = \<lparr>column_name = n, column_type = ty, nullable = null_ok, server_default = dflt\<rparr>"

definition WebhookEvent_table :: table where
  "WebhookEvent_table =
     \<lparr>table_name = ''webhook_events'',
      columns =
        [col ''stripe_event_id'' TextType False None,
         col ''event_type'' TextType False None,
         col ''payload'' JSONBType False None,
         col ''status'' TextType False (Some ([CHR 0x27] @ ''pending'' @ [CHR 0x27])),
         col ''attempts'' IntegerType False (Some ''0''),
         col ''last_error'' TextType True None,
         col ''received_at'' DateTimeTZ False (Some ''NOW()''),
         col ''next_attempt_at'' DateTimeTZ False (Some ''NOW()''),
         col ''processed_at'' DateTimeTZ True None],
      primary_key = [''stripe_event_id''], unique_constraints = [], foreign_keys = []\<rparr>"

definition CustomerMapping_table :: table where
  "CustomerMapping_table =
     \<lparr>table_name = ''customer_mappings'',
      columns =
        [col ''stripe_customer_id'' TextType False None,
         col ''metronome_customer_id'' TextType False None,
         col ''created_at'' DateTimeTZ False (Some ''NOW()''),
         col ''updated_at'' DateTimeTZ False (Some ''NOW()'')],
      primary_key = [''stripe_customer_id''],
      unique_constraints = [\<lparr>unique_name = None, unique_columns = [''metronome_customer_id'']\<rparr>],
      foreign_keys = []\<rparr>"

definition SubscriptionMapping_table :: table where
  "SubscriptionMapping_table =
     \<lparr>table_name = ''subscription_mappings'',
      columns =
        [col ''stripe_subscription_id'' TextType False None,
         col ''stripe_customer_id'' TextType False None,
         col ''metronome_contract_id'' TextType False None,
         col ''current_tier_name'' TextType False None,
         col ''current_stripe_price_id'' TextType False None,
         col ''created_at'' DateTimeTZ False (Some ''NOW()''),
         col ''updated_at'' DateTimeTZ False (Some ''NOW()'')],
      primary_key = [''stripe_subscription_id''],
      unique_constraints = [\<lparr>unique_name = None, unique_columns = [''metronome_contract_id'']\<rparr>],
      foreign_keys = [\<lparr>foreign_name = None, foreign_columns = [''stripe_customer_id''],
        parent_table = ''customer_mappings'', parent_columns = [''stripe_customer_id'']\<rparr>]\<rparr>"

text \<open>The indexes of the two \<open>__table_args__\<close>, and \<open>Base.metadata\<close>.\<close>

definition WebhookEvent_index :: index where
  "WebhookEvent_index =
     \<lparr>index_name = ''idx_webhook_events_pending'', index_table = ''webhook_events'',
      index_columns = [''next_attempt_at''],
      index_where = Some (''status = '' @ [CHR 0x27] @ ''pending'' @ [CHR 0x27])\<rparr>"

definition SubscriptionMapping_index :: index where
  "SubscriptionMapping_index =
     \<lparr>index_name = ''idx_subscription_mappings_stripe_customer'', index_table = ''subscription_mappings'',
      index_columns = [''stripe_customer_id''], index_where = None\<rparr>"

definition metadata :: schema where
  "metadata =
     \<lparr>tables = [WebhookEvent_table, CustomerMapping_table, SubscriptionMapping_table],
      indexes = [WebhookEvent_index, SubscriptionMapping_index]\<rparr>"

section \<open>The migrations\<close>

definition upgrade_0001 :: "schema \<Rightarrow> ddl_error + schema" where
  "upgrade_0001 s =
     try_bind (create_table
       \<lparr>table_name = ''webhook_events'',
        columns =
          [col ''stripe_event_id'' TextType False None,
           col ''event_type'' TextType False None,
           col ''payload'' JSONBType False None,
           col ''status'' TextType False (Some ([CHR 0x27] @ ''pending'' @ [CHR 0x27])),
           col ''attempts'' IntegerType False (Some ''0''),
           col ''last_error'' TextType True None,
           col ''received_at'' DateTimeTZ False (Some ''NOW()''),
           col ''next_attempt_at'' DateTimeTZ False (Some ''NOW()''),
           col ''processed_at'' DateTimeTZ True None],
        primary_key = [''stripe_event_id''], unique_constraints = [], foreign_keys = []\<rparr> s) (\<lambda>s1.
     try_bind (create_index
       \<lparr>index_name = ''idx_webhook_events_pending'', index_table = ''webhook_events'',
        index_columns = [''next_attempt_at''],
        index_where = Some (''status = '' @ [CHR 0x27] @ ''pending'' @ [CHR 0x27])\<rparr> s1) (\<lambda>s2.
     create_table
       \<lparr>table_name = ''customer_mappings'',
        columns =
          [col ''stripe_customer_id'' TextType False None,
           col ''metronome_customer_id'' TextType False None,
           col ''created_at'' DateTimeTZ False (Some ''NOW()''),
           col ''updated_at'' DateTimeTZ False (Some ''NOW()'')],
        primary_key = [''stripe_customer_id''],
        unique_constraints =
          [\<lparr>unique_name = Some ''uq_customer_mappings_metronome_customer_id'',
            unique_columns = [''metronome_customer_id'']\<rparr>],
        foreign_keys = []\<rparr> s2))"

definition downgrade_0001 :: "schema \<Rightarrow> ddl_error + schema" where
  "downgrade_0001 s =
     try_bind (drop_table ''customer_mappings'' s) (\<lambda>s1.
     try_bind (drop_index ''idx_webhook_events_pending'' s1) (\<lambda>s2.
     drop_table ''webhook_events'' s2))"

definition upgrade_0002 :: "schema \<Rightarrow> ddl_error + schema" where
  "upgrade_0002 s =
     try_bind (create_table
       \<lparr>table_name = ''subscription_mappings'',
        columns =
          [col ''stripe_subscription_id'' TextType False None,
           col ''stripe_customer_id'' TextType False None,
           col ''metronome_contract_id'' TextType False None,
           col ''current_tier_name'' TextType False None,
           col ''current_stripe_price_id'' TextType False None,
           col ''created_at'' DateTimeTZ False (Some ''NOW()''),
           col ''updated_at'' DateTimeTZ False (Some ''NOW()'')],
        primary_key = [''stripe_subscription_id''],
        unique_constraints =
          [\<lparr>unique_name = Some ''uq_subscription_mappings_metronome_contract_id'',
            unique_columns = [''metronome_contract_id'']\<rparr>],
        foreign_keys =
          [\<lparr>foreign_name = Some ''fk_subscription_mappings_stripe_customer'',
            foreign_columns = [''stripe_customer_id''], parent_table = ''customer_mappings'',
            parent_columns = [''stripe_customer_id'']\<rparr>]\<rparr> s) (\<lambda>s1.
     create_index
       \<lparr>index_name = ''idx_subscription_mappings_stripe_customer'', index_table = ''subscription_mappings'',
        index_columns = [''stripe_customer_id''], index_where = None\<rparr> s1)"

definition downgrade_0002 :: "schema \<Rightarrow> ddl_error + schema" where
  "downgrade_0002 s =
     try_bind (drop_index ''idx_subscription_mappings_stripe_customer'' s) (drop_table ''subscription_mappings'')"

text \<open>\<open>alembic upgrade head\<close> and \<open>alembic downgrade base\<close>: the revisions in the order of \<open>down_revision\<close>.\<close>

definition upgrade_head :: "schema \<Rightarrow> ddl_error + schema" where
  "upgrade_head s = try_bind (upgrade_0001 s) upgrade_0002"

definition downgrade_base :: "schema \<Rightarrow> ddl_error + schema" where
  "downgrade_base s = try_bind (downgrade_0002 s) downgrade_0001"

text \<open>The schema without the names of its constraints: \<open>models.py\<close> leaves them to the database.\<close>

definition unnamed_table :: "table \<Rightarrow> table" where
  "unnamed_table t =
     t\<lparr>unique_constraints := map (\<lambda>u. u\<lparr>unique_name := None\<rparr>) (unique_constraints t),
       foreign_keys := map (\<lambda>f. f\<lparr>foreign_name := None\<rparr>) (foreign_keys t)\<rparr>"

definition unnamed :: "schema \<Rightarrow> schema" where
  "unnamed s = s\<lparr>tables := map unnamed_table (tables s)\<rparr>"

definition empty_schema :: schema where
  "empty_schema = \<lparr>tables = [], indexes = []\<rparr>"

lemmas ddl_defs = create_table_def drop_table_def create_index_def drop_index_def
  upgrade_0001_def upgrade_0002_def downgrade_0001_def downgrade_0002_def upgrade_head_def downgrade_base_def
  empty_schema_def

section \<open>What a schema demands of the rows\<close>

definition optional :: "('a \<Rightarrow> pyval) \<Rightarrow> 'a option \<Rightarrow> pyval" where
  "optional f v = (case v of None \<Rightarrow> PNone | Some x \<Rightarrow> f x)"

definition event_columns :: "webhook_event \<Rightarrow> pydict" where
  "event_columns r =
     [(''stripe_event_id'', PStr (stripe_event_id r)), (''event_type'', PStr (event_type r)),
      (''payload'', PDict (payload r)), (''status'', PStr (status r)), (''attempts'', PInt (attempts r)),
      (''last_error'', optional PStr (last_error r)), (''received_at'', PInt (received_at r)),
      (''next_attempt_at'', PInt (next_attempt_at r)), (''processed_at'', optional PInt (processed_at r))]"

definition customer_columns :: "customer_mapping \<Rightarrow> pydict" where
  "customer_columns r =
     [(''stripe_customer_id'', PStr (cm_stripe_customer_id r)),
      (''metronome_customer_id'', PStr (cm_metronome_customer_id r)),
      (''created_at'', PInt (cm_created_at r)), (''updated_at'', PInt (cm_updated_at r))]"

definition subscription_columns :: "subscription_mapping \<Rightarrow> pydict" where
  "subscription_columns r =
     [(''stripe_subscription_id'', PStr (sm_stripe_subscription_id r)),
      (''stripe_customer_id'', PStr (sm_stripe_customer_id r)),
      (''metronome_contract_id'', PStr (sm_metronome_contract_id r)),
      (''current_tier_name'', PStr (sm_current_tier_name r)),
      (''current_stripe_price_id'', PStr (sm_current_stripe_price_id r)),
      (''created_at'', PInt (sm_created_at r)), (''updated_at'', PInt (sm_updated_at r))]"

definition stored_rows :: "db \<Rightarrow> string \<Rightarrow> pydict list" where
  "stored_rows d n =
     (if n = ''webhook_events'' then map event_columns (webhook_events d)
      else if n = ''customer_mappings'' then map customer_columns (customer_mappings d)
      else if n = ''subscription_mappings'' then map subscription_columns (subscription_mappings d)
      else [])"

definition row_values :: "string list \<Rightarrow> pydict \<Rightarrow> pyval list" where
  "row_values ks r = map (dict_get r) ks"

definition table_holds :: "db \<Rightarrow> table \<Rightarrow> bool" where
  "table_holds d t =
     (let rows = stored_rows d (table_name t) in
      (\<forall>c \<in> set (columns t). nullable c \<or> (\<forall>r \<in> set rows. dict_get r (column_name c) \<noteq> PNone)) \<and>
      distinct (map (row_values (primary_key t)) rows) \<and>
      (\<forall>u \<in> set (unique_constraints t). distinct (map (row_values (unique_columns u)) rows)) \<and>
      (\<forall>f \<in> set (foreign_keys t). \<forall>r \<in> set rows.
         row_values (foreign_columns f) r \<in> row_values (parent_columns f) ` set (stored_rows d (parent_table f))))"

definition schema_holds :: "schema \<Rightarrow> db \<Rightarrow> bool" where
  "schema_holds s d \<longleftrightarrow> (\<forall>t \<in> set (tables s). table_holds d t)"

lemma distinct_key_values: "distinct (map (\<lambda>r. [PStr (k r)]) xs) \<longleftrightarrow> distinct (map k xs)"
  by (auto simp: distinct_map inj_on_def)

lemma key_values_image: "[PStr a] \<in> (\<lambda>x. [PStr (k x)]) ` S \<longleftrightarrow> a \<in> k ` S"
  by auto

text \<open>The constraints of the metadata are exactly what \<open>db_ok\<close> says.\<close>

lemma table_rules:
  "table_holds d WebhookEvent_table \<longleftrightarrow> distinct (map stripe_event_id (webhook_events d))"
  "table_holds d CustomerMapping_table \<longleftrightarrow>
     distinct (map cm_stripe_customer_id (customer_mappings d)) \<and>
     distinct (map cm_metronome_customer_id (customer_mappings d))"
  "table_holds d SubscriptionMapping_table \<longleftrightarrow>
     distinct (map sm_stripe_subscription_id (subscription_mappings d)) \<and>
     distinct (map sm_metronome_contract_id (subscription_mappings d)) \<and>
     (\<forall>r \<in> set (subscription_mappings d).
        sm_stripe_customer_id r \<in> cm_stripe_customer_id ` set (customer_mappings d))"
  by (simp_all add: table_holds_def stored_rows_def row_values_def event_columns_def customer_columns_def
      subscription_columns_def col_def WebhookEvent_table_def CustomerMapping_table_def
      SubscriptionMapping_table_def comp_def distinct_key_values image_image key_values_image)

lemma metadata_holds: "schema_holds metadata d \<longleftrightarrow> db_ok d"
  by (auto simp: schema_holds_def metadata_def table_rules db_ok_def)

lemma unnamed_holds: "schema_holds (unnamed s) d \<longleftrightarrow> schema_holds s d"
  by (auto simp: schema_holds_def unnamed_def unnamed_table_def table_holds_def)

lemma migrated: "\<exists>s. upgrade_head empty_schema = Inr s \<and> unnamed s = metadata"
  by (simp add: ddl_defs col_def unnamed_def unnamed_table_def metadata_def WebhookEvent_index_def
      SubscriptionMapping_index_def WebhookEvent_table_def
      CustomerMapping_table_def SubscriptionMapping_table_def)

section \<open>Undoing an operation\<close>

text \<open>A schema a database can have: what a foreign key or an index names is there.\<close>

definition schema_ok :: "schema \<Rightarrow> bool" where
  "schema_ok s \<longleftrightarrow>
     (\<forall>t \<in> set (tables s). parent_table ` set (foreign_keys t) \<subseteq> table_name ` set (tables s)) \<and>
     index_table ` set (indexes s) \<subseteq> table_name ` set (tables s)"

lemma create_table_Inr:
  "create_table t s = Inr s' \<longleftrightarrow>
     table_name t \<notin> table_name ` set (tables s) \<and>
     parent_table ` set (foreign_keys t) \<subseteq> table_name ` set (tables s) \<and> s' = s\<lparr>tables := tables s @ [t]\<rparr>"
  by (auto simp: create_table_def find_None_iff split: option.split dest!: find_SomeD)

lemma create_index_Inr:
  "create_index i s = Inr s' \<longleftrightarrow>
     index_name i \<notin> index_name ` set (indexes s) \<and> index_table i \<in> table_name ` set (tables s) \<and>
     s' = s\<lparr>indexes := indexes s @ [i]\<rparr>"
  by (auto simp: create_index_def)

lemma filter_fresh: "v \<notin> f ` set xs \<Longrightarrow> filter (\<lambda>x. f x \<noteq> v) xs = xs"
  by (induction xs) auto

lemma drop_created_table:
  assumes "schema_ok s" and "create_table t s = Inr s'"
  shows "schema_ok s'" and "drop_table (table_name t) s' = Inr s"
proof -
  note new = assms(2) [unfolded create_table_Inr]
  show "schema_ok s'" using assms(1) new by (auto simp: schema_ok_def)
  have "filter (\<lambda>u. table_name u \<noteq> table_name t) (tables s) = tables s" using new by (intro filter_fresh) blast
  moreover have "filter (\<lambda>i. index_table i \<noteq> table_name t) (indexes s) = indexes s"
    using new assms(1) by (intro filter_fresh) (auto simp: schema_ok_def)
  moreover have "table_name t \<notin> parent_table ` set (foreign_keys u)" if "u \<in> set (tables s)" for u
    using new assms(1) that by (auto simp: schema_ok_def)
  ultimately show "drop_table (table_name t) s' = Inr s" using new by (auto simp: drop_table_def)
qed

lemma drop_created_index:
  assumes "schema_ok s" and "create_index i s = Inr s'"
  shows "schema_ok s'" and "drop_index (index_name i) s' = Inr s"
proof -
  note new = assms(2) [unfolded create_index_Inr]
  show "schema_ok s'" using assms(1) new by (auto simp: schema_ok_def)
  have "filter (\<lambda>j. index_name j \<noteq> index_name i) (indexes s) = indexes s" using new by (intro filter_fresh) blast
  then show "drop_index (index_name i) s' = Inr s" using new by (simp add: drop_index_def)
qed

lemma downgrade_0001_undoes:
  assumes "schema_ok s" and "upgrade_0001 s = Inr s'"
  shows "schema_ok s' \<and> downgrade_0001 s' = Inr s \<and>
    ''customer_mappings'' \<notin> table_name ` set (tables s) \<and> ''webhook_events'' \<in> table_name ` set (tables s')"
proof -
  obtain t i u s1 s2 where steps: "create_table t s = Inr s1" "create_index i s1 = Inr s2" "create_table u s2 = Inr s'"
    and names: "table_name t = ''webhook_events''" "index_name i = ''idx_webhook_events_pending''"
      "table_name u = ''customer_mappings''"
    using assms(2) unfolding upgrade_0001_def try_bind_eq_Inr by (elim exE conjE) (rule that, assumption+, simp_all)
  note one = drop_created_table [OF assms(1) steps(1)]
  note two = drop_created_index [OF one(1) steps(2)]
  note three = drop_created_table [OF two(1) steps(3)]
  have "downgrade_0001 s' = Inr s"
    using one(2) two(2) three(2) by (simp add: downgrade_0001_def names)
  with three(1) steps names show ?thesis by (auto simp: create_table_Inr create_index_Inr)
qed

lemma downgrade_0002_undoes:
  assumes "schema_ok s" and "upgrade_0002 s = Inr s'"
  shows "schema_ok s' \<and> downgrade_0002 s' = Inr s \<and> ''subscription_mappings'' \<notin> table_name ` set (tables s) \<and>
    ''customer_mappings'' \<in> table_name ` set (tables s) \<and>
    table_name ` set (tables s) \<subseteq> table_name ` set (tables s') \<and>
    (\<exists>t \<in> set (tables s'). table_name t \<noteq> ''customer_mappings'' \<and> ''customer_mappings'' \<in> parent_table ` set (foreign_keys t))"
proof -
  obtain t i s1 where steps: "create_table t s = Inr s1" "create_index i s1 = Inr s'"
    and names: "table_name t = ''subscription_mappings''" "index_name i = ''idx_subscription_mappings_stripe_customer''"
      "parent_table ` set (foreign_keys t) = {''customer_mappings''}"
    using assms(2) unfolding upgrade_0002_def try_bind_eq_Inr by (elim exE conjE) (rule that, assumption+, simp_all)
  note one = drop_created_table [OF assms(1) steps(1)]
  note two = drop_created_index [OF one(1) steps(2)]
  have "downgrade_0002 s' = Inr s" using one(2) two(2) by (simp add: downgrade_0002_def names)
  with two(1) steps names show ?thesis by (auto simp: create_table_Inr create_index_Inr)
qed

section \<open>Properties\<close>

text \<open>C38: the migrations and the models agree. \<open>alembic upgrade head\<close> on an empty database
  succeeds and builds, up to the names of the constraints, the tables and indexes that
  \<open>models.py\<close> declares; and stored rows satisfy the constraints it built exactly when the
  keys are unique and no subscription mapping lacks its customer mapping (\<open>db_ok\<close>).\<close>

theorem migrations_build_the_models:
  "case upgrade_head empty_schema of
     Inl e \<Rightarrow> False
   | Inr s \<Rightarrow> unnamed s = metadata \<and> (\<forall>d. schema_holds s d = db_ok d)"
proof -
  obtain s where s: "upgrade_head empty_schema = Inr s" "unnamed s = metadata" using migrated by blast
  then have "schema_holds s d = db_ok d" for d using metadata_holds [of d] unnamed_holds [of s d] by simp
  with s show ?thesis by simp
qed

text \<open>C39: the downgrades undo the upgrades, in the reverse order only. Wherever \<open>upgrade head\<close>
  succeeds, on a database that may hold any other tables and indexes, each revision's
  downgrade gives back the schema its upgrade found, and \<open>downgrade base\<close> the one \<open>upgrade head\<close>
  found; the downgrade of 0001 first fails, since \<open>subscription_mappings\<close> still refers to
  \<open>customer_mappings\<close>; and 0002 cannot run before 0001, nor \<open>upgrade head\<close> twice.\<close>

theorem migrations_roundtrip:
  assumes "schema_ok s" and "upgrade_head s = Inr s'"
  shows "(\<exists>s1. upgrade_0001 s = Inr s1 \<and> downgrade_0001 s1 = Inr s \<and>
      upgrade_0002 s1 = Inr s' \<and> downgrade_0002 s' = Inr s1) \<and>
    downgrade_base s' = Inr s \<and>
    downgrade_0001 s' = Inl (DependentObjects ''customer_mappings'') \<and>
    upgrade_0002 s = Inl (UndefinedTable ''customer_mappings'') \<and>
    upgrade_head s' = Inl (DuplicateTable ''webhook_events'')"
proof -
  obtain s1 where up: "upgrade_0001 s = Inr s1" "upgrade_0002 s1 = Inr s'"
    using assms(2) by (auto simp: upgrade_head_def try_bind_eq_Inr)
  note one = downgrade_0001_undoes [OF assms(1) up(1)]
  then have two: "schema_ok s' \<and> downgrade_0002 s' = Inr s1" "''subscription_mappings'' \<notin> table_name ` set (tables s1)"
    "''customer_mappings'' \<in> table_name ` set (tables s')" "''webhook_events'' \<in> table_name ` set (tables s')"
    "\<exists>t \<in> set (tables s'). table_name t \<noteq> ''customer_mappings'' \<and> ''customer_mappings'' \<in> parent_table ` set (foreign_keys t)"
    using downgrade_0002_undoes [OF _ up(2)] by blast+
  have "''subscription_mappings'' \<notin> table_name ` set (tables s)"
    using two(2) up(1) by (auto simp: upgrade_0001_def try_bind_eq_Inr create_table_Inr create_index_Inr)
  with one have "upgrade_0002 s = Inl (UndefinedTable ''customer_mappings'')"
    by (simp add: upgrade_0002_def create_table_def)
  moreover have "downgrade_0001 s' = Inl (DependentObjects ''customer_mappings'')"
    using two(3,5) by (simp add: downgrade_0001_def drop_table_def)
  moreover have "upgrade_head s' = Inl (DuplicateTable ''webhook_events'')"
    using two(4) by (simp add: upgrade_head_def upgrade_0001_def create_table_def)
  moreover have "downgrade_base s' = Inr s" using one two(1) by (simp add: downgrade_base_def)
  ultimately show ?thesis using one two(1) up by blast
qed

text \<open>On a database that holds only alembic's own table.\<close>

definition stamped_schema :: schema where
  "stamped_schema =
     \<lparr>tables = [\<lparr>table_name = ''alembic_version'', columns = [col ''version_num'' TextType False None],
        primary_key = [''version_num''], unique_constraints = [], foreign_keys = []\<rparr>], indexes = []\<rparr>"

lemma migrations_roundtrip_witness:
  "\<exists>s'. upgrade_head stamped_schema = Inr s' \<and> length (tables s') = 4 \<and> downgrade_base s' = Inr stamped_schema"
proof -
  obtain s' where up: "upgrade_head stamped_schema = Inr s'" "length (tables s') = 4"
    by (simp add: ddl_defs stamped_schema_def)
  have "schema_ok stamped_schema" by (simp add: schema_ok_def stamped_schema_def)
  from migrations_roundtrip [OF this up(1)] up show ?thesis by blast
qed

end
