(* ===== verification/Migrate.thy ===== *)
theory Migrate
  imports AlembicEnv Schema
begin

text \<open>
  The rest of \<open>alembic/env.py\<close>: the module's flow and the two ways of running the
  migrations. What it calls in alembic, SQLAlchemy and \<open>logging.config\<close> is a parameter:
  \<open>fails\<close> says which of these calls raises, \<open>migrate\<close> what the revisions do to the database
  (\<open>context.run_migrations\<close> chooses the ones to run). Every call is recorded in the
  transcript. The two \<open>with\<close> blocks have their documented meaning: a transaction is
  committed when its block ends and rolled back when it raises, a connection is closed on
  every way out. PostgreSQL runs DDL inside transactions.
\<close>

section \<open>The calls\<close>

datatype alembic_call =
    FileConfig string
  | Configure schema pydict
  | EngineFromConfig environ
  | Connect
  | BeginTransaction
  | RunMigrations
  | Commit
  | Rollback
  | Close

text \<open>\<open>stored_schema\<close> is the committed database, \<open>draft\<close> what the open transaction has made of it.\<close>

record 'd migration =
  os_environ :: environ
  transcript :: "alembic_call list"
  stored_schema :: 'd
  draft :: 'd

type_synonym ('d, 'a) migration_act = "(exn, 'd migration, 'a) act"

definition library_call :: "(alembic_call \<Rightarrow> exn option) \<Rightarrow> alembic_call \<Rightarrow> ('d, unit) migration_act" where
  "library_call fails c =
     bnd (modifies (\<lambda>s. s\<lparr>transcript := transcript s @ [c]\<rparr>)) (\<lambda>_.
     case fails c of None \<Rightarrow> ret () | Some exc \<Rightarrow> raising exc)"

definition never :: "alembic_call \<Rightarrow> exn option" where
  "never c = None"

text \<open>\<open>with context.begin_transaction(): body\<close>\<close>

definition in_transaction :: "(alembic_call \<Rightarrow> exn option) \<Rightarrow> ('d, unit) migration_act \<Rightarrow> ('d, unit) migration_act" where
  "in_transaction fails body =
     bnd (library_call fails BeginTransaction) (\<lambda>_.
     bnd (modifies (\<lambda>s. s\<lparr>draft := stored_schema s\<rparr>)) (\<lambda>_.
     try_except_else body
       (\<lambda>exc. bnd (library_call never Rollback) (\<lambda>_. raising exc))
       (\<lambda>_. bnd (library_call fails Commit) (\<lambda>_. modifies (\<lambda>s. s\<lparr>stored_schema := draft s\<rparr>)))))"

text \<open>\<open>context.run_migrations()\<close>: online it changes the database, offline it prints the SQL.\<close>

definition emit_migrations :: "(alembic_call \<Rightarrow> exn option) \<Rightarrow> ('d, unit) migration_act" where
  "emit_migrations fails = library_call fails RunMigrations"

definition apply_migrations ::
  "(alembic_call \<Rightarrow> exn option) \<Rightarrow> ('d \<Rightarrow> exn + 'd) \<Rightarrow> ('d, unit) migration_act" where
  "apply_migrations fails migrate =
     bnd (library_call fails RunMigrations) (\<lambda>_.
     bnd (\<lambda>s. lift (migrate (draft s)) s) (\<lambda>d.
     modifies (\<lambda>s. s\<lparr>draft := d\<rparr>)))"

section \<open>env.py\<close>

definition database_url_now :: "('d, string) migration_act" where
  "database_url_now s = lift (alembic_database_url (os_environ s)) s"

definition run_migrations_offline :: "(alembic_call \<Rightarrow> exn option) \<Rightarrow> ('d, unit) migration_act" where
  "run_migrations_offline fails =
     bnd database_url_now (\<lambda>url.
     bnd (library_call fails (Configure metadata
            [(''url'', PStr url), (''literal_binds'', PBool True),
             (''dialect_opts'', PDict [(''paramstyle'', PStr ''named'')]), (''compare_type'', PBool True)])) (\<lambda>_.
     in_transaction fails (emit_migrations fails)))"

definition set_option :: "string \<Rightarrow> string \<Rightarrow> environ \<Rightarrow> environ" where
  "set_option k v options = filter (\<lambda>(x, _). x \<noteq> k) options @ [(k, v)]"

definition run_migrations_online ::
  "(alembic_call \<Rightarrow> exn option) \<Rightarrow> ('d \<Rightarrow> exn + 'd) \<Rightarrow> environ option \<Rightarrow> ('d, unit) migration_act" where
  "run_migrations_online fails migrate ini_section =
     bnd (ret (case ini_section of None \<Rightarrow> [] | Some options \<Rightarrow> options)) (\<lambda>configuration.
     bnd database_url_now (\<lambda>url.
     bnd (library_call fails (EngineFromConfig (set_option ''sqlalchemy.url'' url configuration))) (\<lambda>_.
     bnd (library_call fails Connect) (\<lambda>_.
     finally_do
       (bnd (library_call fails (Configure metadata [(''compare_type'', PBool True)])) (\<lambda>_.
        in_transaction fails (apply_migrations fails migrate)))
       (library_call never Close)))))"

text \<open>
  The module: first the \<open>.env\<close> file and the logging configuration that the \<open>.ini\<close> file
  holds, then the migrations, in the mode alembic was called in.
\<close>

definition env_setup ::
  "(alembic_call \<Rightarrow> exn option) \<Rightarrow> string option \<Rightarrow> string option \<Rightarrow> ('d, unit) migration_act" where
  "env_setup fails dotenv config_file_name =
     bnd (\<lambda>s. lift (load_dotenv_if_present dotenv (os_environ s)) s) (\<lambda>env.
     bnd (modifies (\<lambda>s. s\<lparr>os_environ := env\<rparr>)) (\<lambda>_.
     case config_file_name of None \<Rightarrow> ret () | Some f \<Rightarrow> library_call fails (FileConfig f)))"

definition run_env ::
  "(alembic_call \<Rightarrow> exn option) \<Rightarrow> ('d \<Rightarrow> exn + 'd) \<Rightarrow> string option \<Rightarrow> string option \<Rightarrow> environ option \<Rightarrow> bool \<Rightarrow>
     ('d, unit) migration_act" where
  "run_env fails migrate dotenv config_file_name ini_section is_offline_mode =
     bnd (env_setup fails dotenv config_file_name) (\<lambda>_.
     if is_offline_mode then run_migrations_offline fails
     else run_migrations_online fails migrate ini_section)"

section \<open>Runs\<close>

lemma library_call_eq:
  "library_call fails c s =
     ((case fails c of None \<Rightarrow> Inr () | Some exc \<Rightarrow> Inl exc), s\<lparr>transcript := transcript s @ [c]\<rparr>)"
  by (simp add: library_call_def act_simps split: option.split)

lemmas migration_defs = bnd_def library_call_eq never_def ret_def raising_def modifies_def lift_def
  try_except_else_def finally_do_def

text \<open>The transaction: what its body may have done to the committed database, and what it commits.\<close>

lemma in_transaction_Inr:
  "in_transaction fails body s = (Inr x, t) \<Longrightarrow>
     \<exists>v. body (s\<lparr>transcript := transcript s @ [BeginTransaction], draft := stored_schema s\<rparr>) = (Inr (), v) \<and>
       t = v\<lparr>transcript := transcript v @ [Commit], stored_schema := draft v\<rparr> \<and> fails Commit = None"
  by (auto simp: in_transaction_def migration_defs split: option.splits sum.splits prod.splits)

lemma in_transaction_Inl:
  assumes "in_transaction fails body s = (Inl exc, t)"
    and "\<And>u x v. body u = (x, v) \<Longrightarrow> stored_schema v = stored_schema u"
  shows "stored_schema t = stored_schema s"
  using assms(1)
  by (auto simp: in_transaction_def migration_defs split: option.splits sum.splits prod.splits dest!: assms(2))

lemma apply_migrations_run:
  "apply_migrations fails migrate u = (x, v) \<Longrightarrow> stored_schema v = stored_schema u"
  "apply_migrations fails migrate u = (Inr y, v) \<Longrightarrow> migrate (draft u) = Inr (draft v)"
  by (auto simp: apply_migrations_def migration_defs split: option.splits sum.splits)

lemma emit_migrations_run:
  "emit_migrations fails u = (x, v) \<Longrightarrow> stored_schema v = stored_schema u \<and> draft v = draft u"
  by (auto simp: emit_migrations_def migration_defs split: option.splits)

lemma in_transaction_migrates:
  assumes "in_transaction fails (apply_migrations fails migrate) s = (r, t)"
  shows "case r of Inl _ \<Rightarrow> stored_schema t = stored_schema s | Inr _ \<Rightarrow> migrate (stored_schema s) = Inr (stored_schema t)"
proof (cases r)
  case (Inl exc)
  with assms in_transaction_Inl [of fails _ s exc t] apply_migrations_run(1) show ?thesis by fastforce
next
  case (Inr x)
  from in_transaction_Inr [OF assms [unfolded Inr]] apply_migrations_run(2) Inr show ?thesis by fastforce
qed

lemma in_transaction_emits:
  assumes "in_transaction fails (emit_migrations fails) s = (r, t)"
  shows "stored_schema t = stored_schema s"
proof (cases r)
  case (Inl exc)
  with assms in_transaction_Inl [of fails _ s exc t] emit_migrations_run show ?thesis by blast
next
  case (Inr x)
  from in_transaction_Inr [OF assms [unfolded Inr]] emit_migrations_run [of fails] show ?thesis by fastforce
qed

section \<open>The transcripts\<close>

text \<open>The calls a run makes when none of them fails.\<close>

definition offline_calls :: "string \<Rightarrow> alembic_call list" where
  "offline_calls url =
     [Configure metadata
        [(''url'', PStr url), (''literal_binds'', PBool True),
         (''dialect_opts'', PDict [(''paramstyle'', PStr ''named'')]), (''compare_type'', PBool True)],
      BeginTransaction, RunMigrations, Commit]"

definition online_calls :: "environ \<Rightarrow> alembic_call list" where
  "online_calls configuration =
     [EngineFromConfig configuration, Connect, Configure metadata [(''compare_type'', PBool True)],
      BeginTransaction, RunMigrations, Commit, Close]"

text \<open>\<open>well_run\<close>: the calls \<open>ys\<close> of a run that ended as \<open>r\<close>, on the URL \<open>url\<close>.\<close>

definition section_options :: "environ option \<Rightarrow> environ" where
  "section_options ini_section = (case ini_section of None \<Rightarrow> [] | Some options \<Rightarrow> options)"

definition well_run :: "(alembic_call \<Rightarrow> exn option) \<Rightarrow> environ \<Rightarrow> environ option \<Rightarrow> bool \<Rightarrow> exn + unit \<Rightarrow> alembic_call list \<Rightarrow> bool" where
  "well_run fails env ini_section offline r ys \<longleftrightarrow>
     (case alembic_database_url env of
        Inl exc \<Rightarrow> r = Inl exc \<and> ys = []
      | Inr url \<Rightarrow>
          let plan = (if offline then offline_calls url
                      else online_calls (set_option ''sqlalchemy.url'' url (section_options ini_section)))
          in (r = Inr () \<longrightarrow> ys = plan) \<and> ys \<noteq> [] \<and> hd ys = hd plan \<and>
             (offline \<longrightarrow> Connect \<notin> set ys) \<and>
             (Connect \<in> set ys \<longrightarrow> fails Connect \<noteq> None \<or> last ys = Close) \<and>
             (\<forall>options. EngineFromConfig options \<in> set ys \<longrightarrow> map_of options ''sqlalchemy.url'' = Some url))"

lemma set_option_lookup: "map_of (set_option k v options) k = Some v"
proof -
  have "map_of (filter (\<lambda>(x, _). x \<noteq> k) options) k = None" by (auto simp: map_of_eq_None_iff)
  then show ?thesis by (simp add: set_option_def map_add_def)
qed

lemma offline_run:
  assumes "run_migrations_offline fails s = (r, t)"
  shows "stored_schema t = stored_schema s" and "os_environ t = os_environ s"
    and "\<exists>ys. transcript t = transcript s @ ys \<and> well_run fails (os_environ s) ini_section True r ys"
  using assms
  by (auto simp: run_migrations_offline_def database_url_now_def in_transaction_def emit_migrations_def
      migration_defs offline_calls_def well_run_def split: option.splits sum.splits)

lemma online_calls_made:
  assumes "run_migrations_online fails migrate ini_section s = (r, t)"
  shows "os_environ t = os_environ s"
    and "\<exists>ys. transcript t = transcript s @ ys \<and> well_run fails (os_environ s) ini_section False r ys"
  using assms
  by (auto simp: run_migrations_online_def database_url_now_def in_transaction_def apply_migrations_def
      migration_defs online_calls_def well_run_def section_options_def set_option_lookup Let_def
      split: option.splits sum.splits prod.splits)

lemma online_stored:
  assumes "run_migrations_online fails migrate ini_section s = (r, t)"
  shows "case r of Inl _ \<Rightarrow> stored_schema t = stored_schema s | Inr _ \<Rightarrow> migrate (stored_schema s) = Inr (stored_schema t)"
  using assms
  by (auto simp: run_migrations_online_def database_url_now_def in_transaction_def apply_migrations_def migration_defs
      split: option.splits sum.splits prod.splits)

text \<open>The module reads the \<open>.env\<close> file and the logging configuration before it looks at the URL.\<close>

lemma run_env_cases:
  assumes "run_env fails migrate dotenv ini_file ini_section offline s = (r, t)" and "transcript s = []"
  obtains (dotenv) exc where "load_dotenv_if_present dotenv (os_environ s) = Inl exc" "r = Inl exc" "t = s"
  | (logging) env f exc where "load_dotenv_if_present dotenv (os_environ s) = Inr env" "ini_file = Some f"
      "fails (FileConfig f) = Some exc" "r = Inl exc" "t = s\<lparr>os_environ := env, transcript := [FileConfig f]\<rparr>"
  | (runs) env where "load_dotenv_if_present dotenv (os_environ s) = Inr env"
      "(if offline then run_migrations_offline fails else run_migrations_online fails migrate ini_section)
         (s\<lparr>os_environ := env, transcript := (case ini_file of None \<Rightarrow> [] | Some f \<Rightarrow> [FileConfig f])\<rparr>) = (r, t)"
proof -
  have same: "s\<lparr>os_environ := env, transcript := []\<rparr> = s\<lparr>os_environ := env\<rparr>" for env
    using assms(2) by (cases s) simp
  show thesis
  proof (cases "load_dotenv_if_present dotenv (os_environ s)")
    case (Inl exc)
    with assms(1) show thesis by (intro dotenv) (auto simp: run_env_def env_setup_def bnd_def lift_def)
  next
    case (Inr env)
    note env = Inr
    let ?go = "if offline then run_migrations_offline fails else run_migrations_online fails migrate ini_section"
    have eq: "bnd (case ini_file of None \<Rightarrow> ret () | Some f \<Rightarrow> library_call fails (FileConfig f)) (\<lambda>_. ?go)
        (s\<lparr>os_environ := env\<rparr>) = (r, t)"
      using assms(1) env by (simp add: run_env_def env_setup_def bnd_def lift_def modifies_def)
    show thesis
    proof (cases ini_file)
      case None
      with eq show thesis by (intro runs [OF env]) (simp add: same bnd_def ret_def)
    next
      case (Some f)
      show thesis
      proof (cases "fails (FileConfig f)")
        case None
        with eq Some assms(2) show thesis by (intro runs [OF env]) (simp add: bnd_def library_call_eq)
      next
        case (Some exc)
        with eq \<open>ini_file = Some f\<close> assms(2) show thesis
          by (intro logging [OF env \<open>ini_file = Some f\<close> Some]) (simp_all add: bnd_def library_call_eq)
      qed
    qed
  qed
qed

section \<open>Properties\<close>

text \<open>C40: the migrations run as one. Whatever call of the libraries fails, a run of \<open>env.py\<close> that
  raises leaves the database as it was, and one that ends normally online has taken it to
  what the revisions make of it; offline the database is never touched. The URL is the one
  of the environment completed by \<open>.env\<close>; without one nothing is configured and nothing
  opened. A connection that was opened is closed on every way out.\<close>

theorem migrations_run_as_one:
  assumes "run_env fails migrate dotenv ini_file ini_section offline s = (r, t)" and "transcript s = []"
  shows "(case r of
      Inl _ \<Rightarrow> stored_schema t = stored_schema s
    | Inr _ \<Rightarrow> if offline then stored_schema t = stored_schema s
        else migrate (stored_schema s) = Inr (stored_schema t)) \<and>
    (r = Inr () \<longrightarrow> load_dotenv_if_present dotenv (os_environ s) = Inr (os_environ t)) \<and>
    (\<exists>ys. transcript t = (case ini_file of None \<Rightarrow> [] | Some f \<Rightarrow> [FileConfig f]) @ ys \<and>
       well_run fails (os_environ t) ini_section offline r ys \<or>
     isl r \<and> set (transcript t) \<subseteq> {FileConfig f | f. ini_file = Some f})"
  using assms
proof (cases rule: run_env_cases)
  case (dotenv exc)
  with assms(2) show ?thesis by simp
next
  case (logging env f exc)
  then show ?thesis by auto
next
  case (runs env)
  show ?thesis
  proof (cases offline)
    case True
    with runs(2) have run: "run_migrations_offline fails
        (s\<lparr>os_environ := env, transcript := (case ini_file of None \<Rightarrow> [] | Some f \<Rightarrow> [FileConfig f])\<rparr>) = (r, t)" by simp
    from offline_run(1,2) [OF run] offline_run(3) [OF run, of ini_section] runs(1) True
    show ?thesis by (auto split: sum.split)
  next
    case False
    with runs(2) have run: "run_migrations_online fails migrate ini_section
        (s\<lparr>os_environ := env, transcript := (case ini_file of None \<Rightarrow> [] | Some f \<Rightarrow> [FileConfig f])\<rparr>) = (r, t)" by simp
    from online_stored [OF run] online_calls_made [OF run] runs(1) False
    show ?thesis by (auto split: sum.splits)
  qed
qed

text \<open>On an empty database, with the revisions of the repository, and with a \<open>.env\<close> file that names the database.\<close>

definition repository_revisions :: "schema \<Rightarrow> exn + schema" where
  "repository_revisions d = map_error (\<lambda>_. OtherException ''ProgrammingError'' []) (upgrade_head d)"

lemma migrations_run_as_one_witness:
  "\<exists>t url. run_env never repository_revisions (Some sample_dotenv) None None False
      \<lparr>os_environ = [], transcript = [], stored_schema = empty_schema, draft = empty_schema\<rparr> = (Inr (), t) \<and>
    unnamed (stored_schema t) = metadata \<and> transcript t = online_calls [(''sqlalchemy.url'', url)]"
proof -
  let ?s = "\<lparr>os_environ = [], transcript = [], stored_schema = empty_schema, draft = empty_schema\<rparr> :: schema migration"
  let ?run = "run_env never repository_revisions (Some sample_dotenv) None None False ?s"
  have res: "fst ?run = Inr ()" by code_simp
  then have run: "?run = (Inr (), snd ?run)" by (simp add: prod_eq_iff)
  obtain d where d: "upgrade_head empty_schema = Inr d" "unnamed d = metadata" using migrated by blast
  from migrations_run_as_one [OF run] d
  have "stored_schema (snd ?run) = d" by (simp add: repository_revisions_def)
  moreover have "transcript (snd ?run) = online_calls [(''sqlalchemy.url'', ''postgresql://db/sidecar'')]" by code_simp
  ultimately show ?thesis using run d(2) by metis
qed

end
