(* ===== verification/Environment.thy ===== *)
theory Environment
  imports Config
begin

text \<open>
  The fields of \<open>Settings\<close> with their defaults, and how pydantic-settings fills them: from the
  environment, then from the \<open>.env\<close> file, then from the default; a field without one is
  required. What pydantic parses numbers with is a parameter, and so is what python-dotenv
  reads from the file. The result is the settings object the other theories start from.
\<close>

section \<open>Sources\<close>

text \<open>
  \<open>case_sensitive=False\<close>: the names of the variables are lowered, and of two that become
  equal the later one counts. \<open>extra="ignore"\<close>: variables that name no field are not looked at.
\<close>

type_synonym variables = "(string \<times> string) list"

definition env_lookup :: "variables \<Rightarrow> string \<Rightarrow> string option" where
  "env_lookup vars name = map_of (rev (map (\<lambda>(k, v). (py_lower k, v)) vars)) name"

definition source_value :: "variables \<Rightarrow> variables \<Rightarrow> string \<Rightarrow> string option" where
  "source_value environ dotenv name =
     (case env_lookup environ name of Some v \<Rightarrow> Some v | None \<Rightarrow> env_lookup dotenv name)"

section \<open>Fields\<close>

text \<open>A field's value, or its name among the errors.\<close>

type_synonym 'a field = "string list + 'a"

definition required_field :: "(string \<Rightarrow> string option) \<Rightarrow> string \<Rightarrow> string field" where
  "required_field src name = (case src name of None \<Rightarrow> Inl [name] | Some v \<Rightarrow> Inr v)"

definition uuid_field :: "(string \<Rightarrow> string option) \<Rightarrow> string \<Rightarrow> string field" where
  "uuid_field src name =
     try_bind (required_field src name) (\<lambda>v. map_error (\<lambda>_. [name]) (require_uuid v))"

definition text_field :: "(string \<Rightarrow> string option) \<Rightarrow> string \<Rightarrow> string \<Rightarrow> string field" where
  "text_field src name default_value = Inr (case src name of None \<Rightarrow> default_value | Some v \<Rightarrow> v)"

text \<open>A number; the default is not checked.\<close>

definition number_field ::
  "(string \<Rightarrow> string option) \<Rightarrow> (string \<Rightarrow> 'a option) \<Rightarrow> string \<Rightarrow> 'a \<Rightarrow> ('a \<Rightarrow> bool) \<Rightarrow> 'a field" where
  "number_field src parse name default_value accepts =
     (case src name of
        None \<Rightarrow> Inr default_value
      | Some t \<Rightarrow>
          (case parse t of
             None \<Rightarrow> Inl [name]
           | Some x \<Rightarrow> if accepts x then Inr x else Inl [name]))"

definition errors_of :: "'a field \<Rightarrow> string list" where
  "errors_of f = (case f of Inl names \<Rightarrow> names | Inr _ \<Rightarrow> [])"

section \<open>Settings()\<close>

text \<open>The fields in the order of the class, first for their errors, then for their values.\<close>

definition settings_errors ::
  "(string \<Rightarrow> rat option) \<Rightarrow> (string \<Rightarrow> int option) \<Rightarrow> (string \<Rightarrow> string option) \<Rightarrow> string list" where
  "settings_errors parse_float parse_int src =
     errors_of (required_field src ''stripe_webhook_secret'') @
     errors_of (required_field src ''metronome_api_key'') @
     errors_of (required_field src ''database_url'') @
     errors_of (uuid_field src ''metronome_default_rate_card_id'') @
     errors_of (text_field src ''log_level'' ''INFO'') @
     errors_of (number_field src parse_float ''worker_poll_interval_seconds'' 2 (\<lambda>x. 1 / 10 \<le> x)) @
     errors_of (number_field src parse_int ''worker_max_attempts'' 5 (\<lambda>x. 1 \<le> x)) @
     errors_of (number_field src parse_float ''worker_retry_base_seconds'' 30 (\<lambda>x. 1 \<le> x)) @
     errors_of (number_field src parse_float ''worker_retry_cap_seconds'' 3600 (\<lambda>x. 1 \<le> x)) @
     errors_of (text_field src ''metronome_base_url'' ''https://api.metronome.com'') @
     errors_of (number_field src parse_int ''port'' 8000 (\<lambda>x. 1 \<le> x \<and> x \<le> 65535))"

definition settings_values ::
  "(string \<Rightarrow> rat option) \<Rightarrow> (string \<Rightarrow> int option) \<Rightarrow> (string \<Rightarrow> string option) \<Rightarrow> settings" where
  "settings_values parse_float parse_int src =
     \<lparr>stripe_webhook_secret = projr (required_field src ''stripe_webhook_secret''),
      metronome_api_key = projr (required_field src ''metronome_api_key''),
      database_url = projr (required_field src ''database_url''),
      metronome_default_rate_card_id = projr (uuid_field src ''metronome_default_rate_card_id''),
      log_level = projr (text_field src ''log_level'' ''INFO''),
      worker_poll_interval_seconds =
        projr (number_field src parse_float ''worker_poll_interval_seconds'' 2 (\<lambda>x. 1 / 10 \<le> x)),
      worker_max_attempts = projr (number_field src parse_int ''worker_max_attempts'' 5 (\<lambda>x. 1 \<le> x)),
      worker_retry_base_seconds =
        projr (number_field src parse_float ''worker_retry_base_seconds'' 30 (\<lambda>x. 1 \<le> x)),
      worker_retry_cap_seconds =
        projr (number_field src parse_float ''worker_retry_cap_seconds'' 3600 (\<lambda>x. 1 \<le> x)),
      metronome_base_url = projr (text_field src ''metronome_base_url'' ''https://api.metronome.com''),
      port = projr (number_field src parse_int ''port'' 8000 (\<lambda>x. 1 \<le> x \<and> x \<le> 65535))\<rparr>"

definition read_settings ::
  "(string \<Rightarrow> rat option) \<Rightarrow> (string \<Rightarrow> int option) \<Rightarrow> variables \<Rightarrow> variables \<Rightarrow> exn + settings" where
  "read_settings parse_float parse_int environ dotenv =
     (let src = source_value environ dotenv; errors = settings_errors parse_float parse_int src
      in if errors = [] then Inr (settings_values parse_float parse_int src)
         else Inl (OtherException ''ValidationError'' (concat errors)))"

section \<open>Facts\<close>

lemma env_lookup_Cons: "env_lookup ((k, v) # vars) name =
  (case env_lookup vars name of Some x \<Rightarrow> Some x | None \<Rightarrow> if py_lower k = name then Some v else None)"
  by (simp add: env_lookup_def map_add_def split: option.split)

lemma required_field_iffs:
  "errors_of (required_field src name) = [] \<longleftrightarrow> (\<exists>v. src name = Some v)"
  "src name = Some v \<Longrightarrow> projr (required_field src name) = v"
  by (auto simp: required_field_def errors_of_def split: option.split)

lemma uuid_field_iffs:
  "errors_of (uuid_field src name) = [] \<longleftrightarrow> (\<exists>v. src name = Some v \<and> uuid_re_match v)"
  "src name = Some v \<Longrightarrow> uuid_re_match v \<Longrightarrow> projr (uuid_field src name) = v"
  by (auto simp: uuid_field_def required_field_def errors_of_def require_uuid_def split: option.split)

lemma number_field_iffs:
  "errors_of (number_field src parse name d p) = [] \<longleftrightarrow>
     (\<forall>t. src name = Some t \<longrightarrow> (\<exists>x. parse t = Some x \<and> p x))"
  "errors_of (number_field src parse name d p) = [] \<Longrightarrow> p d \<Longrightarrow> p (projr (number_field src parse name d p))"
  "src name = None \<Longrightarrow> projr (number_field src parse name d p) = d"
  by (auto simp: number_field_def errors_of_def split: option.splits if_splits)

text \<open>The value of an optional field: what the source says, if it says something, and else the default.\<close>

definition field_value :: "(string \<Rightarrow> 'a option) \<Rightarrow> 'a \<Rightarrow> string option \<Rightarrow> 'a \<Rightarrow> bool" where
  "field_value parse d v x \<longleftrightarrow> (case v of None \<Rightarrow> x = d | Some t \<Rightarrow> parse t = Some x)"

lemma number_field_value:
  "errors_of (number_field src parse name d p) = [] \<Longrightarrow>
     field_value parse d (src name) (projr (number_field src parse name d p))"
  by (auto simp: number_field_def errors_of_def field_value_def split: option.splits if_splits)

lemma text_field_value: "field_value Some d (src name) (projr (text_field src name d))"
  by (auto simp: text_field_def field_value_def split: option.split)

lemma text_field_simps:
  "errors_of (text_field src name d) = []"
  "projr (text_field src name d) = (case src name of None \<Rightarrow> d | Some v \<Rightarrow> v)"
  by (simp_all add: text_field_def errors_of_def)

section \<open>Properties\<close>

text \<open>What keeps a process from starting: a required variable that is set nowhere, a rate card that is no UUID, a number that does not parse or is out of its range.\<close>

definition number_refused :: "('a \<Rightarrow> bool) \<Rightarrow> (string \<Rightarrow> 'a option) \<Rightarrow> string option \<Rightarrow> bool" where
  "number_refused accepts parse v \<longleftrightarrow>
     (case v of None \<Rightarrow> False | Some t \<Rightarrow> (case parse t of None \<Rightarrow> True | Some x \<Rightarrow> \<not> accepts x))"

definition environment_refused ::
  "(string \<Rightarrow> rat option) \<Rightarrow> (string \<Rightarrow> int option) \<Rightarrow> (string \<Rightarrow> string option) \<Rightarrow> bool" where
  "environment_refused parse_float parse_int src \<longleftrightarrow>
     src ''stripe_webhook_secret'' = None \<or> src ''metronome_api_key'' = None \<or> src ''database_url'' = None \<or>
     (case src ''metronome_default_rate_card_id'' of None \<Rightarrow> True | Some v \<Rightarrow> \<not> uuid_re_match v) \<or>
     number_refused (\<lambda>x. 1 / 10 \<le> x) parse_float (src ''worker_poll_interval_seconds'') \<or>
     number_refused (\<lambda>x. 1 \<le> x) parse_int (src ''worker_max_attempts'') \<or>
     number_refused (\<lambda>x. 1 \<le> x) parse_float (src ''worker_retry_base_seconds'') \<or>
     number_refused (\<lambda>x. 1 \<le> x) parse_float (src ''worker_retry_cap_seconds'') \<or>
     number_refused (\<lambda>x. 1 \<le> x \<and> x \<le> 65535) parse_int (src ''port'')"

lemma number_field_accepted: "errors_of (number_field src parse name d p) = [] \<longleftrightarrow> \<not> number_refused p parse (src name)"
  by (auto simp: number_field_iffs number_refused_def split: option.split)

lemma uuid_field_accepted:
  "errors_of (uuid_field src name) = [] \<longleftrightarrow> \<not> (case src name of None \<Rightarrow> True | Some v \<Rightarrow> \<not> uuid_re_match v)"
  by (auto simp: uuid_field_iffs split: option.split)

lemma required_field_accepted: "errors_of (required_field src name) = [] \<longleftrightarrow> src name \<noteq> None"
  by (auto simp: required_field_iffs)

lemma number_field_ok:
  "\<not> number_refused p parse (src name) \<Longrightarrow> p d \<Longrightarrow> p (projr (number_field src parse name d p))"
  using number_field_iffs(2) [of src parse name d p] by (simp add: number_field_accepted)

lemma settings_errors_iff:
  "settings_errors parse_float parse_int src = [] \<longleftrightarrow> \<not> environment_refused parse_float parse_int src"
  unfolding settings_errors_def append_is_Nil_conv number_field_accepted uuid_field_accepted required_field_accepted
    text_field_simps environment_refused_def de_Morgan_disj simp_thms ..

text \<open>The optional fields with the defaults \<open>Settings\<close> declares.\<close>

definition optional_fields ::
  "(string \<Rightarrow> rat option) \<Rightarrow> (string \<Rightarrow> int option) \<Rightarrow> (string \<Rightarrow> string option) \<Rightarrow> settings \<Rightarrow> bool" where
  "optional_fields parse_float parse_int src cfg \<longleftrightarrow>
     field_value Some ''INFO'' (src ''log_level'') (log_level cfg) \<and>
     field_value parse_float 2 (src ''worker_poll_interval_seconds'') (worker_poll_interval_seconds cfg) \<and>
     field_value parse_int 5 (src ''worker_max_attempts'') (worker_max_attempts cfg) \<and>
     field_value parse_float 30 (src ''worker_retry_base_seconds'') (worker_retry_base_seconds cfg) \<and>
     field_value parse_float 3600 (src ''worker_retry_cap_seconds'') (worker_retry_cap_seconds cfg) \<and>
     field_value Some ''https://api.metronome.com'' (src ''metronome_base_url'') (metronome_base_url cfg) \<and>
     field_value parse_int 8000 (src ''port'') (port cfg)"

lemma settings_values_ok:
  assumes "\<not> environment_refused parse_float parse_int src"
  shows "load_settings (settings_values parse_float parse_int src) = Inr (settings_values parse_float parse_int src)"
    and "map src [''stripe_webhook_secret'', ''metronome_api_key'', ''database_url'', ''metronome_default_rate_card_id''] =
      map Some [stripe_webhook_secret (settings_values parse_float parse_int src),
        metronome_api_key (settings_values parse_float parse_int src), database_url (settings_values parse_float parse_int src),
        metronome_default_rate_card_id (settings_values parse_float parse_int src)]"
    and "optional_fields parse_float parse_int src (settings_values parse_float parse_int src)"
proof -
  obtain a b c r where src: "src ''stripe_webhook_secret'' = Some a" "src ''metronome_api_key'' = Some b"
    "src ''database_url'' = Some c" "src ''metronome_default_rate_card_id'' = Some r" "uuid_re_match r"
    using assms unfolding environment_refused_def by (auto split: option.splits)
  have n: "\<not> number_refused (\<lambda>x. 1 / 10 \<le> x) parse_float (src ''worker_poll_interval_seconds'')"
    "\<not> number_refused (\<lambda>x. 1 \<le> x) parse_int (src ''worker_max_attempts'')"
    "\<not> number_refused (\<lambda>x. 1 \<le> x) parse_float (src ''worker_retry_base_seconds'')"
    "\<not> number_refused (\<lambda>x. 1 \<le> x) parse_float (src ''worker_retry_cap_seconds'')"
    "\<not> number_refused (\<lambda>x. 1 \<le> x \<and> x \<le> 65535) parse_int (src ''port'')"
    using assms [unfolded environment_refused_def de_Morgan_disj] by blast+
  have bounds: "1 / 10 \<le> worker_poll_interval_seconds (settings_values parse_float parse_int src)"
    "1 \<le> worker_max_attempts (settings_values parse_float parse_int src)"
    "1 \<le> worker_retry_base_seconds (settings_values parse_float parse_int src)"
    "1 \<le> worker_retry_cap_seconds (settings_values parse_float parse_int src)"
    "1 \<le> port (settings_values parse_float parse_int src) \<and> port (settings_values parse_float parse_int src) \<le> 65535"
    unfolding settings_values_def settings.select_convs
    apply (rule number_field_ok [where src = src, OF n(1)], simp)
    apply (rule number_field_ok [where src = src, OF n(2)], simp)
    apply (rule number_field_ok [where src = src, OF n(3)], simp)
    apply (rule number_field_ok [where src = src, OF n(4)], simp)
    apply (rule number_field_ok [where src = src, OF n(5)], simp)
    done
  show "load_settings (settings_values parse_float parse_int src) = Inr (settings_values parse_float parse_int src)"
    unfolding load_settings_ok using bounds src uuid_field_iffs(2) [where src = src, OF src(4,5)] by (simp add: settings_values_def)
  show "map src [''stripe_webhook_secret'', ''metronome_api_key'', ''database_url'', ''metronome_default_rate_card_id''] =
      map Some [stripe_webhook_secret (settings_values parse_float parse_int src),
        metronome_api_key (settings_values parse_float parse_int src), database_url (settings_values parse_float parse_int src),
        metronome_default_rate_card_id (settings_values parse_float parse_int src)]"
    using src by (simp add: settings_values_def required_field_iffs uuid_field_iffs)
  show "optional_fields parse_float parse_int src (settings_values parse_float parse_int src)"
    unfolding optional_fields_def settings_values_def settings.select_convs
    using n by (intro conjI number_field_value text_field_value) (simp_all only: number_field_accepted not_False_eq_True simp_thms)
qed

text \<open>C35: the settings of a process are well formed. Reading the environment, completed by \<open>.env\<close>,
  fails exactly when it is refused; otherwise the settings pass every check they are declared
  with, the four required fields are what the sources say, and each of the seven optional
  ones is what the sources say, read as a number where it is one, and has its default if
  they say nothing.\<close>

theorem settings_are_well_formed:
  "case read_settings parse_float parse_int environ dotenv of
     Inl exc \<Rightarrow> environment_refused parse_float parse_int (source_value environ dotenv) \<and> exn_type_name exc = ''ValidationError''
   | Inr cfg \<Rightarrow> \<not> environment_refused parse_float parse_int (source_value environ dotenv) \<and> load_settings cfg = Inr cfg \<and>
       map (source_value environ dotenv)
         [''stripe_webhook_secret'', ''metronome_api_key'', ''database_url'', ''metronome_default_rate_card_id''] =
       map Some [stripe_webhook_secret cfg, metronome_api_key cfg, database_url cfg, metronome_default_rate_card_id cfg] \<and>
       optional_fields parse_float parse_int (source_value environ dotenv) cfg"
proof -
  let ?src = "source_value environ dotenv"
  show ?thesis
  proof (cases "environment_refused parse_float parse_int ?src")
    case True
    then show ?thesis by (simp add: read_settings_def Let_def settings_errors_iff)
  next
    case False
    with settings_values_ok [OF False] show ?thesis by (simp add: read_settings_def Let_def settings_errors_iff)
  qed
qed

definition sample_variables :: variables where
  "sample_variables =
     [(''STRIPE_WEBHOOK_SECRET'', ''whsec_1''), (''Metronome_Api_Key'', ''key''), (''PORT'', ''9''), (''HOME'', ''/root'')]"

definition sample_file :: variables where
  "sample_file =
     [(''DATABASE_URL'', ''postgresql+asyncpg://db/sidecar''), (''PORT'', ''10''),
      (''METRONOME_DEFAULT_RATE_CARD_ID'', ''0a1b2c3d-0000-4000-8000-00000000abcd'')]"

lemma settings_are_well_formed_witness:
  "\<exists>cfg. read_settings (\<lambda>_. None) (\<lambda>t. Some (read_dec t)) sample_variables sample_file = Inr cfg \<and>
     load_settings cfg = Inr cfg \<and> worker_max_attempts cfg = 5 \<and> port cfg = 9"
proof -
  let ?src = "source_value sample_variables sample_file"
  let ?read = "read_settings (\<lambda>_. None) (\<lambda>t. Some (read_dec t)) sample_variables sample_file"
  have "\<not> isl ?read" by code_simp
  then obtain cfg where cfg: "?read = Inr cfg" by (cases ?read) auto
  have unset: "?src ''worker_max_attempts'' = None" and "?src ''port'' = Some ''9''" by code_simp+
  have "load_settings cfg = Inr cfg \<and> worker_max_attempts cfg = 5"
    using settings_are_well_formed [of "\<lambda>_. None" "\<lambda>t. Some (read_dec t)" sample_variables sample_file] cfg unset
    by (simp add: optional_fields_def field_value_def)
  moreover have "port (projr ?read) = 9" by code_simp
  ultimately show ?thesis using cfg by simp
qed

end
