(* ===== verification/Spec2Isabelle.thy ===== *)
theory Spec2Isabelle
  imports Process Contracts Progress Races WorkerLoop Ordering Migrate Environment
begin

text \<open>
  A verification library of the Metronome--Stripe sidecar (\<open>src/src/sidecar\<close> and
  \<open>src/alembic\<close>).

  The program. Stripe posts signed events to the receiver (\<open>server.py\<close>), which verifies the
  signature (\<open>stripe_client.py\<close>), inserts the event into the table \<open>webhook_events\<close>, ignoring
  one it knows, and answers. Workers (\<open>worker.py\<close>) poll that table: a worker claims the oldest
  pending row that is due and that no other worker holds, runs the handler registered for its
  type inside the same transaction, and marks the row processed, failed, or pending again
  with a delay. The customer handler (\<open>handlers/customer.py\<close>) creates or renames the Metronome
  customer; the subscription handler (\<open>handlers/subscription.py\<close>) creates the Metronome
  contract of a tier (\<open>config/tiers.py\<close>) under a uniqueness key. Both build their request bodies
  with pure mappers (\<open>mappers/\<close>), call Metronome through \<open>metronome_client.py\<close> and store the ids
  in \<open>customer_mappings\<close> and \<open>subscription_mappings\<close> (\<open>models.py\<close>, created by the alembic
  revisions).

  The theories, in the order of the components:

    \<^item> \<open>Prelude\<close>: results that may be an exception (\<open>exn + 'a\<close>), stateful actions
      (\<open>state \<Rightarrow> (exn + 'a) \<times> state\<close>, the state kept when an exception is raised), and the
      locale \<open>state_frame\<close>, which lifts a reflexive and transitive relation from the steps of
      an action to the action.
    \<^item> \<open>PyData\<close>, \<open>PyTime\<close>, \<open>Json\<close>, \<open>JsonText\<close>, \<open>Errors\<close>: what the program uses of Python. Values, \<open>dict\<close>
      as association lists, strings as the bytes of their UTF-8 encoding, \<open>strip\<close>, \<open>replace\<close>,
      \<open>repr\<close>, integers as \<open>int\<close>; times in microseconds with the calendar of \<open>datetime\<close> and its
      range; \<open>json.loads\<close> of Python 3.12 on bytes (the locale \<open>value_scan\<close> is what the loops over
      a container rely on) and its round trip with compact JSON; the exception classes.
    \<^item> \<open>Tiers\<close>, \<open>Config\<close>, \<open>Environment\<close>: the tier table; the settings with their checks; and how
      the fields are filled from the environment, the \<open>.env\<close> file and the defaults.
    \<^item> \<open>Database\<close>: the rows of \<open>models.py\<close>, the statements the program runs with the constraints of
      the schema, and \<open>db_ok\<close>, what the constraints guarantee. The locales \<open>keyed_table\<close> and
      \<open>referencing_table\<close> are the interface of a table; they are interpreted on the three tables.
    \<^item> \<open>Schema\<close>: the metadata of \<open>models.py\<close>, the operations of \<open>0001_initial.py\<close> and
      \<open>0002_subscription_mappings.py\<close>, and that the second builds the first.
    \<^item> \<open>Session\<close>: what a handler acts on (\<open>'m ctx\<close>: the transaction's view of the database, whether
      a failed flush has deactivated the session, the Metronome server, the calls made and the
      log), and the locale \<open>event_handler\<close>, what the worker relies on in a handler: the
      constraints are kept, no mapping is lost or rebound, a failure leaves the database as
      it was. It is interpreted on all five handlers.
    \<^item> \<open>MapperCustomer\<close>, \<open>MapperSubscription\<close>, \<open>MetronomeClient\<close>, \<open>HandlerCustomer\<close>,
      \<open>HandlerSubscription\<close>, \<open>ContractRecovery\<close>: the modules of the same names; the last holds
      what the handler does about events out of order and about a crash between the contract
      and its row.
    \<^item> \<open>Worker\<close>: registry, claim, dispatch, retry, transaction and loop. \<open>'m world\<close> is what outlives a
      transaction. \<open>attempt_step\<close> is the specification of one attempt, which \<open>handle_event\<close>
      implements.
    \<^item> \<open>Failures\<close>: the request an event leads to, and what its failure commits.
    \<^item> \<open>Receiver\<close>: verification, \<open>session_scope\<close>, insert and answer.
    \<^item> \<open>System\<close>: the receiver, the workers, a worker that is killed, Metronome and the operator as
      the steps of one relation; the documented life cycle of an event as a state machine on
      the database, which the steps refine; reachable states, what is never lost, and that
      the queue drains.
    \<^item> \<open>Transactions\<close>, \<open>Concurrency\<close>: several workers whose transactions overlap on one
      database. \<open>replay\<close> makes the writes of a transaction on the tables of the moment of its
      commit; \<open>cluster_step\<close> has one rule per step of a transaction (claim with lock, reads,
      the handler's run, commit, conflict, death). Every step is a step of the life cycle, a
      transaction that is not interrupted is \<open>process_one\<close>, and of two inserts of one customer
      one is refused.
    \<^item> \<open>Races\<close>: two workers can both ask Metronome to create one customer, whatever it answers.
    \<^item> \<open>Contracts\<close>, \<open>Progress\<close>: two invariants of runs with overlapping transactions. The first
      keeps the contracts at Metronome against the events and the mappings, crashes and
      retries included (\<open>contract_step\<close>, \<open>contracts_ok\<close>); the second bounds the attempts of all
      workers together, by the locale \<open>amortised\<close>, interpreted on the life cycle.
    \<^item> \<open>WorkerLoop\<close>: the \<open>Worker\<close> object with its stop event and its waits, refining \<open>run\<close>.
    \<^item> \<open>Ordering\<close>: what retrying an old update, and the replay that \<open>README.md\<close> gives, do.
    \<^item> \<open>Process\<close>: the singletons of \<open>config\<close>, \<open>db.py\<close> and \<open>logging.py\<close>, and the entry points,
      whose loop may be interrupted and whose clean-up may fail.
    \<^item> \<open>AlembicEnv\<close>, \<open>Migrate\<close>: the \<open>.env\<close> reader, the URL, and the run of the migrations online
      and offline, with every library call a point where it may fail.
    \<^item> \<open>Sample\<close>: concrete settings, payloads and SDKs on which the witnesses run.

  Parameters. Code outside the repository is an argument of the definitions that use it:
  \<open>sdk\<close>, the Metronome SDK, answers one request in a server state of any type, with a response
  object or one of its exceptions; \<open>construct_event\<close> is \<open>stripe.Webhook.construct_event\<close>;
  \<open>bad_url\<close> and \<open>super_add_fields\<close> stand for \<open>create_async_engine\<close> and the base class of the log
  formatter; \<open>parse_float\<close> and \<open>parse_int\<close> are pydantic's reading of a number; \<open>close_failure\<close>,
  \<open>dispose_failure\<close> and \<open>interrupt\<close> are what closing the client, closing the pool and the wait
  of the loop raise, if anything; \<open>fails\<close> and \<open>migrate\<close> are the calls into alembic and what the
  revisions do. Where a property needs more of Metronome it says so. \<open>honours_uniqueness sdk held\<close>
  is the behaviour that the docstring of \<open>create_contract\<close> quotes and no more: a creation under
  a taken key fails, with any error and for any customer, one that returns an id has created
  the contract, and a listing shows no contract the server does not hold. Timeouts, rate limits,
  lost responses and incomplete listings are all allowed (\<open>throttled_honours\<close>), and \<open>store_sdk\<close>
  is such a server. \<open>leaves_contracts\<close> says that no other request makes a contract.
  Readings of the outside world are records: \<open>env\<close> for the clocks, the random draw and the
  traceback of one iteration, \<open>webhook_request\<close> for a request. \<open>stack_room\<close> in it is how many
  JSON containers the recursion limit lets be open at once, a number the program does not
  control.

  Bounds and fuel. Nothing runs on fuel that could be too small: the scanner of \<open>Json\<close> recurses
  on \<open>stack_room\<close>, whose exhaustion is Python's \<open>RecursionError\<close>, and its loops test that the
  text gets shorter, a test that always holds (\<open>scan_items_step\<close>, \<open>scan_entries_step\<close>). The
  polling loop runs over the list of its readings; \<open>busy_iterations\<close> and \<open>attempts_left\<close> bound the
  iterations that find work, and the locale \<open>amortised\<close> the attempts of any number of workers.
  Integers are unbounded as in Python; where the platform has a width (timestamps, \<open>timedelta\<close>,
  the exponent of the backoff, the digits of an integer literal) the overflow is a branch of
  the model. Floats are the rationals they denote: JSON literals are rounded to binary64, while
  the arithmetic of the backoff delay is exact.

  What the groups of lemmas show. The frames (\<open>keeps_ok\<close>, \<open>grows\<close>, \<open>records\<close>, \<open>atomic\<close>) hold of every
  action of the handlers and carry the invariants through the worker; the \<open>_Inr\<close> and \<open>_Inl\<close> lemmas
  invert an action on its outcomes; the \<open>_post\<close> lemmas say what a handler has done when it
  returns. On them rest the properties: for each component its behaviour on success and on
  every kind of failure, for the whole that every reachable database is sound, that nothing
  acknowledged is lost, that retries are bounded and the queue drains, and that a contract
  is created at most once for its key, for an event that is stored and a customer that is
  mapped, crashes included.

  Concurrency. In \<open>System\<close> a transaction is one step, and the rows that other workers hold are
  an arbitrary set at each claim. In \<open>Concurrency\<close> transactions overlap as PostgreSQL's
  \<open>READ COMMITTED\<close> lets them: a claim passes over at least the rows that are held; the tables a
  handler reads are the committed ones at the moment of each read (a handler reads at most
  one row of each mapping table, the subscription first); its inserts are checked at the
  commit. The last is coarser than PostgreSQL, where the second of two conflicting inserts
  waits for the first transaction to end: the model allows either to commit first, and lets
  the loser log that it was done. Log lines are therefore not part of that model.
  A worker that is killed or loses its connection is there the step \<open>dies\<close> (or \<open>commits\<close>, when
  only the answer to the commit is lost); it comes before or after the handler's run, since
  a handler makes at most one request that changes Metronome.

  Not modelled: the HTTP layer below the routes (FastAPI, uvicorn, the JSON response's bytes),
  how pydantic parses a number and python-dotenv a file, SQL and its drivers below the
  statements of \<open>Database\<close>, the connection pool, the SDK's own retries and transport, the wiring
  of signals, and how alembic chooses the revisions to run. They are calls into libraries
  without logic of the program. Two values outside the model come from there. The float
  settings are finite: pydantic also takes \<open>inf\<close> for the three fields that have only a lower
  bound. And a stored payload is the dict that was inserted: PostgreSQL's \<open>JSONB\<close> keeps no order
  of keys, on which no handler depends, and refuses a string with a null character, which is one of the
  failures that the receiver's parameter \<open>db_failure\<close> stands for.
\<close>

end
